(* ===== verification/Prelude.thy ===== *)
theory Prelude
  imports Main "HOL-Library.Word" "HOL-Library.AList" "HOL-Library.Multiset"
begin

section \<open>Prelude: shared types, fact collections and generic lemmas\<close>

text \<open>
  What every component of the node's model shares.

  \<^item> Types. A libp2p peer id and a multiaddress come from third-party crates; the code under
    \<^verbatim>\<open>src/\<close> only compares, hashes and stores them, so they are opaque identifiers. Machine
    integers are words of the source's width. Instants and durations of \<^verbatim>\<open>std::time\<close> are
    natural numbers (ticks of one fixed unit). The sending half of a oneshot channel is an
    identifier; what has been sent through it is recorded in a log of replies.
  \<^item> \<^verbatim>\<open>HashMap\<close>: where the code only looks up, inserts and removes, a HOL map; where it
    iterates, an association list with distinct keys, whose order stands for the unspecified
    iteration order (theorems are about every such list).
  \<^item> \<^verbatim>\<open>Result\<close> is a sum with the error on the left.
\<close>

named_theorems pool_defs
named_theorems alias_defs
named_theorems kad_defs
named_theorems bus_defs
named_theorems plumber_defs

type_synonym u8 = "8 word"
type_synonym u16 = "16 word"
type_synonym u32 = "32 word"
type_synonym u64 = "64 word"
type_synonym i64 = "64 word"

type_synonym peer_id = nat
type_synonym multiaddr = nat
type_synonym instant = nat
type_synonym duration = nat
type_synonym outlet = nat
type_synonym bytes = "u8 list"

subsection \<open>Checked machine arithmetic\<close>

definition checked_add :: "'a::len word \<Rightarrow> 'a word \<Rightarrow> 'a word option" where
  "checked_add a b = (if unat a + unat b < 2 ^ LENGTH('a) then Some (a + b) else None)"

definition checked_sub :: "'a::len word \<Rightarrow> 'a word \<Rightarrow> 'a word option" where
  "checked_sub a b = (if b \<le> a then Some (a - b) else None)"

lemma checked_add_Some_iff:
  "checked_add a b = Some c \<longleftrightarrow> unat c = unat a + unat b" for a b c :: "'a::len word"
proof
  assume "checked_add a b = Some c"
  then show "unat c = unat a + unat b"
    by (auto simp: checked_add_def unat_word_ariths split: if_splits)
next
  assume eq: "unat c = unat a + unat b"
  moreover have "unat c < 2 ^ LENGTH('a)" by (rule unsigned_less)
  ultimately have lt: "unat a + unat b < 2 ^ LENGTH('a)" by simp
  then have "unat (a + b) = unat c" by (simp add: eq unat_word_ariths)
  then have "a + b = c" by (rule word_unat_eq_iff [THEN iffD2])
  with lt show "checked_add a b = Some c" by (simp add: checked_add_def)
qed

lemma checked_add_None_iff:
  "checked_add a b = None \<longleftrightarrow> 2 ^ LENGTH('a) \<le> unat a + unat b" for a b :: "'a::len word"
  by (auto simp: checked_add_def)

lemma checked_sub_Some_iff:
  "checked_sub a b = Some c \<longleftrightarrow> unat a = unat b + unat c" for a b c :: "'a::len word"
proof (cases "b \<le> a")
  case True
  then have "unat (a - b) = unat a - unat b" by (rule unat_sub)
  moreover have "unat b \<le> unat a" using True by (simp add: word_le_nat_alt)
  ultimately show ?thesis
    using True by (auto simp: checked_sub_def word_unat_eq_iff)
next
  case False
  then have "unat a < unat b" by (simp add: word_le_nat_alt)
  with False show ?thesis by (auto simp: checked_sub_def)
qed

subsection \<open>Removing one element\<close>

definition remove_nth :: "nat \<Rightarrow> 'a list \<Rightarrow> 'a list" where
  "remove_nth i xs = take i xs @ drop (Suc i) xs"

lemma length_remove_nth [simp]: "i < length xs \<Longrightarrow> length (remove_nth i xs) = length xs - 1"
  by (simp add: remove_nth_def)

lemma mset_remove_nth:
  "i < length xs \<Longrightarrow> mset xs = add_mset (xs ! i) (mset (remove_nth i xs))"
  by (metis remove_nth_def id_take_nth_drop mset.simps(2) mset_append union_mset_add_mset_right)

lemma distinct_of_mset_plus:
  assumes "mset xs + M = mset ys" and "distinct ys"
  shows "distinct xs"
proof -
  obtain zs where "mset zs = M" using ex_mset by blast
  with assms(1) have "mset (xs @ zs) = mset ys" by simp
  with assms(2) have "distinct (xs @ zs)" by (metis mset_eq_imp_distinct_iff)
  then show ?thesis by simp
qed

subsection \<open>Results: collecting a vector of results\<close>

text \<open>\<^verbatim>\<open>iter.collect::<Result<Vec<_>, E>>()\<close> stops at the first error.\<close>

fun collect_results :: "('e + 'a) list \<Rightarrow> 'e + 'a list" where
  "collect_results [] = Inr []"
| "collect_results (Inl e # _) = Inl e"
| "collect_results (Inr x # rs) =
     (case collect_results rs of Inl e \<Rightarrow> Inl e | Inr xs \<Rightarrow> Inr (x # xs))"

lemma collect_results_map_Inr [simp]: "collect_results (map Inr xs) = Inr xs"
  by (induction xs) auto

lemma collect_results_InrD: "collect_results rs = Inr xs \<Longrightarrow> rs = map Inr xs"
  by (induction rs arbitrary: xs rule: collect_results.induct) (auto split: sum.splits)

lemma collect_results_Inr_iff [simp]:
  "collect_results rs = Inr xs \<longleftrightarrow> rs = map Inr xs"
  using collect_results_InrD by auto

lemma collect_results_Inl_iff:
  "collect_results rs = Inl e \<longleftrightarrow> (\<exists>xs rest. rs = map Inr xs @ Inl e # rest)"
proof (induction rs rule: collect_results.induct)
  case (3 x rs)
  show ?case
  proof
    assume "collect_results (Inr x # rs) = Inl e"
    then have "collect_results rs = Inl e" by (auto split: sum.splits)
    with "3.IH" obtain xs rest where "rs = map Inr xs @ Inl e # rest" by blast
    then have "Inr x # rs = map Inr (x # xs) @ Inl e # rest" by simp
    then show "\<exists>xs rest. Inr x # rs = map Inr xs @ Inl e # rest" by blast
  next
    assume "\<exists>xs rest. Inr x # rs = map Inr xs @ Inl e # rest"
    then obtain xs rest where eq: "Inr x # rs = map Inr xs @ Inl e # rest" by blast
    then obtain ys where "xs = x # ys" by (cases xs) auto
    with eq have "rs = map Inr ys @ Inl e # rest" by simp
    then have "collect_results rs = Inl e" using "3.IH" by blast
    then show "collect_results (Inr x # rs) = Inl e" by simp
  qed
qed (auto simp: Cons_eq_append_conv)

subsection \<open>Hash maps with an iteration order\<close>

text \<open>
  \<^verbatim>\<open>retain\<close> with a closure that may also update the value: entries for which the closure
  answers \<open>None\<close> are dropped.
\<close>

definition map_retain :: "('k \<Rightarrow> 'v \<Rightarrow> 'v option) \<Rightarrow> ('k \<times> 'v) list \<Rightarrow> ('k \<times> 'v) list" where
  "map_retain f m = List.map_filter (\<lambda>(k, v). map_option (Pair k) (f k v)) m"

lemma map_retain_Nil [simp]: "map_retain f [] = []"
  by (simp add: map_retain_def List.map_filter_simps)

lemma map_retain_Cons [simp]:
  "map_retain f ((k, v) # m) =
     (case f k v of None \<Rightarrow> map_retain f m | Some w \<Rightarrow> (k, w) # map_retain f m)"
  by (simp add: map_retain_def List.map_filter_simps split: option.splits)

lemma map_retain_memD: "(k, w) \<in> set (map_retain f m) \<Longrightarrow> \<exists>v. (k, v) \<in> set m \<and> f k v = Some w"
  by (induction m) (auto split: option.splits, blast+)

lemma keys_map_retain_subset: "set (map fst (map_retain f m)) \<subseteq> set (map fst m)"
proof
  fix k
  assume "k \<in> set (map fst (map_retain f m))"
  then obtain w where "(k, w) \<in> set (map_retain f m)" by auto
  then obtain v where "(k, v) \<in> set m" using map_retain_memD by fast
  then show "k \<in> set (map fst m)" by force
qed

lemma distinct_map_retain: "distinct (map fst m) \<Longrightarrow> distinct (map fst (map_retain f m))"
proof (induction m)
  case (Cons x m)
  obtain k v where x: "x = (k, v)" by (cases x)
  from Cons.prems x have "k \<notin> set (map fst (map_retain f m))"
    using keys_map_retain_subset [of f m] by auto
  with Cons x show ?case by (auto split: option.splits)
qed simp

lemma map_of_map_retain:
  "distinct (map fst m) \<Longrightarrow>
   map_of (map_retain f m) k = Option.bind (map_of m k) (f k)"
proof (induction m)
  case (Cons x m)
  obtain k' v where x: "x = (k', v)" by (cases x)
  have "map_of m k' = None" if "k = k'"
    using Cons.prems x that by (simp add: map_of_eq_None_iff)
  with Cons x show ?case by (auto split: option.splits)
qed simp

lemma distinct_AList_update:
  "distinct (map fst m) \<Longrightarrow> distinct (map fst (AList.update k v m))"
  by (rule distinct_update)

lemma distinct_AList_delete:
  "distinct (map fst m) \<Longrightarrow> distinct (map fst (AList.delete k m))"
  by (rule distinct_delete)

lemma map_of_AList_update [simp]: "map_of (AList.update k v m) = (map_of m)(k \<mapsto> v)"
  by (rule update_conv')

lemma map_of_AList_delete [simp]: "map_of (AList.delete k m) = (map_of m)(k := None)"
  by (rule delete_conv')

subsection \<open>Decimal rendering of numbers\<close>

text \<open>What \<^verbatim>\<open>format!("{n}")\<close> writes for an unsigned integer.\<close>

definition digit_char :: "nat \<Rightarrow> char" where
  "digit_char d = char_of (48 + d)"

fun show_nat :: "nat \<Rightarrow> string" where
  "show_nat n = (if n < 10 then [digit_char n] else show_nat (n div 10) @ [digit_char (n mod 10)])"

declare show_nat.simps [simp del]

definition read_nat :: "string \<Rightarrow> nat" where
  "read_nat s = foldl (\<lambda>n c. 10 * n + (of_char c - 48)) 0 s"

lemma read_show_nat [simp]: "read_nat (show_nat n) = n"
proof (induction n rule: show_nat.induct)
  case (1 n)
  have digit: "of_char (digit_char d) - 48 = d" if "d < 10" for d :: nat
    using that by (simp add: digit_char_def)
  show ?case
  proof (cases "n < 10")
    case True
    then show ?thesis by (simp add: show_nat.simps [of n] read_nat_def digit)
  next
    case False
    then have "read_nat (show_nat n) = 10 * read_nat (show_nat (n div 10)) + n mod 10"
      by (subst show_nat.simps) (simp add: read_nat_def digit)
    with False "1.IH" show ?thesis by simp
  qed
qed

lemma show_nat_inj [simp]: "show_nat m = show_nat n \<longleftrightarrow> m = n"
  by (metis read_show_nat)

lemma digit_char_neq_underscore: "d < 10 \<Longrightarrow> digit_char d \<noteq> CHR ''_''"
proof
  assume "d < 10" and "digit_char d = CHR ''_''"
  then have "(of_char (digit_char d) :: nat) = 95" by simp
  with \<open>d < 10\<close> show False by (simp add: digit_char_def)
qed

lemma underscore_not_in_show_nat: "CHR ''_'' \<notin> set (show_nat n)"
proof (induction n rule: show_nat.induct)
  case (1 n)
  then show ?case
    by (subst show_nat.simps) (use digit_char_neq_underscore [of n] digit_char_neq_underscore [of "n mod 10"] in auto)
qed

subsection \<open>Suffixes\<close>

definition ends_with :: "string \<Rightarrow> string \<Rightarrow> bool" where
  "ends_with suf s \<longleftrightarrow> length suf \<le> length s \<and> drop (length s - length suf) s = suf"

lemma ends_with_append [simp]: "ends_with suf (s @ suf)"
  by (simp add: ends_with_def)

subsection \<open>Summing over the values of an association list\<close>

definition assoc_sum :: "('v \<Rightarrow> 'a::cancel_comm_monoid_add) \<Rightarrow> ('k \<times> 'v) list \<Rightarrow> 'a" where
  "assoc_sum f xs = sum_list (map (f \<circ> snd) xs)"

lemma assoc_sum_simps [simp]:
  "assoc_sum f [] = 0" "assoc_sum f ((k, v) # xs) = f v + assoc_sum f xs"
  by (simp_all add: assoc_sum_def)

lemma assoc_sum_update_None:
  "map_of xs k = None \<Longrightarrow> assoc_sum f (AList.update k v xs) = assoc_sum f xs + f v"
  by (induction xs) (auto simp: add_ac split: if_splits)

lemma assoc_sum_update_Some:
  "distinct (map fst xs) \<Longrightarrow> map_of xs k = Some v0 \<Longrightarrow>
   assoc_sum f (AList.update k v xs) + f v0 = assoc_sum f xs + f v"
proof (induction xs)
  case (Cons kv xs)
  obtain k' v' where kv: "kv = (k', v')" by (cases kv)
  show ?case
  proof (cases "k' = k")
    case True
    with Cons.prems kv show ?thesis by (simp add: add_ac)
  next
    case False
    with Cons.prems kv have "assoc_sum f (AList.update k v xs) + f v0 = assoc_sum f xs + f v"
      by (intro Cons.IH) auto
    with False kv show ?thesis by (simp add: add.assoc)
  qed
qed simp

lemma assoc_sum_delete_Some:
  "distinct (map fst xs) \<Longrightarrow> map_of xs k = Some v0 \<Longrightarrow>
   assoc_sum f xs = assoc_sum f (AList.delete k xs) + f v0"
proof (induction xs)
  case (Cons kv xs)
  obtain k' v' where kv: "kv = (k', v')" by (cases kv)
  show ?case
  proof (cases "k' = k")
    case True
    with Cons.prems kv have "k \<notin> fst ` set xs" by auto
    then have "AList.delete k xs = xs" by (simp add: AList.delete_eq filter_id_conv) force
    with Cons.prems kv True show ?thesis by (simp add: AList.delete_eq add.commute)
  next
    case False
    with Cons kv show ?thesis by (simp add: AList.delete_eq add.assoc)
  qed
qed simp

lemma set_AList_update_subset: "set (AList.update k v xs) \<subseteq> insert (k, v) (set xs)"
  by (induction xs) auto

subsection \<open>Fallible steps on a state\<close>

text \<open>A step that may fail after having changed the state, and the \<^verbatim>\<open>?\<close> operator between two of them.\<close>

definition try_then ::
    "('s \<Rightarrow> ('e + 'a) \<times> 's) \<Rightarrow> ('a \<Rightarrow> 's \<Rightarrow> ('e + 'b) \<times> 's) \<Rightarrow> 's \<Rightarrow> ('e + 'b) \<times> 's" where
  "try_then m f s = (case m s of (Inl e, s1) \<Rightarrow> (Inl e, s1) | (Inr x, s1) \<Rightarrow> f x s1)"

lemma try_then_Inl [simp]: "m s = (Inl e, s1) \<Longrightarrow> try_then m f s = (Inl e, s1)"
  by (simp add: try_then_def)

lemma try_then_Inr [simp]: "m s = (Inr x, s1) \<Longrightarrow> try_then m f s = f x s1"
  by (simp add: try_then_def)

lemma try_then_InrE:
  assumes "try_then m f s = (Inr y, s')"
  obtains x s1 where "m s = (Inr x, s1)" and "f x s1 = (Inr y, s')"
  using assms by (auto simp: try_then_def split: prod.splits sum.splits)

lemma try_then_inv:
  assumes "try_then m f s = (r, s')" and "\<And>r1 s1. m s = (r1, s1) \<Longrightarrow> P s1"
    and "\<And>x s1. m s = (Inr x, s1) \<Longrightarrow> f x s1 = (r, s') \<Longrightarrow> P s'"
  shows "P s'"
  using assms by (auto simp: try_then_def split: prod.splits sum.splits)

lemma map_sum_Inr_iff [simp]: "map_sum f id r = Inr y \<longleftrightarrow> r = Inr y"
  by (cases r) auto

end
