(* ===== verification/Waiting_Queues.thy ===== *)
theory Waiting_Queues
  imports Prelude
begin

section \<open>Waiting queues\<close>

text \<open>
  \<^verbatim>\<open>crates/waiting-queues/src/lib.rs\<close>: a map from keys to first-in first-out queues. The code
  never iterates over the keys, so the map is a HOL map. The contract is a locale over the
  abstract view "the queue of a key" (empty when the key is absent), with the representation
  invariant that a stored queue is never empty.
\<close>

datatype enqueued = New | Existing

record ('k, 'v) waiting_queues =
  wq_map :: "'k \<rightharpoonup> 'v list"

definition wq_new :: "('k, 'v) waiting_queues" where
  "wq_new = \<lparr>wq_map = Map.empty\<rparr>"

definition wq_enqueue ::
    "'k \<Rightarrow> 'v \<Rightarrow> ('k, 'v) waiting_queues \<Rightarrow> enqueued \<times> ('k, 'v) waiting_queues" where
  "wq_enqueue key item q =
     (case wq_map q key of
        Some entry \<Rightarrow> (Existing, q\<lparr>wq_map := (wq_map q)(key \<mapsto> entry @ [item])\<rparr>)
      | None \<Rightarrow> (New, q\<lparr>wq_map := (wq_map q)(key \<mapsto> [item])\<rparr>))"

definition wq_remove ::
    "'k \<Rightarrow> ('k, 'v) waiting_queues \<Rightarrow> 'v list \<times> ('k, 'v) waiting_queues" where
  "wq_remove key q =
     ((case wq_map q key of Some entry \<Rightarrow> entry | None \<Rightarrow> []),
      q\<lparr>wq_map := (wq_map q)(key := None)\<rparr>)"

definition wq_remove_with ::
    "'k \<Rightarrow> ('v \<Rightarrow> bool) \<Rightarrow> ('k, 'v) waiting_queues \<Rightarrow> 'v list \<times> ('k, 'v) waiting_queues" where
  "wq_remove_with key pred q =
     (case wq_map q key of
        Some queue \<Rightarrow>
          (let (removed, keep) = partition pred queue in
           if keep = [] then (removed, q\<lparr>wq_map := (wq_map q)(key := None)\<rparr>)
           else (removed, q\<lparr>wq_map := (wq_map q)(key \<mapsto> keep)\<rparr>))
      | None \<Rightarrow> ([], q))"

definition wq_count :: "'k \<Rightarrow> ('k, 'v) waiting_queues \<Rightarrow> nat" where
  "wq_count key q = (case wq_map q key of Some queue \<Rightarrow> length queue | None \<Rightarrow> 0)"

definition wq_queue :: "('k, 'v) waiting_queues \<Rightarrow> 'k \<Rightarrow> 'v list" where
  "wq_queue q key = (case wq_map q key of Some queue \<Rightarrow> queue | None \<Rightarrow> [])"

definition wq_invar :: "('k, 'v) waiting_queues \<Rightarrow> bool" where
  "wq_invar q \<longleftrightarrow> (\<forall>k. wq_map q k \<noteq> Some [])"

subsection \<open>The contract of keyed queues\<close>

locale keyed_queues =
  fixes empty :: 'q
    and enqueue :: "'k \<Rightarrow> 'v \<Rightarrow> 'q \<Rightarrow> enqueued \<times> 'q"
    and remove_with :: "'k \<Rightarrow> ('v \<Rightarrow> bool) \<Rightarrow> 'q \<Rightarrow> 'v list \<times> 'q"
    and queue :: "'q \<Rightarrow> 'k \<Rightarrow> 'v list"
    and invar :: "'q \<Rightarrow> bool"
  assumes invar_empty: "invar empty"
    and queue_empty: "queue empty k = []"
    and invar_enqueue: "invar q \<Longrightarrow> invar (snd (enqueue k x q))"
    and queue_enqueue:
      "invar q \<Longrightarrow> queue (snd (enqueue k x q)) k' = (if k' = k then queue q k @ [x] else queue q k')"
    and enqueue_new: "invar q \<Longrightarrow> fst (enqueue k x q) = New \<longleftrightarrow> queue q k = []"
    and invar_remove_with: "invar q \<Longrightarrow> invar (snd (remove_with k P q))"
    and queue_remove_with:
      "invar q \<Longrightarrow> queue (snd (remove_with k P q)) k' =
         (if k' = k then filter (\<lambda>x. \<not> P x) (queue q k) else queue q k')"
    and removed_remove_with: "invar q \<Longrightarrow> fst (remove_with k P q) = filter P (queue q k)"
begin

fun enqueue_all :: "('k \<times> 'v) list \<Rightarrow> 'q \<Rightarrow> 'q" where
  "enqueue_all [] q = q"
| "enqueue_all ((k, x) # kxs) q = enqueue_all kxs (snd (enqueue k x q))"

lemma invar_enqueue_all: "invar q \<Longrightarrow> invar (enqueue_all kxs q)"
  by (induction kxs q rule: enqueue_all.induct) (auto simp: invar_enqueue)

lemma queue_enqueue_all:
  "invar q \<Longrightarrow> queue (enqueue_all kxs q) k = queue q k @ map snd (filter (\<lambda>kx. fst kx = k) kxs)"
  by (induction kxs q rule: enqueue_all.induct) (auto simp: invar_enqueue queue_enqueue)

lemma partition_preserves:
  assumes "invar q"
  shows "mset (fst (remove_with k P q)) + mset (queue (snd (remove_with k P q)) k) = mset (queue q k)"
  using assms by (simp add: queue_remove_with removed_remove_with)

lemma remove_all_then_new:
  assumes "invar q" and "\<forall>x\<in>set (queue q k). P x"
  shows "fst (enqueue k x (snd (remove_with k P q))) = New"
proof -
  have "invar (snd (remove_with k P q))" using assms(1) by (rule invar_remove_with)
  moreover have "queue (snd (remove_with k P q)) k = []"
    using assms by (simp add: queue_remove_with)
  ultimately show ?thesis by (simp add: enqueue_new)
qed

end

interpretation wq: keyed_queues wq_new wq_enqueue wq_remove_with wq_queue wq_invar
proof
  show "wq_invar wq_new" by (simp add: wq_invar_def wq_new_def)
  show "wq_queue wq_new k = []" for k by (simp add: wq_queue_def wq_new_def)
next
  fix q :: "('k, 'v) waiting_queues" and k k' :: 'k and x :: 'v
  assume inv: "wq_invar q"
  show "wq_invar (snd (wq_enqueue k x q))"
    using inv by (auto simp: wq_invar_def wq_enqueue_def split: option.splits)
  show "wq_queue (snd (wq_enqueue k x q)) k' =
      (if k' = k then wq_queue q k @ [x] else wq_queue q k')"
    by (auto simp: wq_queue_def wq_enqueue_def split: option.splits)
  show "fst (wq_enqueue k x q) = New \<longleftrightarrow> wq_queue q k = []"
    using inv by (auto simp: wq_queue_def wq_enqueue_def wq_invar_def split: option.splits)
next
  fix q :: "('k, 'v) waiting_queues" and k k' :: 'k and P :: "'v \<Rightarrow> bool"
  assume inv: "wq_invar q"
  show "wq_invar (snd (wq_remove_with k P q))"
    using inv by (auto simp: wq_invar_def wq_remove_with_def split: option.splits)
  show "wq_queue (snd (wq_remove_with k P q)) k' =
      (if k' = k then filter (\<lambda>x. \<not> P x) (wq_queue q k) else wq_queue q k')"
    by (auto simp: wq_queue_def wq_remove_with_def o_def split: option.splits)
  show "fst (wq_remove_with k P q) = filter P (wq_queue q k)"
    by (auto simp: wq_queue_def wq_remove_with_def split: option.splits)
qed

text \<open>[waiting_queues_partition]: Removing items from a queue by a predicate returns exactly the matching items in
  queue order, leaves exactly the others in queue order, touches no other key, keeps the invariant
  that no empty queue is stored, and when everything matched the key is free again: the next
  enqueue reports a new queue.\<close>

theorem waiting_queues_partition:
  fixes q :: "('k, 'v) waiting_queues"
  assumes "wq_invar q" and "wq_remove_with k P q = (removed, q')"
  shows "removed = filter P (wq_queue q k) \<and>
         wq_queue q' k = filter (\<lambda>x. \<not> P x) (wq_queue q k) \<and>
         (\<forall>k'. k' \<noteq> k \<longrightarrow> wq_queue q' k' = wq_queue q k') \<and>
         wq_count k q' + length removed = wq_count k q \<and>
         wq_invar q' \<and>
         (fst (wq_enqueue k x q') = New \<longleftrightarrow> (\<forall>y\<in>set (wq_queue q k). P y))"
proof -
  have q': "q' = snd (wq_remove_with k P q)" and rem: "removed = fst (wq_remove_with k P q)"
    using assms(2) by simp_all
  have inv': "wq_invar q'" unfolding q' using assms(1) by (rule wq.invar_remove_with)
  have cnt: "wq_count k p = length (wq_queue p k)" for p :: "('k, 'v) waiting_queues"
    by (simp add: wq_count_def wq_queue_def split: option.splits)
  have "fst (wq_enqueue k x q') = New \<longleftrightarrow> wq_queue q' k = []"
    using inv' by (rule wq.enqueue_new)
  then show ?thesis
    using inv' sum_length_filter_compl [of P "wq_queue q k"]
    unfolding q' rem
    by (simp add: wq.queue_remove_with [OF assms(1)] wq.removed_remove_with [OF assms(1)] cnt
        filter_empty_conv)
qed

definition sample_queues :: "(string, nat) waiting_queues" where
  "sample_queues = snd (wq_enqueue ''k'' 3 (snd (wq_enqueue ''k'' 2 (snd (wq_enqueue ''k'' 1 wq_new)))))"

theorem waiting_queues_partition_witness:
  "fst (wq_remove_with ''k'' odd sample_queues) = [1, 3] \<and>
   wq_queue (snd (wq_remove_with ''k'' odd sample_queues)) ''k'' = [2]"
proof -
  have inv: "wq_invar sample_queues"
    unfolding sample_queues_def by (intro wq.invar_enqueue wq.invar_empty)
  have q: "wq_queue sample_queues ''k'' = [1, 2, 3]"
    by (simp add: sample_queues_def wq_enqueue_def wq_new_def wq_queue_def)
  show ?thesis
    using waiting_queues_partition [OF inv prod.collapse [symmetric], of "''k''" odd] q by simp
qed

end
