(* ===== verification/Particle.thy ===== *)
theory Particle
  imports Prelude
begin

section \<open>Particles, deadlines, signatures and protocol messages\<close>

text \<open>
  The data that travels through the node: \<^verbatim>\<open>particle-protocol/src/particle.rs\<close> (the particle,
  its deadline, its signed bytes), \<^verbatim>\<open>particle-execution/src/particle_params.rs\<close>,
  \<^verbatim>\<open>aquamarine/src/deadline.rs\<close>, \<^verbatim>\<open>particle-protocol/src/contact.rs\<close> and the message types of
  \<^verbatim>\<open>particle-protocol/src/libp2p_protocol/message.rs\<close>.

  Cryptography and the base58 rendering of a peer id are third-party code: the record
  \<open>crypto\<close> holds the functions the code calls, and theorems name what they assume of them.
\<close>

subsection \<open>Data\<close>

record particle =
  pt_id :: string
  pt_init_peer_id :: peer_id
  pt_timestamp :: u64
  pt_ttl :: u32
  pt_script :: string
  pt_signature :: bytes
  pt_data :: bytes

record particle_params =
  pp_id :: string
  pp_init_peer_id :: peer_id
  pp_timestamp :: u64
  pp_ttl :: u32
  pp_script :: string
  pp_signature :: bytes

definition clone_from :: "particle \<Rightarrow> particle_params" where
  "clone_from p =
     \<lparr>pp_id = pt_id p, pp_init_peer_id = pt_init_peer_id p, pp_timestamp = pt_timestamp p,
      pp_ttl = pt_ttl p, pp_script = pt_script p, pp_signature = pt_signature p\<rparr>"

record contact =
  ct_peer_id :: peer_id
  ct_addresses :: "multiaddr list"

definition contact_new :: "peer_id \<Rightarrow> multiaddr list \<Rightarrow> contact" where
  "contact_new p as = \<lparr>ct_peer_id = p, ct_addresses = as\<rparr>"

subsection \<open>Deadlines\<close>

text \<open>\<^verbatim>\<open>aquamarine::Deadline\<close>: the check the plumber makes, on 64-bit milliseconds.\<close>

record deadline =
  dl_timestamp :: u64
  dl_ttl :: u32

definition deadline_from :: "particle \<Rightarrow> deadline" where
  "deadline_from p = \<lparr>dl_timestamp = pt_timestamp p, dl_ttl = pt_ttl p\<rparr>"

definition deadline_is_expired :: "deadline \<Rightarrow> u64 \<Rightarrow> bool" where
  "deadline_is_expired d now_ms =
     (case checked_add (dl_timestamp d) (ucast (dl_ttl d)) of
        Some ts \<Rightarrow> ts < now_ms
      | None \<Rightarrow> True)"

text \<open>\<^verbatim>\<open>Particle::deadline\<close>, \<^verbatim>\<open>is_expired\<close> and \<^verbatim>\<open>time_to_live\<close>: \<^verbatim>\<open>now_ms()\<close> is 128 bits wide.\<close>

definition particle_deadline :: "particle \<Rightarrow> u64 option" where
  "particle_deadline p = checked_add (pt_timestamp p) (ucast (pt_ttl p))"

definition particle_is_expired :: "128 word \<Rightarrow> particle \<Rightarrow> bool" where
  "particle_is_expired now_ms p =
     (case particle_deadline p of
        Some deadline \<Rightarrow> now_ms > ucast deadline
      | None \<Rightarrow> True)"

definition time_to_live :: "128 word \<Rightarrow> particle \<Rightarrow> duration" where
  "time_to_live now_ms p =
     (case Option.bind (particle_deadline p) (\<lambda>d. checked_sub d (ucast now_ms)) of
        Some ttl \<Rightarrow> unat ttl
      | None \<Rightarrow> 0)"

lemma unat_ucast_u32_u64 [simp]: "unat (ucast (w :: u32) :: u64) = unat w"
proof -
  have "unat w < 2 ^ 32" using unsigned_less [of w] by simp
  then have "unat w < 2 ^ 64" by simp
  then show ?thesis by (simp add: unsigned_ucast_eq take_bit_nat_eq_self)
qed

lemma deadline_is_expired_iff:
  "deadline_is_expired d now \<longleftrightarrow>
     2 ^ 64 \<le> unat (dl_timestamp d) + unat (dl_ttl d) \<or>
     unat (dl_timestamp d) + unat (dl_ttl d) < unat now"
proof (cases "checked_add (dl_timestamp d) (ucast (dl_ttl d))")
  case None
  then have "2 ^ 64 \<le> unat (dl_timestamp d) + unat (dl_ttl d)"
    by (simp add: checked_add_None_iff)
  with None show ?thesis by (simp only: deadline_is_expired_def option.case simp_thms)
next
  case (Some ts)
  then have eq: "unat ts = unat (dl_timestamp d) + unat (dl_ttl d)"
    by (simp add: checked_add_Some_iff)
  have "unat ts < 2 ^ 64" using unsigned_less [of ts] by simp
  with Some eq show ?thesis by (simp add: deadline_is_expired_def word_less_nat_alt)
qed

subsection \<open>Signed bytes\<close>

definition string_bytes :: "string \<Rightarrow> bytes" where
  "string_bytes s = map (\<lambda>c. word_of_nat (of_char c)) s"

definition le_bytes :: "nat \<Rightarrow> 'a::len word \<Rightarrow> bytes" where
  "le_bytes n w = map (\<lambda>i. ucast (drop_bit (8 * i) w)) [0..<n]"

record ('kp, 'pk, 'err) crypto =
  to_base58 :: "peer_id \<Rightarrow> string"
  kp_peer_id :: "'kp \<Rightarrow> peer_id"
  kp_sign :: "'kp \<Rightarrow> bytes \<Rightarrow> 'err + bytes"
  pk_decode :: "peer_id \<Rightarrow> 'err + 'pk"
  pk_verify :: "'pk \<Rightarrow> bytes \<Rightarrow> bytes \<Rightarrow> 'err + unit"

definition as_bytes :: "('kp, 'pk, 'err) crypto \<Rightarrow> particle \<Rightarrow> bytes" where
  "as_bytes C p =
     string_bytes (pt_id p) @ string_bytes (to_base58 C (pt_init_peer_id p)) @
     le_bytes 8 (pt_timestamp p) @ le_bytes 4 (pt_ttl p) @ string_bytes (pt_script p)"

datatype 'err particle_error =
    InvalidKeypair string string string
  | SigningFailed 'err string
  | DecodingError 'err string
  | SignatureVerificationFailed 'err string

definition particle_sign ::
    "('kp, 'pk, 'err) crypto \<Rightarrow> 'kp \<Rightarrow> particle \<Rightarrow> 'err particle_error + particle" where
  "particle_sign C kp p =
     (if pt_init_peer_id p \<noteq> kp_peer_id C kp
      then Inl (InvalidKeypair (pt_id p) (to_base58 C (pt_init_peer_id p))
                  (to_base58 C (kp_peer_id C kp)))
      else (case kp_sign C kp (as_bytes C p) of
              Inl e \<Rightarrow> Inl (SigningFailed e (pt_id p))
            | Inr s \<Rightarrow> Inr (p\<lparr>pt_signature := s\<rparr>)))"

definition particle_verify ::
    "('kp, 'pk, 'err) crypto \<Rightarrow> particle \<Rightarrow> 'err particle_error + unit" where
  "particle_verify C p =
     (case pk_decode C (pt_init_peer_id p) of
        Inl e \<Rightarrow> Inl (DecodingError e (pt_id p))
      | Inr pk \<Rightarrow>
          (case pk_verify C pk (as_bytes C p) (pt_signature p) of
             Inl e \<Rightarrow> Inl (SignatureVerificationFailed e (pt_id p))
           | Inr _ \<Rightarrow> Inr ()))"

lemma particle_sign_InrD:
  assumes "particle_sign C kp q = Inr p"
  shows "kp_peer_id C kp = pt_init_peer_id q" and "\<exists>s. kp_sign C kp (as_bytes C q) = Inr s \<and> p = q\<lparr>pt_signature := s\<rparr>"
  using assms by (auto simp: particle_sign_def split: if_splits sum.splits)

lemma of_char_byte_inj:
  "(word_of_nat (of_char c) :: u8) = word_of_nat (of_char d) \<longleftrightarrow> c = d"
proof
  assume "(word_of_nat (of_char c) :: u8) = word_of_nat (of_char d)"
  then have "unat (word_of_nat (of_char c) :: u8) = unat (word_of_nat (of_char d) :: u8)"
    by simp
  then have "(of_char c :: nat) = of_char d"
    by (simp add: unat_of_nat)
  then show "c = d" by simp
qed simp

lemma string_bytes_inj [simp]: "string_bytes s = string_bytes t \<longleftrightarrow> s = t"
  unfolding string_bytes_def
  by (rule inj_map_eq_map) (simp add: inj_def of_char_byte_inj)

lemma length_string_bytes [simp]: "length (string_bytes s) = length s"
  by (simp add: string_bytes_def)

lemma length_le_bytes [simp]: "length (le_bytes n w) = n"
  by (simp add: le_bytes_def)

lemma le_bytes_inj:
  fixes v w :: "'a::len word"
  assumes "LENGTH('a) = 8 * n"
  shows "le_bytes n v = le_bytes n w \<longleftrightarrow> v = w"
proof
  assume eq: "le_bytes n v = le_bytes n w"
  show "v = w"
  proof (rule bit_word_eqI)
    fix k assume k: "k < LENGTH('a)"
    let ?i = "k div 8" and ?j = "k mod 8"
    from k assms have i: "?i < n" by auto
    have at: "bit (le_bytes n u ! ?i) ?j = bit u k" for u :: "'a word"
      using i k by (simp add: le_bytes_def bit_ucast_iff bit_drop_bit_eq)
    show "bit v k = bit w k" using at [of v] at [of w] eq by simp
  qed
qed simp

lemma as_bytes_ignores_data [simp]:
  "as_bytes C (p\<lparr>pt_data := d\<rparr>) = as_bytes C p"
  "as_bytes C (p\<lparr>pt_signature := s\<rparr>) = as_bytes C p"
  by (simp_all add: as_bytes_def)

subsection \<open>Messages of the particle protocol\<close>

datatype send_status =
    SendOk | TimedOut duration string | ProtocolError string | NotConnected | ConnectionPoolDied

definition send_status_default :: send_status where
  "send_status_default = ConnectionPoolDied"

datatype completion_channel = Ignore | Oneshot outlet

fun channel_outlet :: "completion_channel \<Rightarrow> outlet option" where
  "channel_outlet Ignore = None"
| "channel_outlet (Oneshot out) = Some out"

datatype 'j handler_message =
    OutParticle particle completion_channel
  | InParticle particle
  | HandlerInboundUpgradeError 'j
  | HandlerUpgrade

datatype 'j protocol_message =
    ParticleMessage particle | InboundUpgradeError 'j | Upgrade

text \<open>\<open>None\<close> is the \<^verbatim>\<open>unreachable!\<close> panic on a message that is only ever received.\<close>

fun into_protocol_message ::
    "'j handler_message \<Rightarrow> ('j protocol_message \<times> outlet option) option" where
  "into_protocol_message (OutParticle p ch) = Some (ParticleMessage p, channel_outlet ch)"
| "into_protocol_message (HandlerInboundUpgradeError e) = Some (InboundUpgradeError e, None)"
| "into_protocol_message HandlerUpgrade = Some (Upgrade, None)"
| "into_protocol_message (InParticle _) = None"

fun from_protocol_message :: "'j protocol_message \<Rightarrow> 'j handler_message" where
  "from_protocol_message (ParticleMessage p) = InParticle p"
| "from_protocol_message (InboundUpgradeError e) = HandlerInboundUpgradeError e"
| "from_protocol_message Upgrade = HandlerUpgrade"

subsection \<open>Properties\<close>

lemma particle_is_expired_iff:
  "particle_is_expired now p \<longleftrightarrow>
     2 ^ 64 \<le> unat (pt_timestamp p) + unat (pt_ttl p) \<or>
     unat (pt_timestamp p) + unat (pt_ttl p) < unat now"
proof (cases "particle_deadline p")
  case None
  then have "2 ^ 64 \<le> unat (pt_timestamp p) + unat (pt_ttl p)"
    by (simp add: particle_deadline_def checked_add_None_iff)
  with None show ?thesis by (simp only: particle_is_expired_def option.case simp_thms)
next
  case (Some ts)
  then have eq: "unat ts = unat (pt_timestamp p) + unat (pt_ttl p)"
    by (simp add: particle_deadline_def checked_add_Some_iff)
  have lt: "unat ts < 2 ^ 64" using unsigned_less [of ts] by simp
  then have "unat ts < 2 ^ 128" by simp
  then have "unat (ucast ts :: 128 word) = unat ts"
    by (simp add: unsigned_ucast_eq take_bit_nat_eq_self)
  with Some eq lt show ?thesis by (simp add: particle_is_expired_def word_less_nat_alt)
qed

text \<open>C14 [expiry_checks_agree]: The plumber's 64-bit \<^verbatim>\<open>Deadline::is_expired\<close> and the dispatcher's
  128-bit \<^verbatim>\<open>Particle::is_expired\<close> give the same answer at every time that fits 64 bits, and that
  answer is the arithmetic one: the particle has expired when timestamp plus ttl is below the
  current time, or does not fit a \<^verbatim>\<open>u64\<close> at all (no wrap-around).\<close>

theorem expiry_checks_agree:
  assumes "unat (now :: 128 word) < 2 ^ 64"
  shows "deadline_is_expired (deadline_from p) (ucast now) = particle_is_expired now p \<and>
         (particle_is_expired now p \<longleftrightarrow>
           2 ^ 64 \<le> unat (pt_timestamp p) + unat (pt_ttl p) \<or>
           unat (pt_timestamp p) + unat (pt_ttl p) < unat now)"
proof -
  have "unat (ucast now :: u64) = unat now"
    using assms by (simp add: unsigned_ucast_eq take_bit_nat_eq_self)
  then show ?thesis
    by (simp add: deadline_is_expired_iff particle_is_expired_iff deadline_from_def)
qed

definition sample_particle :: "nat \<Rightarrow> nat \<Rightarrow> particle" where
  "sample_particle ts ttl =
     \<lparr>pt_id = ''p1'', pt_init_peer_id = 7, pt_timestamp = word_of_nat ts,
      pt_ttl = word_of_nat ttl, pt_script = ''null'', pt_signature = [], pt_data = []\<rparr>"

theorem expiry_checks_agree_witness:
  "deadline_is_expired (deadline_from (sample_particle 1000 50)) (ucast (1051 :: 128 word)) =
     particle_is_expired 1051 (sample_particle 1000 50) \<and>
   particle_is_expired 1051 (sample_particle 1000 50) \<and>
   \<not> particle_is_expired 1050 (sample_particle 1000 50)"
proof -
  have small: "unat (1051 :: 128 word) < 2 ^ 64" "unat (1050 :: 128 word) < 2 ^ 64" by simp_all
  show ?thesis
    using expiry_checks_agree [OF small(1), of "sample_particle 1000 50"]
      expiry_checks_agree [OF small(2), of "sample_particle 1000 50"]
    by (simp add: sample_particle_def)
qed

text \<open>[sign_then_verify]: A particle signed with a key pair verifies, and still verifies after its
  data has been replaced (the signature covers the immutable fields only), provided the key
  pair's peer id decodes to its public key and that key accepts what the key pair signed.\<close>

theorem sign_then_verify:
  assumes "pk_decode C (kp_peer_id C kp) = Inr pk"
    and "\<And>b s. kp_sign C kp b = Inr s \<Longrightarrow> pk_verify C pk b s = Inr ()"
    and "particle_sign C kp p = Inr p'"
  shows "particle_verify C (p'\<lparr>pt_data := d\<rparr>) = Inr ()"
proof -
  note init = particle_sign_InrD(1) [OF assms(3)]
  obtain s where s: "kp_sign C kp (as_bytes C p) = Inr s" and p': "p' = p\<lparr>pt_signature := s\<rparr>"
    using particle_sign_InrD(2) [OF assms(3)] by blast
  from assms(2) [OF s] show ?thesis
    using assms(1) init p' by (simp add: particle_verify_def as_bytes_def)
qed

text \<open>A concrete scheme: the key pair is its peer id, a signature is the id followed by the message.\<close>

definition sample_crypto :: "(nat, nat, string) crypto" where
  "sample_crypto =
     \<lparr>to_base58 = (\<lambda>p. ''Qm''),
      kp_peer_id = (\<lambda>k. k),
      kp_sign = (\<lambda>k b. Inr (word_of_nat k # b)),
      pk_decode = (\<lambda>p. Inr p),
      pk_verify = (\<lambda>k b s. if s = word_of_nat k # b then Inr () else Inl ''bad signature'')\<rparr>"

theorem sign_then_verify_witness:
  "\<exists>p'. particle_sign sample_crypto 7 (sample_particle 1000 50) = Inr p' \<and>
        particle_verify sample_crypto (p'\<lparr>pt_data := [1, 2]\<rparr>) = Inr () \<and>
        particle_verify sample_crypto (sample_particle 1000 50) \<noteq> Inr ()"
proof -
  let ?p = "sample_particle 1000 50"
  have dec: "pk_decode sample_crypto (kp_peer_id sample_crypto 7) = Inr 7"
    by (simp add: sample_crypto_def)
  have ok: "pk_verify sample_crypto 7 b s = Inr ()" if "kp_sign sample_crypto 7 b = Inr s" for b s
    using that by (simp add: sample_crypto_def)
  obtain p' where p': "particle_sign sample_crypto 7 ?p = Inr p'"
    by (simp add: particle_sign_def sample_crypto_def sample_particle_def)
  have "particle_verify sample_crypto ?p \<noteq> Inr ()"
    by (simp add: particle_verify_def sample_crypto_def sample_particle_def)
  with p' sign_then_verify [OF dec ok p', of "[1, 2]"] show ?thesis by blast
qed

text \<open>[signed_bytes_determine_fields]: Among particles of one initiator whose ids have the same
  length, the signed bytes determine every signed field: id, timestamp, ttl and script.\<close>

theorem signed_bytes_determine_fields:
  assumes "as_bytes C p = as_bytes C q"
    and "pt_init_peer_id p = pt_init_peer_id q"
    and "length (pt_id p) = length (pt_id q)"
  shows "pt_id p = pt_id q \<and> pt_timestamp p = pt_timestamp q \<and>
         pt_ttl p = pt_ttl q \<and> pt_script p = pt_script q"
  using assms by (simp add: as_bytes_def append_eq_append_conv le_bytes_inj)

theorem signed_bytes_determine_fields_witness:
  "as_bytes sample_crypto (sample_particle 1 2) \<noteq> as_bytes sample_crypto (sample_particle 1 3)"
proof
  assume eq: "as_bytes sample_crypto (sample_particle 1 2) = as_bytes sample_crypto (sample_particle 1 3)"
  have "pt_ttl (sample_particle 1 2) = pt_ttl (sample_particle 1 3)"
    using signed_bytes_determine_fields [OF eq] by (simp add: sample_particle_def)
  then show False by (simp add: sample_particle_def)
qed

definition byte_string :: "bytes \<Rightarrow> string" where
  "byte_string bs = map (\<lambda>b. char_of (unat b)) bs"

lemma string_bytes_byte_string [simp]: "string_bytes (byte_string bs) = bs"
proof -
  have "word_of_nat (of_char (char_of (unat b))) = b" for b :: u8
  proof -
    have "unat b < 2 ^ LENGTH(8)" by (rule unsigned_less)
    then show ?thesis by simp
  qed
  then show ?thesis by (simp add: string_bytes_def byte_string_def map_idI)
qed

lemma string_bytes_append [simp]: "string_bytes (s @ t) = string_bytes s @ string_bytes t"
  by (simp add: string_bytes_def)

text \<open>[signed_bytes_ambiguous]: The signed bytes carry no lengths, so they do not determine the
  particle: whatever the base58 rendering, every id and script extend to two particles of one
  initiator with different ids and scripts and the same signed bytes, so a signature of the
  first is a signature of the second.\<close>

theorem signed_bytes_ambiguous:
  "\<exists>p q. pt_init_peer_id p = peer \<and> pt_init_peer_id q = peer \<and>
         pt_signature p = sig \<and> pt_signature q = sig \<and>
         pt_id p = i \<and> pt_script q = s \<and> pt_id p \<noteq> pt_id q \<and> pt_script p \<noteq> pt_script q \<and>
         as_bytes C p = as_bytes C q \<and>
         (particle_verify C p = Inr () \<longleftrightarrow> particle_verify C q = Inr ())"
proof -
  let ?B = "to_base58 C peer"
  let ?pad = "?B @ byte_string (le_bytes 8 (0 :: u64)) @ byte_string (le_bytes 4 (0 :: u32))"
  let ?p = "\<lparr>pt_id = i, pt_init_peer_id = peer, pt_timestamp = 0, pt_ttl = 0,
             pt_script = ?pad @ s, pt_signature = sig, pt_data = []\<rparr> :: particle"
  let ?q = "\<lparr>pt_id = i @ ?pad, pt_init_peer_id = peer, pt_timestamp = 0, pt_ttl = 0,
             pt_script = s, pt_signature = sig, pt_data = []\<rparr> :: particle"
  have same: "as_bytes C ?p = as_bytes C ?q" by (simp add: as_bytes_def)
  then have ver: "particle_verify C ?p = Inr () \<longleftrightarrow> particle_verify C ?q = Inr ()"
    by (simp add: particle_verify_def split: sum.splits)
  have pad: "?pad \<noteq> []" by (simp add: byte_string_def le_bytes_def)
  show ?thesis
    by (rule exI [of _ ?p], rule exI [of _ ?q]) (use same ver pad in simp)
qed

text \<open>[outbound_message_roundtrip]: The message the protocol writes for an outgoing particle is read back by
  the receiver as exactly that incoming particle, and the sender's completion channel is the
  one that was queued; a handler message has no wire form only when it is an incoming particle.\<close>

theorem outbound_message_roundtrip:
  "map_option (from_protocol_message \<circ> fst) (into_protocol_message m) =
     (case m of
        OutParticle p ch \<Rightarrow> Some (InParticle p)
      | InParticle p \<Rightarrow> None
      | _ \<Rightarrow> Some m) \<and>
   Option.bind (into_protocol_message m) snd =
     (case m of OutParticle p (Oneshot out) \<Rightarrow> Some out | _ \<Rightarrow> None)"
  by (cases m) (auto split: completion_channel.splits)

end
