(* ===== verification/Call_Args.thy ===== *)
theory Call_Args
  imports Particle
begin

section \<open>JSON values, host-call arguments and outcomes\<close>

text \<open>
  \<^verbatim>\<open>crates/particle-args\<close> (\<^verbatim>\<open>Args\<close>, \<^verbatim>\<open>ArgsError\<close>, \<^verbatim>\<open>JError\<close>),
  \<^verbatim>\<open>particle-execution/src/function_outcome.rs\<close> and \<^verbatim>\<open>particle-builtins/src/{outcome,func}.rs\<close>.

  \<^item> A \<^verbatim>\<open>serde_json::Value\<close> is a datatype; an integral number is an integer, a floating one its bit
    pattern, an object an association list.
  \<^item> \<^verbatim>\<open>Deserialize\<close> for a type is a parameter, a partial function from JSON values.
  \<^item> An error created from a text is that text; an error converted from another error value is
    named by that error's constructor and its string fields (the rendered message is a function
    of these).
\<close>

datatype jvalue =
    JNull
  | JBool bool
  | JInt int
  | JFloat u64
  | JString string
  | JArray "jvalue list"
  | JObject "(string \<times> jvalue) list"

datatype jerror = JErrorText string | JErrorFrom string "string list"

record security_tetraplet =
  st_peer_pk :: string
  st_service_id :: string
  st_function_name :: string
  st_json_path :: string

record args =
  service_id :: string
  function_name :: string
  function_args :: "jvalue list"
  tetraplets :: "security_tetraplet list list"

datatype args_error =
    MissingField string
  | InvalidFormat string
  | NonUnaryOption string nat
  | DeserializeError string jvalue

fun args_jerror :: "args_error \<Rightarrow> jerror" where
  "args_jerror (MissingField f) = JErrorFrom ''MissingField'' [f]"
| "args_jerror (InvalidFormat f) = JErrorFrom ''InvalidFormat'' [f]"
| "args_jerror (NonUnaryOption f n) = JErrorFrom ''NonUnaryOption'' [f]"
| "args_jerror (DeserializeError f v) = JErrorFrom ''DeserializeError'' [f]"

subsection \<open>Reading arguments\<close>

definition args_deserialize ::
    "(jvalue \<Rightarrow> 'a option) \<Rightarrow> string \<Rightarrow> jvalue \<Rightarrow> args_error + 'a" where
  "args_deserialize de field v =
     (case de v of Some x \<Rightarrow> Inr x | None \<Rightarrow> Inl (DeserializeError field v))"

text \<open>The iterator is the list of remaining values; it advances also when the value is bad.\<close>

definition args_next ::
    "(jvalue \<Rightarrow> 'a option) \<Rightarrow> string \<Rightarrow> jvalue list \<Rightarrow> (args_error + 'a) \<times> jvalue list" where
  "args_next de field it =
     (case it of
        [] \<Rightarrow> (Inl (MissingField field), [])
      | v # rest \<Rightarrow> (args_deserialize de field v, rest))"

datatype 'a opt_value = OptArray "'a list" | OptScalar 'a | OptNone

fun de_vec :: "(jvalue \<Rightarrow> 'a option) \<Rightarrow> jvalue \<Rightarrow> 'a list option" where
  "de_vec de (JArray vs) = those (map de vs)"
| "de_vec de _ = None"

text \<open>An untagged enum takes the first variant that matches.\<close>

definition de_opt :: "(jvalue \<Rightarrow> 'a option) \<Rightarrow> jvalue \<Rightarrow> 'a opt_value option" where
  "de_opt de v =
     (case de_vec de v of
        Some xs \<Rightarrow> Some (OptArray xs)
      | None \<Rightarrow>
          (case de v of
             Some x \<Rightarrow> Some (OptScalar x)
           | None \<Rightarrow> if v = JNull then Some OptNone else None))"

definition args_next_opt ::
    "(jvalue \<Rightarrow> 'a option) \<Rightarrow> string \<Rightarrow> jvalue list \<Rightarrow>
     (args_error + 'a option) \<times> jvalue list" where
  "args_next_opt de field it =
     (case it of
        [] \<Rightarrow> (Inr None, [])
      | v # rest \<Rightarrow>
          ((case args_deserialize (de_opt de) field v of
              Inl e \<Rightarrow> Inl e
            | Inr (OptScalar x) \<Rightarrow> Inr (Some x)
            | Inr (OptArray xs) \<Rightarrow>
                if length xs > 1 then Inl (NonUnaryOption field (length xs))
                else Inr (case xs of [] \<Rightarrow> None | x # _ \<Rightarrow> Some x)
            | Inr OptNone \<Rightarrow> Inr None), rest))"

text \<open>Deserializers of the types the built-in functions read.\<close>

fun de_string :: "jvalue \<Rightarrow> string option" where
  "de_string (JString s) = Some s"
| "de_string _ = None"

fun de_i64 :: "jvalue \<Rightarrow> int option" where
  "de_i64 (JInt n) = (if - (2 ^ 63) \<le> n \<and> n < 2 ^ 63 then Some n else None)"
| "de_i64 _ = None"

fun de_u64 :: "jvalue \<Rightarrow> nat option" where
  "de_u64 (JInt n) = (if 0 \<le> n \<and> n < 2 ^ 64 then Some (nat n) else None)"
| "de_u64 _ = None"

fun de_u32 :: "jvalue \<Rightarrow> nat option" where
  "de_u32 (JInt n) = (if 0 \<le> n \<and> n < 2 ^ 32 then Some (nat n) else None)"
| "de_u32 _ = None"

fun de_bool :: "jvalue \<Rightarrow> bool option" where
  "de_bool (JBool b) = Some b"
| "de_bool _ = None"

fun de_map :: "jvalue \<Rightarrow> (string \<times> jvalue) list option" where
  "de_map (JObject kvs) = Some kvs"
| "de_map _ = None"

definition de_value :: "jvalue \<Rightarrow> jvalue option" where
  "de_value v = Some v"

lemma those_map_Some [simp]: "those (map Some xs) = Some xs"
  by (induction xs) auto

lemma those_Some_iff: "those xs = Some ys \<longleftrightarrow> xs = map Some ys"
  by (induction xs arbitrary: ys) (auto split: option.splits)

subsection \<open>Function outcomes\<close>

datatype function_outcome =
    NotDefined args particle_params
  | Empty
  | OutcomeOk jvalue
  | OutcomeErr jerror

fun is_defined :: "function_outcome \<Rightarrow> bool" where
  "is_defined (NotDefined _ _) = False"
| "is_defined _ = True"

fun not_err :: "function_outcome \<Rightarrow> bool" where
  "not_err (OutcomeErr _) = False"
| "not_err _ = True"

fun outcome_or_else ::
    "function_outcome \<Rightarrow> (args \<Rightarrow> particle_params \<Rightarrow> function_outcome) \<Rightarrow> function_outcome" where
  "outcome_or_else (NotDefined a p) f = f a p"
| "outcome_or_else out f = out"

fun outcome_from_output :: "jvalue option \<Rightarrow> function_outcome" where
  "outcome_from_output (Some v) = OutcomeOk v"
| "outcome_from_output None = Empty"

fun outcome_branch :: "function_outcome \<Rightarrow> jerror + jvalue option" where
  "outcome_branch (OutcomeErr e) = Inl e"
| "outcome_branch Empty = Inr None"
| "outcome_branch (NotDefined _ _) = Inr None"
| "outcome_branch (OutcomeOk v) = Inr (Some v)"

fun wrap :: "jerror + jvalue \<Rightarrow> function_outcome" where
  "wrap (Inr v) = OutcomeOk v"
| "wrap (Inl e) = OutcomeErr e"

fun wrap_unit :: "jerror + unit \<Rightarrow> function_outcome" where
  "wrap_unit (Inr _) = Empty"
| "wrap_unit (Inl e) = OutcomeErr e"

text \<open>\<^verbatim>\<open>?\<close> on the result of reading an argument: the error becomes a \<^verbatim>\<open>JError\<close>.\<close>

definition arg_then ::
    "(args_error + 'a) \<times> jvalue list \<Rightarrow> ('a \<Rightarrow> jvalue list \<Rightarrow> jerror + 'b) \<Rightarrow> jerror + 'b" where
  "arg_then r f = (case r of (Inl e, _) \<Rightarrow> Inl (args_jerror e) | (Inr x, it) \<Rightarrow> f x it)"

lemma arg_then_simps [simp]:
  "arg_then (Inl e, it) f = Inl (args_jerror e)"
  "arg_then (Inr x, it) f = f x it"
  by (simp_all add: arg_then_def)

definition unary ::
    "(jvalue \<Rightarrow> 'x option) \<Rightarrow> ('out \<Rightarrow> jvalue) \<Rightarrow> args \<Rightarrow> ('x \<Rightarrow> jerror + 'out) \<Rightarrow> function_outcome" where
  "unary de ser a f =
     (if length (function_args a) \<noteq> 1 then 
        OutcomeErr (JErrorText (''expected 1 arguments, got '' @ show_nat (length (function_args a))))
      else wrap (arg_then (args_next de ''x'' (function_args a))
             (\<lambda>x _. map_sum id ser (f x))))"

definition binary ::
    "(jvalue \<Rightarrow> 'x option) \<Rightarrow> (jvalue \<Rightarrow> 'y option) \<Rightarrow> ('out \<Rightarrow> jvalue) \<Rightarrow> args \<Rightarrow>
     ('x \<Rightarrow> 'y \<Rightarrow> jerror + 'out) \<Rightarrow> function_outcome" where
  "binary de1 de2 ser a f =
     (if length (function_args a) \<noteq> 2 then 
        OutcomeErr (JErrorText (''expected 2 arguments, got '' @ show_nat (length (function_args a))))
      else wrap (arg_then (args_next de1 ''x'' (function_args a)) (\<lambda>x it.
             arg_then (args_next de2 ''y'' it) (\<lambda>y _. map_sum id ser (f x y)))))"

subsection \<open>Properties\<close>

text \<open>[next_opt_reads_aqua_option]: For a type that no JSON array and no null deserializes to, reading an optional
  argument follows the documented table: an absent argument, an empty array and null are no
  value; a value and a one-element array are that value; an array of several values is an error.\<close>

theorem next_opt_reads_aqua_option:
  assumes "\<And>vs. de (JArray vs) = None" and "de JNull = None"
  shows "fst (args_next_opt de f []) = Inr None \<and>
         fst (args_next_opt de f (JNull # it)) = Inr None \<and>
         fst (args_next_opt de f (JArray [] # it)) = Inr None \<and>
         (\<forall>v x. de v = Some x \<longrightarrow>
            fst (args_next_opt de f (v # it)) = Inr (Some x) \<and>
            fst (args_next_opt de f (JArray [v] # it)) = Inr (Some x)) \<and>
         (\<forall>xs vs. those (map de vs) = Some xs \<and> 1 < length vs \<longrightarrow>
            fst (args_next_opt de f (JArray vs # it)) = Inl (NonUnaryOption f (length vs)))"
proof -
  have scalar: "de_vec de v = None" if "de v = Some x" for v x
    using that assms by (cases v) auto
  have len: "length xs = length vs" if "those (map de vs) = Some xs" for xs vs
    using that by (metis length_map those_Some_iff)
  show ?thesis
    using assms scalar len
    by (auto simp: args_next_opt_def args_deserialize_def de_opt_def)
qed

theorem next_opt_reads_aqua_option_witness:
  "fst (args_next_opt de_string ''s'' [JArray [JString ''hi'']]) = Inr (Some ''hi'') \<and>
   fst (args_next_opt de_string ''s'' [JArray [JString ''hi'', JString ''hi'']]) =
     Inl (NonUnaryOption ''s'' 2)"
proof -
  have "those (map de_string [JString ''hi'', JString ''hi'']) = Some [''hi'', ''hi'']" by simp
  then show ?thesis
    using next_opt_reads_aqua_option [of de_string "''s''" "[]"] by fastforce
qed

end
