(* ===== verification/Execution.thy ===== *)
theory Execution
  imports Call_Args
begin

section \<open>Executing a particle on a runtime\<close>

text \<open>
  \<^verbatim>\<open>aquamarine/src/{invoke,aqua_runtime,particle_executor,particle_effects}.rs\<close>: the call into the AIR
  interpreter and the translation of its outcome into effects. The interpreter (\<^verbatim>\<open>avm_server\<close>) and the
  parsing of peer ids (\<^verbatim>\<open>libp2p\<close>) are parameters. The time an interpretation takes and log messages
  are not modelled.
\<close>

subsection \<open>Data\<close>

record call_request_params =
  cr_service_id :: string
  cr_function_name :: string
  cr_arguments :: "jvalue list"
  cr_tetraplets :: "security_tetraplet list list"

record call_service_result =
  ret_code :: int
  call_result :: jvalue

type_synonym call_requests = "(u32 \<times> call_request_params) list"
type_synonym call_results = "(u32 \<times> call_service_result) list"

record avm_outcome =
  avm_data :: bytes
  avm_call_requests :: call_requests
  avm_next_peer_pks :: "string list"

record particle_parameters =
  pm_current_peer_id :: string
  pm_init_peer_id :: string
  pm_particle_id :: string
  pm_timestamp :: u64
  pm_ttl :: u32

record particle_effects =
  pe_particle :: particle
  pe_next_peers :: "peer_id list"
  pe_call_requests :: call_requests

definition particle_effects_empty :: "particle \<Rightarrow> particle_effects" where
  "particle_effects_empty p = \<lparr>pe_particle = p, pe_next_peers = [], pe_call_requests = []\<rparr>"

record routing_effects =
  re_particle :: particle
  re_next_peers :: "peer_id list"

record interpretation_stats =
  is_new_data_len :: "nat option"
  is_success :: bool

record ('rt, 'eff) fut_result =
  fr_vm :: 'rt
  fr_effects :: 'eff
  fr_stats :: interpretation_stats

subsection \<open>Parsing the interpreter's outcome\<close>

datatype field_error = InvalidPeerId string string

datatype 'e execution_error = InvalidResultField string field_error | AquamarineError 'e

definition parse_peer_id :: "(string \<Rightarrow> string + peer_id) \<Rightarrow> string \<Rightarrow> field_error + peer_id" where
  "parse_peer_id from_str s =
     (case from_str s of Inl err \<Rightarrow> Inl (InvalidPeerId s err) | Inr p \<Rightarrow> Inr p)"

definition parse_outcome ::
    "(string \<Rightarrow> string + peer_id) \<Rightarrow> 'e + avm_outcome \<Rightarrow>
     'e execution_error + bytes \<times> peer_id list \<times> call_requests" where
  "parse_outcome from_str outcome =
     (case outcome of
        Inl e \<Rightarrow> Inl (AquamarineError e)
      | Inr out \<Rightarrow>
          (case collect_results (map (\<lambda>i.
              (case parse_peer_id from_str i of
                 Inl error \<Rightarrow> Inl (InvalidResultField ''next_peer_pks[..]'' error)
               | Inr p \<Rightarrow> Inr p)) (avm_next_peer_pks out)) of
             Inl e \<Rightarrow> Inl e
           | Inr peer_ids \<Rightarrow> Inr (avm_data out, peer_ids, avm_call_requests out)))"

definition into_effects ::
    "(string \<Rightarrow> string + peer_id) \<Rightarrow> 'e + avm_outcome \<Rightarrow> particle \<Rightarrow> particle_effects" where
  "into_effects from_str outcome p =
     (case parse_outcome from_str outcome of
        Inr (data, peers, calls) \<Rightarrow>
          if peers \<noteq> [] \<or> calls \<noteq> []
          then \<lparr>pe_particle = p\<lparr>pt_data := data\<rparr>, pe_next_peers = peers, pe_call_requests = calls\<rparr>
          else particle_effects_empty (p\<lparr>pt_data := data\<rparr>)
      | Inl (AquamarineError err) \<Rightarrow> particle_effects_empty p
      | Inl (InvalidResultField _ _) \<Rightarrow> particle_effects_empty p)"

subsection \<open>The executor\<close>

text \<open>The runtime's \<^verbatim>\<open>call\<close>: script, data, parameters and call results to an outcome and the
  runtime after the call.\<close>

type_synonym ('rt, 'e) avm_call =
  "'rt \<Rightarrow> string \<Rightarrow> bytes \<Rightarrow> particle_parameters \<Rightarrow> call_results \<Rightarrow> ('e + avm_outcome) \<times> 'rt"

record ('rt, 'e) runtime_api =
  rt_call :: "('rt, 'e) avm_call"
  rt_cleanup :: "string \<Rightarrow> 'rt \<Rightarrow> 'rt"
  rt_peer_from_str :: "string \<Rightarrow> string + peer_id"
  rt_peer_to_string :: "peer_id \<Rightarrow> string"

definition execute_particle ::
    "('rt, 'e) runtime_api \<Rightarrow> 'rt \<Rightarrow> particle \<times> call_results \<Rightarrow> peer_id \<Rightarrow>
     ('rt, particle_effects) fut_result" where
  "execute_particle R vm pc current_peer_id =
     (let (p, calls) = pc;
          params = \<lparr>pm_current_peer_id = rt_peer_to_string R current_peer_id,
                    pm_init_peer_id = rt_peer_to_string R (pt_init_peer_id p),
                    pm_particle_id = pt_id p, pm_timestamp = pt_timestamp p, pm_ttl = pt_ttl p\<rparr>;
          (result, vm') = rt_call R vm (pt_script p) (pt_data p) params calls;
          stats = \<lparr>is_new_data_len = (case result of Inr out \<Rightarrow> Some (length (avm_data out)) | Inl _ \<Rightarrow> None),
                   is_success = (case result of Inr _ \<Rightarrow> True | Inl _ \<Rightarrow> False)\<rparr>
      in \<lparr>fr_vm = vm', fr_effects = into_effects (rt_peer_from_str R) result p, fr_stats = stats\<rparr>)"

subsection \<open>Properties\<close>

lemma map_parse_peer_id_Inr_iff:
  "map (\<lambda>i. case parse_peer_id fs i of Inl error \<Rightarrow> Inl (g error) | Inr p \<Rightarrow> Inr p) is = map Inr ps
     \<longleftrightarrow> map fs is = map Inr ps"
  by (induction "is" arbitrary: ps) (auto simp: parse_peer_id_def Cons_eq_map_conv split: sum.splits)

lemma parse_outcome_Inr_iff:
  "parse_outcome fs (Inr out) = Inr (data, peers, calls) \<longleftrightarrow>
     map fs (avm_next_peer_pks out) = map Inr peers \<and> data = avm_data out \<and> calls = avm_call_requests out"
proof -
  have "map fs is = map Inr ps \<longleftrightarrow>
      collect_results (map (\<lambda>i. case parse_peer_id fs i of
        Inl error \<Rightarrow> Inl (InvalidResultField ''next_peer_pks[..]'' error :: 'b execution_error)
      | Inr p \<Rightarrow> Inr p) is) = Inr ps" for "is" ps
    by (simp add: map_parse_peer_id_Inr_iff)
  then show ?thesis
    by (auto simp: parse_outcome_def simp del: collect_results_Inr_iff split: sum.splits)
qed

lemma into_effects_Inr:
  "into_effects fs (Inr out :: 'e + avm_outcome) p =
      (if \<exists>peers. map fs (avm_next_peer_pks out) = map Inr peers
       then \<lparr>pe_particle = p\<lparr>pt_data := avm_data out\<rparr>,
             pe_next_peers = map (projr \<circ> fs) (avm_next_peer_pks out),
             pe_call_requests = avm_call_requests out\<rparr>
       else particle_effects_empty p)"
proof (cases "\<exists>peers. map fs (avm_next_peer_pks out) = map Inr peers")
  case True
  then obtain peers where peers: "map fs (avm_next_peer_pks out) = map Inr peers" by blast
  then have parsed: "parse_outcome fs (Inr out :: 'e + avm_outcome) =
      Inr (avm_data out, peers, avm_call_requests out)"
    by (simp add: parse_outcome_Inr_iff)
  have "map (projr \<circ> fs) (avm_next_peer_pks out) = peers"
    using arg_cong [OF peers, of "map projr"] by (simp add: o_def)
  with True parsed show ?thesis by (simp add: into_effects_def particle_effects_empty_def)
next
  case False
  then have "parse_outcome fs (Inr out :: 'e + avm_outcome) \<noteq> Inr (d, ps, cs)" for d ps cs
    by (auto simp: parse_outcome_Inr_iff)
  then obtain e where "parse_outcome fs (Inr out :: 'e + avm_outcome) = Inl e"
    by (cases "parse_outcome fs (Inr out :: 'e + avm_outcome)") auto
  with False show ?thesis by (simp add: into_effects_def split: execution_error.splits)
qed

text \<open>[effects_of_execution]: Executing a particle yields next peers or call requests only when the interpreter
  succeeded and every one of its next-peer strings is a peer id, and then yields exactly those
  peers in order, exactly its call requests, and the particle with only its data replaced. In
  every other case there are no effects, so one malformed peer id also discards the
  call requests.\<close>

theorem effects_of_execution:
  assumes "rt_call R vm (pt_script p) (pt_data p)
             \<lparr>pm_current_peer_id = rt_peer_to_string R self,
              pm_init_peer_id = rt_peer_to_string R (pt_init_peer_id p),
              pm_particle_id = pt_id p, pm_timestamp = pt_timestamp p, pm_ttl = pt_ttl p\<rparr> calls
           = (result, vm')"
  shows "fr_vm (execute_particle R vm (p, calls) self) = vm' \<and>
         fr_effects (execute_particle R vm (p, calls) self) =
           (case result of
              Inl _ \<Rightarrow> particle_effects_empty p
            | Inr out \<Rightarrow>
                if \<exists>peers. map (rt_peer_from_str R) (avm_next_peer_pks out) = map Inr peers
                then \<lparr>pe_particle = p\<lparr>pt_data := avm_data out\<rparr>,
                      pe_next_peers = map (projr \<circ> rt_peer_from_str R) (avm_next_peer_pks out),
                      pe_call_requests = avm_call_requests out\<rparr>
                else particle_effects_empty p)"
proof -
  let ?fs = "rt_peer_from_str R"
  have eff: "fr_effects (execute_particle R vm (p, calls) self) = into_effects ?fs result p"
    and vm: "fr_vm (execute_particle R vm (p, calls) self) = vm'"
    using assms by (simp_all add: execute_particle_def)
  show ?thesis
    unfolding eff vm
    by (cases result) (simp_all add: into_effects_Inr, simp add: into_effects_def parse_outcome_def)
qed

definition sample_runtime :: "(nat, string) runtime_api" where
  "sample_runtime =
     \<lparr>rt_call = (\<lambda>vm script data params calls.
        (Inr \<lparr>avm_data = data @ [1], avm_call_requests = [], avm_next_peer_pks = [script]\<rparr>, Suc vm)),
      rt_cleanup = (\<lambda>_ vm. vm),
      rt_peer_from_str = (\<lambda>s. if s = ''null'' then Inr 9 else Inl ''invalid''),
      rt_peer_to_string = (\<lambda>_. ''peer'')\<rparr>"

theorem effects_of_execution_witness:
  "pe_next_peers (fr_effects (execute_particle sample_runtime 0 (sample_particle 1 2, []) 3)) = [9] \<and>
   fr_vm (execute_particle sample_runtime 0 (sample_particle 1 2, []) 3) = 1"
proof -
  let ?p = "sample_particle 1 2"
  have call: "rt_call sample_runtime 0 (pt_script ?p) (pt_data ?p)
      \<lparr>pm_current_peer_id = rt_peer_to_string sample_runtime 3,
       pm_init_peer_id = rt_peer_to_string sample_runtime (pt_init_peer_id ?p),
       pm_particle_id = pt_id ?p, pm_timestamp = pt_timestamp ?p, pm_ttl = pt_ttl ?p\<rparr> []
    = (Inr \<lparr>avm_data = [1], avm_call_requests = [], avm_next_peer_pks = [''null'']\<rparr>, 1)"
    by (simp add: sample_runtime_def sample_particle_def)
  have "map (rt_peer_from_str sample_runtime) [''null''] = map Inr [9]"
    by (simp add: sample_runtime_def)
  then have "\<exists>peers. map (rt_peer_from_str sample_runtime) [''null''] = map Inr peers" by blast
  then show ?thesis
    using effects_of_execution [OF call] by (simp add: sample_runtime_def)
qed

end
