(* ===== verification/Functions.thy ===== *)
theory Functions
  imports Execution
begin

section \<open>Host calls of one particle\<close>

text \<open>
  \<^verbatim>\<open>aquamarine/src/particle_functions.rs\<close>: \<^verbatim>\<open>Functions\<close> runs the host calls that an interpretation
  requested and collects their results for the next one.

  A spawned call is kept as data until it completes. The order in which calls complete, what the
  built-in functions answer at that time and how long the call took are decided by the
  environment: one poll is given a list of completions, each the position of a pending call, the
  behaviour of the built-ins during that call, and the elapsed time.
\<close>

type_synonym service_function = "args \<Rightarrow> particle_params \<Rightarrow> function_outcome"

datatype function_kind = Service | ParticleFunction | NotHappened

record single_call_stat =
  run_time :: "duration option"
  success :: bool
  kind :: function_kind

record single_call_result =
  sc_call_id :: u32
  sc_result :: call_service_result
  sc_stat :: single_call_stat

datatype function_call =
    ReadyCall single_call_result
  | SpawnedCall u32 args particle_params "service_function option"

record host_functions =
  fn_particle :: particle_params
  function_calls :: "function_call list"
  call_results :: call_results
  call_stats :: "single_call_stat list"
  particle_function :: "service_function option"

definition functions_new :: "particle_params \<Rightarrow> host_functions" where
  "functions_new p = \<lparr>fn_particle = p, function_calls = [], call_results = [], call_stats = [],
     particle_function = None\<rparr>"

definition args_try_from :: "call_request_params \<Rightarrow> args_error + args" where
  "args_try_from c = Inr \<lparr>service_id = cr_service_id c, function_name = cr_function_name c,
     function_args = cr_arguments c, tetraplets = cr_tetraplets c\<rparr>"

text \<open>The text of a converted error is rendered by its \<^verbatim>\<open>Display\<close>, which is a parameter.\<close>

type_synonym render = "string \<Rightarrow> string list \<Rightarrow> string"

fun jerror_value :: "render \<Rightarrow> jerror \<Rightarrow> jvalue" where
  "jerror_value render (JErrorText s) = JString s"
| "jerror_value render (JErrorFrom c fs) = JString (render c fs)"

text \<open>\<^verbatim>\<open>call\<close> up to the point where the blocking task is spawned.\<close>

definition functions_call :: "render \<Rightarrow> host_functions \<Rightarrow> u32 \<Rightarrow> call_request_params \<Rightarrow> function_call" where
  "functions_call render F call_id c =
     (case args_try_from c of
        Inl err \<Rightarrow> ReadyCall \<lparr>sc_call_id = call_id,
          sc_result = \<lparr>ret_code = 1,
            call_result = JString (''Failed to deserialize CallRequestParams to Args: '' @
              (case args_jerror err of JErrorText s \<Rightarrow> s | JErrorFrom k fs \<Rightarrow> render k fs))\<rparr>,
          sc_stat = \<lparr>run_time = None, success = False, kind = NotHappened\<rparr>\<rparr>
      | Inr a \<Rightarrow> SpawnedCall call_id a (fn_particle F) (particle_function F))"

text \<open>The blocking task: built-ins first, the particle's own function if they are not defined.\<close>

definition run_call ::
    "service_function \<Rightarrow> args \<Rightarrow> particle_params \<Rightarrow> service_function option \<Rightarrow>
     function_outcome \<times> function_kind" where
  "run_call builtins a params pf =
     (let outcome = builtins a params in
      case pf of
        None \<Rightarrow> (outcome, Service)
      | Some func \<Rightarrow>
          (case outcome of
             NotDefined a' params' \<Rightarrow> (func a' params', ParticleFunction)
           | _ \<Rightarrow> (outcome, Service)))"

fun outcome_result :: "function_outcome \<Rightarrow> jerror + jvalue" where
  "outcome_result (NotDefined a _) = Inl (JErrorText (''Service with id '' @ [CHR 0x27] @ service_id a @
     [CHR 0x27] @ '' not found (function '' @ function_name a @ '')''))"
| "outcome_result Empty = Inr (JString '''')"
| "outcome_result (OutcomeOk v) = Inr v"
| "outcome_result (OutcomeErr e) = Inl e"

fun complete_call ::
    "render \<Rightarrow> service_function \<Rightarrow> duration \<Rightarrow> function_call \<Rightarrow> single_call_result" where
  "complete_call render builtins elapsed (ReadyCall r) = r"
| "complete_call render builtins elapsed (SpawnedCall call_id a params pf) =
     (let (outcome, call_kind) = run_call builtins a params pf;
          result = outcome_result outcome
      in \<lparr>sc_call_id = call_id,
          sc_result = (case result of
              Inr v \<Rightarrow> \<lparr>ret_code = 0, call_result = v\<rparr>
            | Inl err \<Rightarrow> \<lparr>ret_code = 1, call_result = jerror_value render err\<rparr>),
          sc_stat = \<lparr>run_time = Some elapsed,
            success = (case result of Inr _ \<Rightarrow> True | Inl _ \<Rightarrow> False), kind = call_kind\<rparr>\<rparr>)"

type_synonym completion = "nat \<times> service_function \<times> duration"

text \<open>\<^verbatim>\<open>poll\<close>: the loop over the completed futures. A completion of a position that holds no
  pending call is no completion.\<close>

fun functions_poll :: "render \<Rightarrow> completion list \<Rightarrow> host_functions \<Rightarrow> host_functions" where
  "functions_poll render [] F = F"
| "functions_poll render ((i, builtins, elapsed) # completed) F =
     (if i < length (function_calls F) then
        (let r = complete_call render builtins elapsed (function_calls F ! i)
         in functions_poll render completed
              (F\<lparr>function_calls := remove_nth i (function_calls F),
                 call_results := AList.update (sc_call_id r) (sc_result r) (call_results F),
                 call_stats := call_stats F @ [sc_stat r]\<rparr>))
      else functions_poll render completed F)"

definition functions_execute :: "render \<Rightarrow> call_requests \<Rightarrow> host_functions \<Rightarrow> host_functions" where
  "functions_execute render requests F =
     F\<lparr>function_calls := function_calls F @ map (\<lambda>(id, c). functions_call render F id c) requests\<rparr>"

definition functions_drain :: "host_functions \<Rightarrow> (call_results \<times> single_call_stat list) \<times> host_functions" where
  "functions_drain F = ((call_results F, call_stats F), F\<lparr>call_results := [], call_stats := []\<rparr>)"

definition functions_set_function :: "service_function \<Rightarrow> host_functions \<Rightarrow> host_functions" where
  "functions_set_function f F = F\<lparr>particle_function := Some f\<rparr>"

subsection \<open>Every requested call is answered exactly once\<close>

fun fc_call_id :: "function_call \<Rightarrow> u32" where
  "fc_call_id (ReadyCall r) = sc_call_id r"
| "fc_call_id (SpawnedCall i _ _ _) = i"

definition outstanding :: "host_functions \<Rightarrow> u32 multiset" where
  "outstanding F = mset (map fc_call_id (function_calls F)) + mset (map fst (call_results F))"

definition functions_wf :: "host_functions \<Rightarrow> bool" where
  "functions_wf F \<longleftrightarrow> distinct (map fc_call_id (function_calls F) @ map fst (call_results F)) \<and>
     length (call_stats F) = length (call_results F)"

lemma sc_call_id_complete [simp]: "sc_call_id (complete_call render b t c) = fc_call_id c"
  by (cases c) (auto simp: Let_def split: prod.splits)

lemma fc_call_id_functions_call [simp]: "fc_call_id (functions_call render F i c) = i"
  by (simp add: functions_call_def args_try_from_def)

lemma map_fc_call_id_requests:
  "map fc_call_id (map (\<lambda>(i, c). functions_call render F i c) reqs) = map fst reqs"
  by (induction reqs) auto

lemma update_fresh: "k \<notin> fst ` set xs \<Longrightarrow> AList.update k v xs = xs @ [(k, v)]"
  by (induction xs) auto

lemma functions_wf_new [simp]: "functions_wf (functions_new p)"
  by (simp add: functions_wf_def functions_new_def)

lemma functions_poll_step:
  fixes v :: call_service_result and s :: single_call_stat
  assumes "functions_wf F" and "i < length (function_calls F)"
    and "fc_call_id (function_calls F ! i) = k"
    and F'_def: "F' = F\<lparr>function_calls := remove_nth i (function_calls F),
      call_results := AList.update k v (call_results F), call_stats := call_stats F @ [s]\<rparr>"
  shows "functions_wf F'" and "outstanding F' = outstanding F"
    and "map_of (call_results F) k = None"
    and "map_of (call_results F') = (map_of (call_results F))(k \<mapsto> v)"
proof -
  have ms: "mset (map fc_call_id (function_calls F)) =
      add_mset k (mset (map fc_call_id (remove_nth i (function_calls F))))"
    using mset_remove_nth [OF assms(2)] assms(3) by (metis image_mset_add_mset mset_map)
  have "k \<in> set (map fc_call_id (function_calls F))" using assms(2,3) by (metis length_map nth_map nth_mem)
  then have fresh: "k \<notin> fst ` set (call_results F)" using assms(1) by (auto simp: functions_wf_def)
  have eq: "mset (map fc_call_id (function_calls F) @ map fst (call_results F)) =
      mset (map fc_call_id (function_calls F') @ map fst (call_results F'))"
    using ms by (simp add: F'_def update_fresh [OF fresh])
  from mset_eq_imp_distinct_iff [OF eq] show "functions_wf F'"
    using assms(1) by (simp add: functions_wf_def F'_def update_fresh [OF fresh])
  show "outstanding F' = outstanding F" using eq by (simp add: outstanding_def)
  show "map_of (call_results F) k = None" using fresh by (simp add: map_of_eq_None_iff)
  show "map_of (call_results F') = (map_of (call_results F))(k \<mapsto> v)"
    by (simp add: F'_def)
qed

lemma functions_poll_wf:
  "functions_wf F \<Longrightarrow> functions_wf (functions_poll render completed F) \<and>
     outstanding (functions_poll render completed F) = outstanding F \<and>
     map_of (call_results F) \<subseteq>\<^sub>m map_of (call_results (functions_poll render completed F))"
proof (induction render completed F rule: functions_poll.induct)
  case (2 render i builtins elapsed completed F)
  show ?case
  proof (cases "i < length (function_calls F)")
    case True
    let ?c = "function_calls F ! i"
    let ?r = "complete_call render builtins elapsed ?c"
    let ?F = "F\<lparr>function_calls := remove_nth i (function_calls F),
                 call_results := AList.update (sc_call_id ?r) (sc_result ?r) (call_results F),
                 call_stats := call_stats F @ [sc_stat ?r]\<rparr>"
    note step = functions_poll_step [where v = "sc_result ?r" and s = "sc_stat ?r",
        OF "2.prems" True sc_call_id_complete [symmetric] refl]
    have "functions_wf ?F" by (rule step)
    note IH = "2.IH"(1) [OF True refl this]
    have "map_of (call_results F) \<subseteq>\<^sub>m map_of (call_results ?F)"
      unfolding step(4) using step(3) by (auto simp: map_le_def)
    with IH have "map_of (call_results F) \<subseteq>\<^sub>m map_of (call_results (functions_poll render completed ?F))"
      using map_le_trans by blast
    with IH step(2) show ?thesis using True by (simp add: Let_def)
  next
    case False
    with "2.IH"(2) "2.prems" show ?thesis by simp
  qed
qed auto

lemma functions_execute_wf:
  assumes "functions_wf F" and "distinct (map fst reqs)"
    and "set (map fst reqs) \<inter> set_mset (outstanding F) = {}"
  shows "functions_wf (functions_execute render reqs F)"
    and "outstanding (functions_execute render reqs F) = outstanding F + mset (map fst reqs)"
  using assms unfolding functions_wf_def functions_execute_def outstanding_def
  by (auto simp: map_fc_call_id_requests simp del: map_map)

lemma functions_drain_wf:
  "functions_wf F \<Longrightarrow> functions_wf (snd (functions_drain F))"
  "functions_wf F \<Longrightarrow> call_results F = [] \<longleftrightarrow> call_stats F = []"
  by (auto simp: functions_wf_def functions_drain_def)

subsection \<open>Properties\<close>

text \<open>A history of the operations the actor performs on its host calls; the results it drained are
  returned together with the final state.\<close>

datatype functions_op = PollOp "completion list" | ExecuteOp call_requests | DrainOp

fun functions_run :: "render \<Rightarrow> functions_op list \<Rightarrow> host_functions \<Rightarrow> call_results \<times> host_functions" where
  "functions_run render [] F = ([], F)"
| "functions_run render (PollOp completed # ops) F = functions_run render ops (functions_poll render completed F)"
| "functions_run render (ExecuteOp reqs # ops) F = functions_run render ops (functions_execute render reqs F)"
| "functions_run render (DrainOp # ops) F =
     (fst (fst (functions_drain F)) @ fst (functions_run render ops (snd (functions_drain F))),
      snd (functions_run render ops (snd (functions_drain F))))"

fun requested :: "functions_op list \<Rightarrow> u32 list" where
  "requested [] = []"
| "requested (ExecuteOp reqs # ops) = map fst reqs @ requested ops"
| "requested (_ # ops) = requested ops"

lemma functions_run_conserves:
  "functions_wf F \<Longrightarrow> distinct (requested ops) \<Longrightarrow> set (requested ops) \<inter> set_mset (outstanding F) = {} \<Longrightarrow>
   mset (map fst (fst (functions_run render ops F))) + outstanding (snd (functions_run render ops F)) =
     outstanding F + mset (requested ops) \<and> functions_wf (snd (functions_run render ops F))"
proof (induction render ops F rule: functions_run.induct)
  case (2 render completed ops F)
  with functions_poll_wf [OF "2.prems"(1), of render completed] show ?case by simp
next
  case (3 render reqs ops F)
  let ?F = "functions_execute render reqs F"
  have "functions_wf ?F" "outstanding ?F = outstanding F + mset (map fst reqs)"
    using functions_execute_wf [OF "3.prems"(1), of reqs render] "3.prems"(2,3)
    by (simp_all add: Int_Un_distrib2)
  moreover have "set (requested ops) \<inter> set_mset (outstanding F + mset (map fst reqs)) = {}"
    using "3.prems" by auto
  ultimately show ?case using "3.IH" "3.prems"(2) by simp
next
  case (4 render ops F)
  let ?F = "snd (functions_drain F)"
  have out: "outstanding F = mset (map fst (call_results F)) + outstanding ?F"
    by (simp add: outstanding_def functions_drain_def)
  have "set (requested ops) \<inter> set_mset (outstanding ?F) = {}" using "4.prems"(3) out by auto
  moreover have "functions_wf ?F" using "4.prems"(1) by (rule functions_drain_wf)
  ultimately show ?case
    using "4.IH" "4.prems"(2) out by (simp add: functions_drain_def)
qed simp_all

text \<open>C3 [host_calls_answered_once]: Whatever order host calls complete in and whenever their results are drained, as long as
  the interpreter never reuses a call id, every result drained belongs to a requested call, no call
  is answered twice, no result is overwritten, and every requested call is either answered or
  still held (pending or waiting to be drained).\<close>

theorem host_calls_answered_once:
  assumes "distinct (requested ops)"
    and "functions_run render ops (functions_new params) = (drained, F)"
  shows "mset (map fst drained) + outstanding F = mset (requested ops) \<and>
         distinct (map fst drained) \<and> functions_wf F"
proof -
  have "outstanding (functions_new params) = {#}" by (simp add: outstanding_def functions_new_def)
  with functions_run_conserves [of "functions_new params" ops render] assms
  have eq: "mset (map fst drained) + outstanding F = mset (requested ops)" and wf: "functions_wf F"
    by auto
  then have "distinct (map fst drained)" using distinct_of_mset_plus assms(1) by blast
  with eq wf show ?thesis by blast
qed

definition noop_request :: call_request_params where
  "noop_request = \<lparr>cr_service_id = ''op'', cr_function_name = ''noop'', cr_arguments = [], cr_tetraplets = []\<rparr>"

definition noop_builtins :: service_function where
  "noop_builtins a params = (if service_id a = ''op'' then Empty else NotDefined a params)"

definition sample_render :: render where
  "sample_render c fs = c @ concat fs"

definition sample_ops :: "functions_op list" where
  "sample_ops = [ExecuteOp [(1, noop_request), (2, noop_request)], PollOp [(1, noop_builtins, 5)], DrainOp,
     PollOp [(0, noop_builtins, 5)]]"

theorem host_calls_answered_once_witness:
  "mset (map fst (fst (functions_run sample_render sample_ops
      (functions_new (clone_from (sample_particle 10 20)))))) +
     outstanding (snd (functions_run sample_render sample_ops
      (functions_new (clone_from (sample_particle 10 20))))) = {#1, 2#} \<and>
   map fst (fst (functions_run sample_render sample_ops (functions_new (clone_from (sample_particle 10 20))))) = [2]"
proof -
  have req: "requested sample_ops = [1, 2]" by (simp add: sample_ops_def)
  then have "distinct (requested sample_ops)" by simp
  note once = host_calls_answered_once [OF this prod.collapse [symmetric], of sample_render
      "clone_from (sample_particle 10 20)"]
  have "map fst (fst (functions_run sample_render sample_ops
      (functions_new (clone_from (sample_particle 10 20))))) = [2]"
    by (simp add: sample_ops_def functions_execute_def functions_drain_def functions_new_def
        functions_call_def args_try_from_def remove_nth_def Let_def split: prod.splits)
  with once req show ?thesis by simp
qed

text \<open>[builtins_take_precedence]: A host call that the built-ins define is answered by them alone, whatever function the
  particle carries; only an undefined one is handed, with the arguments the built-ins returned, to
  the particle's function, and with no such function it is an error. The return code is 0 exactly
  when the call is recorded as successful.\<close>

theorem builtins_take_precedence:
  "let r = complete_call render builtins t (SpawnedCall i a params pf) in
   sc_call_id r = i \<and>
   (ret_code (sc_result r) = 0 \<longleftrightarrow> success (sc_stat r)) \<and>
   (is_defined (builtins a params) \<longrightarrow>
      r = complete_call render builtins t (SpawnedCall i a params None) \<and> kind (sc_stat r) = Service \<and>
      (success (sc_stat r) \<longleftrightarrow> not_err (builtins a params))) \<and>
   (\<forall>a' params'. builtins a params = NotDefined a' params' \<longrightarrow>
      (case pf of
         None \<Rightarrow> ret_code (sc_result r) = 1
       | Some f \<Rightarrow> kind (sc_stat r) = ParticleFunction \<and>
           sc_result r = sc_result (complete_call render f t (SpawnedCall i a' params' None))))"
  by (cases "builtins a params"; cases pf)
     (auto simp: run_call_def Let_def split: sum.splits)

definition shout :: service_function where
  "shout a params = OutcomeOk (JString (function_name a))"

definition greet_args :: args where
  "greet_args = \<lparr>service_id = ''mine'', function_name = ''hey'', function_args = [], tetraplets = []\<rparr>"

theorem builtins_take_precedence_witness:
  "kind (sc_stat (complete_call sample_render noop_builtins 3
      (SpawnedCall 7 greet_args (clone_from (sample_particle 10 20)) (Some shout)))) = ParticleFunction"
  using builtins_take_precedence [of sample_render noop_builtins 3 7 greet_args
      "clone_from (sample_particle 10 20)" "Some shout"]
  by (simp add: noop_builtins_def greet_args_def Let_def)

end
