(* ===== verification/Actor.thy ===== *)
theory Actor
  imports Functions
begin

section \<open>The actor of one particle\<close>

text \<open>
  \<^verbatim>\<open>aquamarine/src/actor.rs\<close>. An actor owns the mailbox, the host calls and at most one running
  interpretation of one particle in one security scope. The future of a running interpretation
  is the data it was started with: the runtime, its id, the particle, the call results and the
  scope; when the environment says it is ready it yields \<^const>\<open>execute_particle\<close> of these.
\<close>

record 'rt interpretation_task =
  it_vm_id :: nat
  it_vm :: 'rt
  it_particle :: particle
  it_calls :: call_results
  it_peer_id :: peer_id

record 'rt actor =
  ac_deadline :: deadline
  ac_future :: "'rt interpretation_task option"
  ac_mailbox :: "particle list"
  ac_functions :: host_functions
  ac_particle :: particle
  ac_current_peer_id :: peer_id

definition actor_new :: "particle \<Rightarrow> host_functions \<Rightarrow> peer_id \<Rightarrow> 'rt actor" where
  "actor_new p F current_peer_id =
     \<lparr>ac_deadline = deadline_from p, ac_future = None, ac_mailbox = [], ac_functions = F,
      ac_particle = p\<lparr>pt_data := []\<rparr>, ac_current_peer_id = current_peer_id\<rparr>"

definition actor_is_expired :: "u64 \<Rightarrow> 'rt actor \<Rightarrow> bool" where
  "actor_is_expired now_ms a = deadline_is_expired (ac_deadline a) now_ms"

definition is_executing :: "'rt actor \<Rightarrow> bool" where
  "is_executing a \<longleftrightarrow> ac_future a \<noteq> None"

definition actor_cleanup :: "('rt, 'e) runtime_api \<Rightarrow> string \<Rightarrow> 'rt \<Rightarrow> 'rt" where
  "actor_cleanup R particle_id vm = rt_cleanup R particle_id vm"

definition mailbox_size :: "'rt actor \<Rightarrow> nat" where
  "mailbox_size a = length (ac_mailbox a)"

definition actor_set_function :: "service_function \<Rightarrow> 'rt actor \<Rightarrow> 'rt actor" where
  "actor_set_function f a = a\<lparr>ac_functions := functions_set_function f (ac_functions a)\<rparr>"

definition actor_ingest :: "particle \<Rightarrow> 'rt actor \<Rightarrow> 'rt actor" where
  "actor_ingest p a = a\<lparr>ac_mailbox := ac_mailbox a @ [p]\<rparr>"

definition poll_completed ::
    "('rt, 'e) runtime_api \<Rightarrow> render \<Rightarrow> completion list \<Rightarrow> bool \<Rightarrow> 'rt actor \<Rightarrow>
     (nat \<times> 'rt, routing_effects) fut_result option \<times> 'rt actor" where
  "poll_completed R render completed vm_ready a =
     (let F = functions_poll render completed (ac_functions a) in
      case ac_future a of
        Some t \<Rightarrow>
          if vm_ready then
            (let r = execute_particle R (it_vm t) (it_particle t, it_calls t) (it_peer_id t);
                 eff = fr_effects r
             in (Some \<lparr>fr_vm = (it_vm_id t, fr_vm r),
                       fr_effects = \<lparr>re_particle = pe_particle eff, re_next_peers = pe_next_peers eff\<rparr>,
                       fr_stats = fr_stats r\<rparr>,
                 a\<lparr>ac_future := None,
                   ac_functions := functions_execute render (pe_call_requests eff) F\<rparr>))
          else (None, a\<lparr>ac_functions := F\<rparr>)
      | None \<Rightarrow> (None, a\<lparr>ac_functions := F\<rparr>))"

datatype 'rt actor_poll = Executing "single_call_stat list" | Vm nat 'rt

definition poll_next ::
    "render \<Rightarrow> completion list \<Rightarrow> nat \<Rightarrow> 'rt \<Rightarrow> 'rt actor \<Rightarrow> 'rt actor_poll \<times> 'rt actor" where
  "poll_next render completed vm_id vm a =
     (let F = functions_poll render completed (ac_functions a); a1 = a\<lparr>ac_functions := F\<rparr> in
      if is_executing a1 then (Vm vm_id vm, a1)
      else
        (let ((calls, stats), F') = functions_drain F; a2 = a1\<lparr>ac_functions := F'\<rparr> in
         case ac_mailbox a2 of
           [] \<Rightarrow>
             if calls = [] then (Vm vm_id vm, a2)
             else (Executing stats,
                   a2\<lparr>ac_future := Some \<lparr>it_vm_id = vm_id, it_vm = vm, it_particle = ac_particle a2,
                        it_calls = calls, it_peer_id = ac_current_peer_id a2\<rparr>\<rparr>)
         | p # rest \<Rightarrow>
             (Executing stats,
              a2\<lparr>ac_mailbox := rest,
                 ac_future := Some \<lparr>it_vm_id = vm_id, it_vm = vm, it_particle = p,
                        it_calls = calls, it_peer_id = ac_current_peer_id a2\<rparr>\<rparr>)))"

subsection \<open>The runtime an actor holds\<close>

definition actor_vm_ids :: "'rt actor \<Rightarrow> nat list" where
  "actor_vm_ids a = (case ac_future a of None \<Rightarrow> [] | Some t \<Rightarrow> [it_vm_id t])"

lemma is_executing_iff: "is_executing a \<longleftrightarrow> actor_vm_ids a \<noteq> []"
  by (simp add: is_executing_def actor_vm_ids_def split: option.splits)

lemma poll_completed_None:
  assumes "poll_completed R render completed rdy a = (None, a')"
  shows "actor_vm_ids a' = actor_vm_ids a" and "ac_mailbox a' = ac_mailbox a"
    and "ac_deadline a' = ac_deadline a"
  using assms by (auto simp: poll_completed_def actor_vm_ids_def Let_def split: option.splits if_splits)

lemma poll_completed_Some:
  assumes "poll_completed R render completed rdy a = (Some r, a')"
  shows "actor_vm_ids a = [fst (fr_vm r)]" and "actor_vm_ids a' = []"
    and "ac_mailbox a' = ac_mailbox a" and "ac_deadline a' = ac_deadline a"
  using assms by (auto simp: poll_completed_def actor_vm_ids_def Let_def split: option.splits if_splits)

lemma poll_next_Vm:
  assumes "poll_next render completed i vm a = (Vm j w, a')"
  shows "j = i" and "w = vm" and "actor_vm_ids a' = actor_vm_ids a"
    and "ac_mailbox a' = ac_mailbox a" and "ac_deadline a' = ac_deadline a"
  using assms
  by (auto simp: poll_next_def actor_vm_ids_def functions_drain_def Let_def
      split: list.splits if_splits)

lemma poll_next_Executing:
  assumes "poll_next render completed i vm a = (Executing st, a')"
  shows "actor_vm_ids a = []" and "actor_vm_ids a' = [i]" and "ac_deadline a' = ac_deadline a"
  using assms
  by (auto simp: poll_next_def actor_vm_ids_def is_executing_def functions_drain_def Let_def
      split: list.splits if_splits)

subsection \<open>Properties\<close>

text \<open>[actor_execution_cycle]: An idle actor given a runtime starts an interpretation exactly when a particle waits in
  its mailbox or a host call has been answered. It takes the oldest particle of the mailbox, or, with
  an empty mailbox, its memoized particle with empty data; it hands over all results gathered
  so far, keeps none, and runs in its own security scope. Otherwise, and always while an
  interpretation is running, it returns the runtime unused and loses no particle.\<close>

theorem actor_execution_cycle:
  assumes "poll_next render completed i vm a = (out, a')"
  shows "let F = functions_poll render completed (ac_functions a) in
         if is_executing a then out = Vm i vm \<and> a' = a\<lparr>ac_functions := F\<rparr>
         else if ac_mailbox a = [] \<and> call_results F = [] then out = Vm i vm \<and> ac_mailbox a' = [] \<and> ac_future a' = None
         else out = Executing (call_stats F) \<and>
              ac_future a' = Some \<lparr>it_vm_id = i, it_vm = vm,
                it_particle = (case ac_mailbox a of [] \<Rightarrow> ac_particle a | p # _ \<Rightarrow> p),
                it_calls = call_results F, it_peer_id = ac_current_peer_id a\<rparr> \<and>
              ac_mailbox a' = tl (ac_mailbox a) \<and> call_results (ac_functions a') = []"
  using assms
  by (auto simp: poll_next_def is_executing_def functions_drain_def Let_def
      split: list.splits if_splits)

definition sample_actor :: "nat actor" where
  "sample_actor = actor_ingest (sample_particle 10 20)
     (actor_new (sample_particle 10 20) (functions_new (clone_from (sample_particle 10 20))) 3)"

theorem actor_execution_cycle_witness:
  "ac_mailbox (snd (poll_next sample_render [] 0 77 sample_actor)) = [] \<and>
   map_option it_particle (ac_future (snd (poll_next sample_render [] 0 77 sample_actor))) =
     Some (sample_particle 10 20)"
  using actor_execution_cycle [where render = sample_render and completed = "[]" and i = 0 and vm = 77
      and a = sample_actor, OF prod.collapse [symmetric]]
  by (simp add: sample_actor_def actor_ingest_def actor_new_def is_executing_def Let_def)

end
