(* ===== verification/Vm_Pool.thy ===== *)
theory Vm_Pool
  imports Prelude
begin

section \<open>The pool of AquaVM runtimes\<close>

text \<open>
  \<^verbatim>\<open>aquamarine/src/vm_pool.rs\<close>. A runtime is a value of an arbitrary type. The futures that create
  runtimes are numbered \<open>0 ..< pool_size\<close>; one poll is run against an environment that says, for
  every future, whether it is ready and with which result. A panic (an index out of range) is the
  result \<open>None\<close>. Metrics and wakers are not modelled.
\<close>

record 'rt vm_pool =
  runtimes :: "'rt option list"
  creating_runtimes :: "nat list option"
  pool_size :: nat

definition vm_pool_new :: "nat \<Rightarrow> 'rt vm_pool" where
  "vm_pool_new n = \<lparr>runtimes = replicate n None, creating_runtimes = None, pool_size = n\<rparr>"

definition free_vms :: "'rt vm_pool \<Rightarrow> nat" where
  "free_vms p = length (runtimes p)"

fun take_first :: "nat \<Rightarrow> 'a option list \<Rightarrow> (nat \<times> 'a) option \<times> 'a option list" where
  "take_first i [] = (None, [])"
| "take_first i (Some v # xs) = (Some (i, v), None # xs)"
| "take_first i (None # xs) = (let (r, ys) = take_first (Suc i) xs in (r, None # ys))"

definition get_vm :: "'rt vm_pool \<Rightarrow> (nat \<times> 'rt) option \<times> 'rt vm_pool" where
  "get_vm p = (let (r, rts) = take_first 0 (runtimes p) in (r, p\<lparr>runtimes := rts\<rparr>))"

definition put_vm :: "nat \<Rightarrow> 'rt \<Rightarrow> 'rt vm_pool \<Rightarrow> 'rt vm_pool option" where
  "put_vm i vm p =
     (if i < length (runtimes p) then Some (p\<lparr>runtimes := (runtimes p)[i := Some vm]\<rparr>) else None)"

text \<open>The \<^verbatim>\<open>while i < creating_vms.len()\<close> loop of \<^verbatim>\<open>VmPool::poll\<close>.\<close>

function vm_poll_loop ::
    "(nat \<Rightarrow> ('e + 'rt) option) \<Rightarrow> nat list \<Rightarrow> 'rt option list \<Rightarrow> nat \<Rightarrow>
     (nat list \<times> 'rt option list) option" where
  "vm_poll_loop ready creating vms i =
     (if i < length creating then
        (case ready (creating ! i) of
           Some (Inr vm) \<Rightarrow>
             (if i < length vms
              then vm_poll_loop ready (remove_nth i creating) (vms[i := Some vm]) (Suc i)
              else None)
         | Some (Inl err) \<Rightarrow> vm_poll_loop ready (remove_nth i creating) vms (Suc i)
         | None \<Rightarrow> vm_poll_loop ready creating vms (Suc i))
      else Some (creating, vms))"
  by pat_completeness auto
termination
  by (relation "measure (\<lambda>(ready, creating, vms, i). length creating - i)") auto

declare vm_poll_loop.simps [simp del]

definition vm_pool_poll ::
    "(nat \<Rightarrow> ('e + 'rt) option) \<Rightarrow> 'rt vm_pool \<Rightarrow> 'rt vm_pool option" where
  "vm_pool_poll ready p =
     (let creating = (case creating_runtimes p of None \<Rightarrow> [0..<pool_size p] | Some vms \<Rightarrow> vms)
      in map_option (\<lambda>(creating', rts). p\<lparr>runtimes := rts, creating_runtimes := Some creating'\<rparr>)
           (vm_poll_loop ready creating (runtimes p) 0))"

fun vm_pool_polls ::
    "(nat \<Rightarrow> ('e + 'rt) option) list \<Rightarrow> 'rt vm_pool \<Rightarrow> 'rt vm_pool option" where
  "vm_pool_polls [] p = Some p"
| "vm_pool_polls (r # rs) p = Option.bind (vm_pool_poll r p) (vm_pool_polls rs)"

subsection \<open>The contract of a store of runtimes\<close>

definition vm_slot :: "'rt vm_pool \<Rightarrow> nat \<Rightarrow> 'rt option" where
  "vm_slot p i = (if i < length (runtimes p) then runtimes p ! i else None)"

definition vm_count :: "'rt vm_pool \<Rightarrow> nat" where
  "vm_count p = length (filter (\<lambda>r. r \<noteq> None) (runtimes p))"

locale vm_store =
  fixes get :: "'p \<Rightarrow> (nat \<times> 'v) option \<times> 'p"
    and put :: "nat \<Rightarrow> 'v \<Rightarrow> 'p \<Rightarrow> 'p option"
    and slot :: "'p \<Rightarrow> nat \<Rightarrow> 'v option"
    and size :: "'p \<Rightarrow> nat"
    and total :: "'p \<Rightarrow> nat"
  assumes slot_range: "slot p i = Some v \<Longrightarrow> i < size p"
    and get_None: "get p = (None, p') \<Longrightarrow> p' = p \<and> (\<forall>i. slot p i = None)"
    and get_Some: "get p = (Some (i, v), p') \<Longrightarrow>
          slot p i = Some v \<and> (\<forall>j<i. slot p j = None) \<and>
          slot p' = (slot p)(i := None) \<and> size p' = size p"
    and put_Some: "i < size p \<Longrightarrow>
          \<exists>p'. put i v p = Some p' \<and> slot p' = (slot p)(i \<mapsto> v) \<and> size p' = size p"
    and get_total: "get p = (Some (i, v), p') \<Longrightarrow> total p = Suc (total p')"
    and put_total: "put i v p = Some p' \<Longrightarrow> slot p i = None \<Longrightarrow> total p' = Suc (total p)"
begin

lemma put_SomeD:
  assumes "put i v p = Some p'" and "i < size p"
  shows "slot p' = (slot p)(i \<mapsto> v)" and "size p' = size p"
  using put_Some [OF assms(2), of v] assms(1) by auto

lemma get_put_slot:
  assumes "get p = (Some (i, v), p')"
  shows "\<exists>p''. put i v p' = Some p'' \<and> slot p'' = slot p \<and> size p'' = size p"
proof -
  from get_Some [OF assms] have *: "slot p i = Some v" "slot p' = (slot p)(i := None)" "size p' = size p"
    by auto
  with slot_range [OF *(1)] have "i < size p'" by simp
  from put_Some [OF this, of v] obtain p'' where
    "put i v p' = Some p''" "slot p'' = (slot p')(i \<mapsto> v)" "size p'' = size p'" by blast
  with * show ?thesis by (auto intro!: exI [of _ p''])
qed

lemma get_get_distinct:
  assumes "get p = (Some (i, v), p')" and "get p' = (Some (j, w), p'')"
  shows "i < j"
proof (rule ccontr)
  assume "\<not> i < j"
  then have "j = i \<or> j < i" by auto
  with get_Some [OF assms(1)] get_Some [OF assms(2)] show False by auto
qed

text \<open>A client that holds the runtimes of the slots \<open>ids\<close>: the slots are in range and empty.\<close>

definition held :: "'p \<Rightarrow> nat list \<Rightarrow> bool" where
  "held p ids \<longleftrightarrow> distinct ids \<and> (\<forall>i\<in>set ids. i < size p \<and> slot p i = None)"

lemma held_perm: "mset ids = mset ids' \<Longrightarrow> held p ids \<longleftrightarrow> held p ids'"
  unfolding held_def by (metis mset_eq_imp_distinct_iff mset_eq_setD)

lemma held_get:
  assumes "held p ids" and got: "get p = (Some (i, v), p')"
  shows "held p' (i # ids)"
  using assms(1) get_Some [OF got] slot_range by (fastforce simp: held_def)

lemma held_put:
  assumes "held p (i # ids)"
  shows "\<exists>p'. put i v p = Some p' \<and> held p' ids \<and> size p' = size p \<and> total p' = Suc (total p)"
proof -
  from assms have i: "i < size p" "slot p i = None" by (auto simp: held_def)
  from put_Some [OF i(1), of v] obtain p' where
    p': "put i v p = Some p'" "slot p' = (slot p)(i \<mapsto> v)" "size p' = size p" by blast
  with assms have "held p' ids" by (auto simp: held_def)
  with p' put_total [OF p'(1) i(2)] show ?thesis by blast
qed

lemma held_get_put:
  assumes "held p ids" and got: "get p = (Some (i, v), p')"
  shows "\<exists>p''. put i w p' = Some p'' \<and> held p'' ids \<and> size p'' = size p \<and> total p'' = total p"
proof -
  from held_put [OF held_get [OF assms], of w] get_Some [OF got] get_total [OF got]
  show ?thesis by auto
qed

end

lemma take_first_None: "take_first i xs = (None, ys) \<Longrightarrow> ys = xs \<and> (\<forall>x\<in>set xs. x = None)"
  by (induction i xs arbitrary: ys rule: take_first.induct) (auto split: prod.splits)

lemma take_first_Some:
  "take_first i xs = (Some (k, v), ys) \<Longrightarrow>
     i \<le> k \<and> k - i < length xs \<and> xs ! (k - i) = Some v \<and> (\<forall>j<k - i. xs ! j = None) \<and>
     ys = xs[k - i := None]"
proof (induction i xs arbitrary: ys rule: take_first.induct)
  case (3 i xs)
  then obtain zs where zs: "take_first (Suc i) xs = (Some (k, v), zs)" and ys: "ys = None # zs"
    by (auto split: prod.splits)
  from "3.IH" [OF zs] have *: "Suc i \<le> k" "k - Suc i < length xs" "xs ! (k - Suc i) = Some v"
    "\<forall>j<k - Suc i. xs ! j = None" "zs = xs[k - Suc i := None]" by auto
  then have k: "k - i = Suc (k - Suc i)" by simp
  show ?case unfolding k ys using * by (auto simp: nth_Cons' less_Suc_eq_0_disj)
qed auto

lemma vm_count_remove:
  "i < length xs \<Longrightarrow> xs ! i = Some v \<Longrightarrow>
   length (filter (\<lambda>r. r \<noteq> None) xs) = Suc (length (filter (\<lambda>r. r \<noteq> None) (xs[i := None])))"
proof (induction xs arbitrary: i)
  case (Cons a xs)
  then show ?case by (cases i) auto
qed simp

lemma get_vm_SomeD:
  assumes "get_vm p = (Some (i, v), p')"
  shows "put_vm i v p' = Some p" and "vm_count p = Suc (vm_count p')"
proof -
  obtain ys where ys: "take_first 0 (runtimes p) = (Some (i, v), ys)" and p': "p' = p\<lparr>runtimes := ys\<rparr>"
    using assms by (auto simp: get_vm_def split: prod.splits)
  from take_first_Some [OF ys] have i: "i < length (runtimes p)" "runtimes p ! i = Some v"
    and ys': "ys = (runtimes p)[i := None]" by auto
  have "(runtimes p)[i := Some v] = runtimes p"
    using i(2) list_update_id [of "runtimes p" i] by simp
  then show "put_vm i v p' = Some p" using i(1) by (simp add: p' ys' put_vm_def)
  show "vm_count p = Suc (vm_count p')"
    unfolding vm_count_def p' ys' using vm_count_remove [OF i] by simp
qed

interpretation vp: vm_store get_vm put_vm vm_slot free_vms vm_count
proof
  fix p p' :: "'rt vm_pool" and i :: nat and v :: 'rt
  show "i < free_vms p" if "vm_slot p i = Some v"
    using that by (auto simp: vm_slot_def free_vms_def split: if_splits)
  show "p' = p \<and> (\<forall>i. vm_slot p i = None)" if got: "get_vm p = (None, p')"
  proof -
    obtain ys where "take_first 0 (runtimes p) = (None, ys)" and p': "p' = p\<lparr>runtimes := ys\<rparr>"
      using got by (auto simp: get_vm_def split: prod.splits)
    from take_first_None [OF this(1)] have "ys = runtimes p" "\<forall>x\<in>set (runtimes p). x = None"
      by auto
    with p' show ?thesis by (auto simp: vm_slot_def)
  qed
  show "vm_slot p i = Some v \<and> (\<forall>j<i. vm_slot p j = None) \<and>
      vm_slot p' = (vm_slot p)(i := None) \<and> free_vms p' = free_vms p"
    if got: "get_vm p = (Some (i, v), p')"
  proof -
    obtain ys where "take_first 0 (runtimes p) = (Some (i, v), ys)" and p': "p' = p\<lparr>runtimes := ys\<rparr>"
      using got by (auto simp: get_vm_def split: prod.splits)
    from take_first_Some [OF this(1)] p' show ?thesis
      by (auto simp: vm_slot_def free_vms_def fun_eq_iff nth_list_update)
  qed
  show "\<exists>p'. put_vm i v p = Some p' \<and> vm_slot p' = (vm_slot p)(i \<mapsto> v) \<and> free_vms p' = free_vms p"
    if "i < free_vms p"
    using that by (auto simp: put_vm_def vm_slot_def free_vms_def fun_eq_iff nth_list_update)
  show "vm_count p = Suc (vm_count p')" if "get_vm p = (Some (i, v), p')"
    using that by (rule get_vm_SomeD)
  show "vm_count p' = Suc (vm_count p)" if "put_vm i v p = Some p'" and "vm_slot p i = None"
  proof -
    have i: "i < length (runtimes p)" and p': "p' = p\<lparr>runtimes := (runtimes p)[i := Some v]\<rparr>"
      using that(1) by (auto simp: put_vm_def split: if_splits)
    have "(runtimes p)[i := Some v, i := None] = runtimes p"
      using that(2) i list_update_id [of "runtimes p" i] by (simp add: vm_slot_def)
    with vm_count_remove [of i "(runtimes p)[i := Some v]" v] i show ?thesis
      by (simp add: vm_count_def p')
  qed
qed

subsection \<open>Polling the creation of runtimes\<close>

definition vm_pool_wf :: "'rt vm_pool \<Rightarrow> bool" where
  "vm_pool_wf p \<longleftrightarrow> length (runtimes p) = pool_size p \<and>
     (\<forall>vms. creating_runtimes p = Some vms \<longrightarrow> length vms \<le> pool_size p)"

text \<open>
  One iteration of the loop advances the index, and a completed future also shortens the list
  under it: the future that follows a completed one is skipped, and the slots that can be
  written are those below the number of futures still in the list.
\<close>

lemma vm_poll_loop_total:
  "length creating \<le> length vms \<Longrightarrow>
   \<exists>creating' vms'. vm_poll_loop ready creating vms i = Some (creating', vms') \<and>
     length vms' = length vms \<and> length creating' \<le> length creating \<and>
     (\<forall>j. length creating \<le> j \<longrightarrow> j < length vms \<longrightarrow> vms' ! j = vms ! j)"
proof (induction ready creating vms i rule: vm_poll_loop.induct)
  case (1 ready creating vms i)
  show ?case
  proof (cases "i < length creating")
    case False
    then show ?thesis by (simp add: vm_poll_loop.simps)
  next
    case True
    show ?thesis
    proof (cases "ready (creating ! i)")
      case None
      with True "1.IH"(1) "1.prems" show ?thesis
        by (simp add: vm_poll_loop.simps [of ready creating vms i])
    next
      case (Some r)
      show ?thesis
      proof (cases r)
        case (Inl e)
        with True Some "1.IH"(2) "1.prems" show ?thesis
          by (fastforce simp: vm_poll_loop.simps [of ready creating vms i])
      next
        case (Inr vm)
        with True Some "1.IH"(3) "1.prems" show ?thesis
          by (fastforce simp: vm_poll_loop.simps [of ready creating vms i])
      qed
    qed
  qed
qed

lemma vm_poll_loop_all_ready:
  assumes "\<forall>k. ready k \<noteq> None"
  shows "vm_poll_loop ready creating vms i = Some (creating', vms') \<Longrightarrow> i \<le> length creating \<Longrightarrow>
     length creating' = i + (length creating - i) div 2 \<and>
     (\<forall>j. i + (Suc (length creating - i)) div 2 \<le> j \<longrightarrow> j < length vms \<longrightarrow> vms' ! j = vms ! j)"
  using assms
proof (induction ready creating vms i rule: vm_poll_loop.induct)
  case (1 ready creating vms i)
  show ?case
  proof (cases "i < length creating")
    case False
    with "1.prems" show ?thesis by (simp add: vm_poll_loop.simps [of ready creating vms i])
  next
    case lt: True
    obtain r where r: "ready (creating ! i) = Some r" using "1.prems"(3) by blast
    let ?c = "remove_nth i creating"
    show ?thesis
    proof (cases "Suc i \<le> length ?c")
      case True
      have half: "Suc i + (length ?c - Suc i) div 2 = i + (length creating - i) div 2"
        "Suc i + Suc (length ?c - Suc i) div 2 = i + Suc (length creating - i) div 2"
        using lt True by auto
      show ?thesis
      proof (cases r)
        case (Inl e)
        with lt r True "1.IH"(2) "1.prems" half show ?thesis
          by (simp add: vm_poll_loop.simps [of ready creating vms i])
      next
        case (Inr vm)
        with lt r True "1.IH"(3) "1.prems" half show ?thesis
          by (auto simp: vm_poll_loop.simps [of ready creating vms i] split: if_splits)
      qed
    next
      case False
      then have len: "length creating = Suc i" using lt by simp
      have stop: "vm_poll_loop ready ?c ws (Suc i) = Some (?c, ws)" for ws
        using False by (simp add: vm_poll_loop.simps [of ready ?c])
      show ?thesis
        using "1.prems" lt r len stop
        by (cases r) (auto simp: vm_poll_loop.simps [of ready creating vms i] split: if_splits)
    qed
  qed
qed

lemma vm_pool_poll_total:
  assumes "vm_pool_wf p"
  shows "\<exists>p'. vm_pool_poll ready p = Some p' \<and> vm_pool_wf p' \<and> pool_size p' = pool_size p \<and>
           (\<exists>c. creating_runtimes p' = Some c)"
proof -
  let ?c = "case creating_runtimes p of None \<Rightarrow> [0..<pool_size p] | Some vms \<Rightarrow> vms"
  have "length ?c \<le> length (runtimes p)" using assms by (auto simp: vm_pool_wf_def split: option.splits)
  from vm_poll_loop_total [OF this, of ready 0] obtain c' vms' where
    "vm_poll_loop ready ?c (runtimes p) 0 = Some (c', vms')"
    "length vms' = length (runtimes p)" "length c' \<le> length ?c" by blast
  with \<open>length ?c \<le> length (runtimes p)\<close> assms show ?thesis
    by (auto simp: vm_pool_poll_def vm_pool_wf_def)
qed

lemma vm_pool_polls_total:
  "vm_pool_wf p \<Longrightarrow> \<exists>p'. vm_pool_polls rs p = Some p' \<and> vm_pool_wf p' \<and> pool_size p' = pool_size p"
proof (induction rs arbitrary: p)
  case (Cons r rs)
  from vm_pool_poll_total [OF Cons.prems, of r] obtain p1 where
    "vm_pool_poll r p = Some p1" "vm_pool_wf p1" "pool_size p1 = pool_size p" by blast
  with Cons.IH [of p1] show ?case by auto
qed simp

text \<open>Slots at or above \<open>m\<close> are empty and stay so once at most \<open>m\<close> futures remain.\<close>

definition vm_slots_below :: "nat \<Rightarrow> 'rt vm_pool \<Rightarrow> bool" where
  "vm_slots_below m p \<longleftrightarrow>
     (\<exists>c. creating_runtimes p = Some c \<and> length c \<le> m) \<and> (\<forall>j. m \<le> j \<longrightarrow> vm_slot p j = None)"

lemma vm_pool_poll_slots_below:
  assumes "vm_pool_wf p" and "vm_slots_below m p" and "vm_pool_poll ready p = Some p'"
  shows "vm_slots_below m p'"
proof -
  obtain c where c: "creating_runtimes p = Some c" "length c \<le> m"
    using assms(2) by (auto simp: vm_slots_below_def)
  have "length c \<le> length (runtimes p)" using assms(1) c by (auto simp: vm_pool_wf_def)
  from vm_poll_loop_total [OF this, of ready 0] obtain c' vms' where
    *: "vm_poll_loop ready c (runtimes p) 0 = Some (c', vms')"
    "length vms' = length (runtimes p)" "length c' \<le> length c"
    "\<forall>j. length c \<le> j \<longrightarrow> j < length (runtimes p) \<longrightarrow> vms' ! j = runtimes p ! j" by blast
  have p': "p' = p\<lparr>runtimes := vms', creating_runtimes := Some c'\<rparr>"
    using assms(3) c * by (simp add: vm_pool_poll_def)
  show ?thesis
    using assms(2) c * by (auto simp: vm_slots_below_def p' vm_slot_def)
qed

lemma vm_pool_polls_slots_below:
  "vm_pool_wf p \<Longrightarrow> vm_slots_below m p \<Longrightarrow> vm_pool_polls rs p = Some p' \<Longrightarrow> vm_slots_below m p'"
proof (induction rs arbitrary: p)
  case (Cons r rs)
  from Cons.prems(3) obtain p1 where p1: "vm_pool_poll r p = Some p1" "vm_pool_polls rs p1 = Some p'"
    by (auto simp: bind_eq_Some_conv)
  from vm_pool_poll_total [OF Cons.prems(1), of r] p1 have "vm_pool_wf p1" by auto
  moreover have "vm_slots_below m p1"
    using Cons.prems(1,2) p1(1) by (rule vm_pool_poll_slots_below)
  ultimately show ?case using Cons.IH p1(2) by blast
qed simp

lemma vm_slots_below_count:
  assumes "vm_slots_below m p"
  shows "vm_count p \<le> m"
proof -
  have "filter (\<lambda>r. r \<noteq> None) (drop m (runtimes p)) = []"
    using assms by (auto simp: filter_empty_conv vm_slots_below_def vm_slot_def in_set_conv_nth
        split: if_splits)
  then have "vm_count p = length (filter (\<lambda>r. r \<noteq> None) (take m (runtimes p)))"
    unfolding vm_count_def by (metis append_Nil2 append_take_drop_id filter_append)
  then show ?thesis by (metis length_filter_le length_take min.cobounded2 order_trans)
qed

lemma vm_pool_wf_new: "vm_pool_wf (vm_pool_new n)"
  by (simp add: vm_pool_wf_def vm_pool_new_def)

subsection \<open>Properties\<close>

text \<open>[get_vm_put_vm]: Taking a runtime returns the one in the lowest occupied slot and empties exactly that
  slot; it fails only when every slot is empty, and then changes nothing. Putting the runtime back
  under the id it was handed out with restores the pool exactly.\<close>

theorem get_vm_put_vm:
  "(case get_vm p of
      (None, p') \<Rightarrow> p' = p \<and> vm_count p = 0
    | (Some (i, vm), p') \<Rightarrow>
        vm_slot p i = Some vm \<and> (\<forall>j<i. vm_slot p j = None) \<and>
        vm_slot p' = (vm_slot p)(i := None) \<and> vm_count p = Suc (vm_count p') \<and>
        put_vm i vm p' = Some p)"
proof (cases "get_vm p")
  case (Pair r p')
  show ?thesis
  proof (cases r)
    case None
    with Pair vp.get_None [of p p'] have "p' = p" and empty: "\<forall>i. vm_slot p i = None" by auto
    from empty have "filter (\<lambda>r. r \<noteq> None) (runtimes p) = []"
      by (auto simp: filter_empty_conv vm_slot_def in_set_conv_nth split: if_splits)
    with \<open>p' = p\<close> None Pair show ?thesis by (simp add: vm_count_def)
  next
    case (Some iv)
    obtain i vm where iv: "iv = (i, vm)" by (cases iv)
    with Pair Some have got: "get_vm p = (Some (i, vm), p')" by simp
    from vp.get_Some [OF got] get_vm_SomeD [OF got] show ?thesis by (simp add: got)
  qed
qed

text \<open>[vm_pool_poll_never_panics]: Polling a pool never runs out of a slice's bounds: from a new pool, whatever the
  creation futures answer and however often it is polled, every poll returns, the pool keeps one
  slot per configured runtime, and the number of runtimes never exceeds the configured size.\<close>

theorem vm_pool_poll_never_panics:
  "\<exists>p. vm_pool_polls readys (vm_pool_new n) = Some p \<and>
       length (runtimes p) = n \<and> pool_size p = n \<and> vm_count p \<le> n"
proof -
  from vm_pool_polls_total [OF vm_pool_wf_new, of readys n] obtain p where
    *: "vm_pool_polls readys (vm_pool_new n) = Some p" "vm_pool_wf p" "pool_size p = n"
    by (auto simp: vm_pool_new_def)
  then have "length (runtimes p) = n" by (simp add: vm_pool_wf_def)
  moreover have "vm_count p \<le> length (runtimes p)" by (simp add: vm_count_def)
  ultimately show ?thesis using * by auto
qed

text \<open>[vm_pool_loses_runtimes]: The pool loses runtimes: when all creation futures are ready at the first poll, then
  however often it is polled afterwards, at most half of the configured runtimes (rounded up) ever
  become available, because a completed future's runtime is stored at the future's current
  position in the shrinking list. For two or more runtimes the pool is never full.\<close>

theorem vm_pool_loses_runtimes:
  assumes "\<forall>k. ready k \<noteq> None"
  shows "\<exists>p. vm_pool_polls (ready # readys) (vm_pool_new n) = Some p \<and>
             vm_count p \<le> Suc n div 2 \<and> (2 \<le> n \<longrightarrow> vm_count p < n)"
proof -
  let ?p0 = "vm_pool_new n"
  obtain c vms where loop: "vm_poll_loop ready [0..<n] (replicate n None) 0 = Some (c, vms)"
    and len: "length vms = n"
    using vm_poll_loop_total [of "[0..<n]" "replicate n None" ready 0] by auto
  let ?p1 = "?p0\<lparr>runtimes := vms, creating_runtimes := Some c\<rparr>"
  have p1: "vm_pool_poll ready ?p0 = Some ?p1"
    using loop by (simp add: vm_pool_poll_def vm_pool_new_def)
  from vm_poll_loop_all_ready [OF assms loop] have
    c: "length c = n div 2" and slots: "\<forall>j. Suc n div 2 \<le> j \<longrightarrow> j < n \<longrightarrow> vms ! j = None" by auto
  have below: "vm_slots_below (Suc n div 2) ?p1"
    using c slots len by (auto simp: vm_slots_below_def vm_slot_def)
  have wf1: "vm_pool_wf ?p1" using c len by (simp add: vm_pool_wf_def vm_pool_new_def)
  from vm_pool_polls_total [OF wf1, of readys] obtain p where
    p: "vm_pool_polls readys ?p1 = Some p" by auto
  have "vm_slots_below (Suc n div 2) p"
    using wf1 below p by (rule vm_pool_polls_slots_below)
  then have "vm_count p \<le> Suc n div 2" by (rule vm_slots_below_count)
  moreover have "Suc n div 2 < n" if "2 \<le> n" using that by auto
  ultimately show ?thesis using p1 p by (auto intro!: exI [of _ p])
qed

definition ready_now :: "nat \<Rightarrow> (string + nat) option" where
  "ready_now k = Some (Inr (100 + k))"

theorem vm_pool_loses_runtimes_witness:
  "\<exists>p. vm_pool_polls [ready_now, ready_now, ready_now] (vm_pool_new 4) = Some p \<and> vm_count p < 4"
proof -
  have "\<forall>k. ready_now k \<noteq> None" by (simp add: ready_now_def)
  from vm_pool_loses_runtimes [OF this, of "[ready_now, ready_now]" 4] show ?thesis by auto
qed

text \<open>[free_vms_is_pool_size]: The number reported as currently unused runtimes is the size of the pool, whatever has
  been taken out of it: taking a runtime does not change it.\<close>

theorem free_vms_is_pool_size:
  assumes "get_vm p = (Some (i, vm), p')"
  shows "free_vms p' = free_vms p \<and> vm_count p' < vm_count p"
  using vp.get_Some [OF assms] get_vm_SomeD(2) [OF assms] by simp

definition one_vm_pool :: "nat vm_pool" where
  "one_vm_pool = \<lparr>runtimes = [None, Some 100], creating_runtimes = Some [], pool_size = 2\<rparr>"

theorem free_vms_is_pool_size_witness:
  "free_vms (snd (get_vm one_vm_pool)) = 2 \<and> vm_count (snd (get_vm one_vm_pool)) = 0"
proof -
  have got: "get_vm one_vm_pool = (Some (1, 100), snd (get_vm one_vm_pool))"
    by (simp add: get_vm_def one_vm_pool_def)
  show ?thesis
    using free_vms_is_pool_size [OF got] by (simp add: free_vms_def vm_count_def one_vm_pool_def)
qed

theorem get_vm_put_vm_witness:
  "\<exists>p'. get_vm one_vm_pool = (Some (1, 100), p') \<and> put_vm 1 100 p' = Some one_vm_pool \<and> vm_slot one_vm_pool 0 = None"
proof -
  obtain p' where got: "get_vm one_vm_pool = (Some (1, 100), p')"
    by (simp add: get_vm_def one_vm_pool_def)
  show ?thesis using get_vm_put_vm [of one_vm_pool] by (simp add: got)
qed

end
