(* ===== verification/Key_Manager.thy ===== *)
theory Key_Manager
  imports Prelude
begin

section \<open>The key manager\<close>

text \<open>
  \<^verbatim>\<open>crates/key-manager\<close>: the key pairs of spell owners. A remote peer that installs spells gets a key
  pair of its own on this node, its \<^emph>\<open>scope\<close>; the pair is written to disk and restored at start.
  Key pairs, base58 and toml are third-party: the operations the code calls are the fields of a
  record. The directory is an association list from file names to contents.
\<close>

record persisted_keypair =
  pk_remote_peer_id :: peer_id
  pk_private_key_bytes :: bytes
  pk_key_format :: string

record 'k keypair_api =
  ka_get_peer_id :: "'k \<Rightarrow> peer_id"
  ka_secret :: "'k \<Rightarrow> bytes option"
  ka_key_format :: "'k \<Rightarrow> string"
  ka_from_secret_key :: "bytes \<Rightarrow> string \<Rightarrow> 'k option"
  ka_to_base58 :: "peer_id \<Rightarrow> string"
  ka_to_toml :: "persisted_keypair \<Rightarrow> bytes option"
  ka_from_toml :: "bytes \<Rightarrow> persisted_keypair option"

datatype persisted_keypair_error =
    CannotExtractRSASecretKey
  | SerializePersistedKeypair
  | WriteErrorPersistedKeypair string

record 'k key_manager =
  scope_keypairs :: "peer_id \<rightharpoonup> 'k"
  scope_peer_ids :: "peer_id \<rightharpoonup> peer_id"
  keypairs_dir :: "(string \<times> bytes) list"
  km_host_peer_id :: peer_id

subsection \<open>Persistence\<close>

definition persisted_keypair_new ::
    "'k keypair_api \<Rightarrow> peer_id \<Rightarrow> 'k \<Rightarrow> persisted_keypair_error + persisted_keypair" where
  "persisted_keypair_new A owner_id kp =
     (case ka_secret A kp of
        None \<Rightarrow> Inl CannotExtractRSASecretKey
      | Some secret \<Rightarrow> Inr \<lparr>pk_remote_peer_id = owner_id, pk_private_key_bytes = secret,
                            pk_key_format = ka_key_format A kp\<rparr>)"

definition keypair_file_name :: "string \<Rightarrow> string" where
  "keypair_file_name s = s @ ''_keypair.toml''"

definition is_keypair :: "string \<Rightarrow> bool" where
  "is_keypair n = ends_with ''_keypair.toml'' n"

text \<open>\<open>write_ok\<close> is the answer of the file system to the write.\<close>

definition persist_keypair ::
    "'k keypair_api \<Rightarrow> bool \<Rightarrow> persisted_keypair \<Rightarrow> (string \<times> bytes) list \<Rightarrow>
     persisted_keypair_error + (string \<times> bytes) list" where
  "persist_keypair A write_ok pk dir =
     (let path = keypair_file_name (ka_to_base58 A (pk_remote_peer_id pk)) in
      case ka_to_toml A pk of
        None \<Rightarrow> Inl SerializePersistedKeypair
      | Some content \<Rightarrow>
          if write_ok then Inr (AList.update path content dir)
          else Inl (WriteErrorPersistedKeypair path))"

definition load_persisted_files ::
    "'k keypair_api \<Rightarrow> (string \<times> bytes) list \<Rightarrow> persisted_keypair option list" where
  "load_persisted_files A dir =
     map (\<lambda>(_, content). ka_from_toml A content) (filter (\<lambda>(n, _). is_keypair n) dir)"

subsection \<open>Operations\<close>

definition restore_keypair :: "'k keypair_api \<Rightarrow> persisted_keypair option \<Rightarrow> 'k key_manager \<Rightarrow> 'k key_manager" where
  "restore_keypair A pkp km =
     (case pkp of
        None \<Rightarrow> km
      | Some pk \<Rightarrow>
          (case ka_from_secret_key A (pk_private_key_bytes pk) (pk_key_format pk) of
             None \<Rightarrow> km
           | Some kp \<Rightarrow>
               km\<lparr>scope_peer_ids := (scope_peer_ids km)(pk_remote_peer_id pk \<mapsto> ka_get_peer_id A kp),
                  scope_keypairs := (scope_keypairs km)(ka_get_peer_id A kp \<mapsto> kp)\<rparr>))"

definition load_persisted_keypairs :: "'k keypair_api \<Rightarrow> 'k key_manager \<Rightarrow> 'k key_manager" where
  "load_persisted_keypairs A km = fold (restore_keypair A) (load_persisted_files A (keypairs_dir km)) km"

definition key_manager_new :: "'k keypair_api \<Rightarrow> (string \<times> bytes) list \<Rightarrow> peer_id \<Rightarrow> 'k key_manager" where
  "key_manager_new A dir host = load_persisted_keypairs A
     \<lparr>scope_keypairs = Map.empty, scope_peer_ids = Map.empty, keypairs_dir = dir, km_host_peer_id = host\<rparr>"

definition has_keypair :: "'k key_manager \<Rightarrow> peer_id \<Rightarrow> bool" where
  "has_keypair km remote \<longleftrightarrow> scope_peer_ids km remote \<noteq> None"

definition is_scope_peer_id :: "'k key_manager \<Rightarrow> peer_id \<Rightarrow> bool" where
  "is_scope_peer_id km p \<longleftrightarrow> scope_keypairs km p \<noteq> None"

definition store_keypair ::
    "'k keypair_api \<Rightarrow> bool \<Rightarrow> peer_id \<Rightarrow> 'k \<Rightarrow> 'k key_manager \<Rightarrow>
     persisted_keypair_error + 'k key_manager" where
  "store_keypair A write_ok remote kp km =
     (case persisted_keypair_new A remote kp of
        Inl e \<Rightarrow> Inl e
      | Inr pk \<Rightarrow>
          (case persist_keypair A write_ok pk (keypairs_dir km) of
             Inl e \<Rightarrow> Inl e
           | Inr dir \<Rightarrow>
               Inr (km\<lparr>keypairs_dir := dir,
                  scope_peer_ids := (scope_peer_ids km)(remote \<mapsto> ka_get_peer_id A kp),
                  scope_keypairs := (scope_keypairs km)(ka_get_peer_id A kp \<mapsto> kp)\<rparr>)))"

text \<open>\<open>fresh\<close> is the pair that \<^verbatim>\<open>generate_keypair\<close> would return.\<close>

definition get_scope_peer_id ::
    "'k keypair_api \<Rightarrow> bool \<Rightarrow> 'k \<Rightarrow> peer_id \<Rightarrow> 'k key_manager \<Rightarrow>
     persisted_keypair_error + peer_id \<times> 'k key_manager" where
  "get_scope_peer_id A write_ok fresh init_peer_id km =
     (if is_scope_peer_id km init_peer_id then Inr (init_peer_id, km)
      else (case scope_peer_ids km init_peer_id of
              Some p \<Rightarrow> Inr (p, km)
            | None \<Rightarrow>
                (case store_keypair A write_ok init_peer_id fresh km of
                   Inl e \<Rightarrow> Inl e
                 | Inr km' \<Rightarrow> Inr (ka_get_peer_id A fresh, km'))))"

definition get_scope_keypair :: "peer_id \<Rightarrow> 'k key_manager \<Rightarrow> 'k option" where
  "get_scope_keypair p km = scope_keypairs km p"

subsection \<open>Invariant\<close>

definition km_wf :: "'k keypair_api \<Rightarrow> 'k key_manager \<Rightarrow> bool" where
  "km_wf A km \<longleftrightarrow> (\<forall>p kp. scope_keypairs km p = Some kp \<longrightarrow> ka_get_peer_id A kp = p) \<and>
     (\<forall>r p. scope_peer_ids km r = Some p \<longrightarrow> scope_keypairs km p \<noteq> None)"

lemma store_keypair_wf:
  "km_wf A km \<Longrightarrow> store_keypair A w r kp km = Inr km' \<Longrightarrow> km_wf A km'"
  by (auto simp: km_wf_def store_keypair_def split: sum.splits if_splits)

lemma restore_keypair_wf: "km_wf A km \<Longrightarrow> km_wf A (restore_keypair A pkp km)"
  by (auto simp: km_wf_def restore_keypair_def split: option.splits if_splits)

lemma fold_restore_wf: "km_wf A km \<Longrightarrow> km_wf A (fold (restore_keypair A) pkps km)"
  by (induction pkps arbitrary: km) (auto simp: restore_keypair_wf)

lemma key_manager_new_wf: "km_wf A (key_manager_new A dir host)"
  unfolding key_manager_new_def load_persisted_keypairs_def
  by (rule fold_restore_wf) (simp add: km_wf_def)

lemma get_scope_peer_id_wf:
  "km_wf A km \<Longrightarrow> get_scope_peer_id A w fresh r km = Inr (p, km') \<Longrightarrow> km_wf A km'"
  by (auto simp: get_scope_peer_id_def split: if_splits option.splits sum.splits
      dest: store_keypair_wf)

lemma get_scope_is_scope:
  assumes "km_wf A km" and "get_scope_peer_id A w fresh init km = Inr (s, km')"
  shows "is_scope_peer_id km' s" and "\<exists>kp. get_scope_keypair s km' = Some kp \<and> ka_get_peer_id A kp = s"
proof -
  show "is_scope_peer_id km' s"
    using assms
    by (auto simp: get_scope_peer_id_def is_scope_peer_id_def km_wf_def store_keypair_def
        split: if_splits option.splits sum.splits)
  with get_scope_peer_id_wf [OF assms] show "\<exists>kp. get_scope_keypair s km' = Some kp \<and> ka_get_peer_id A kp = s"
    by (auto simp: is_scope_peer_id_def km_wf_def get_scope_keypair_def)
qed

text \<open>The directory holds exactly the pairs in memory.\<close>

definition keypair_file :: "'k keypair_api \<Rightarrow> peer_id \<Rightarrow> string" where
  "keypair_file A r = keypair_file_name (ka_to_base58 A r)"

definition file_holds :: "'k keypair_api \<Rightarrow> string \<times> bytes \<Rightarrow> peer_id \<Rightarrow> 'k \<Rightarrow> bool" where
  "file_holds A f r kp \<longleftrightarrow> fst f = keypair_file A r \<and>
     (\<exists>pk. ka_from_toml A (snd f) = Some pk \<and> pk_remote_peer_id pk = r \<and>
           ka_from_secret_key A (pk_private_key_bytes pk) (pk_key_format pk) = Some kp)"

definition km_synced :: "'k keypair_api \<Rightarrow> 'k key_manager \<Rightarrow> bool" where
  "km_synced A km \<longleftrightarrow> distinct (map fst (keypairs_dir km)) \<and>
     (\<forall>f\<in>set (keypairs_dir km). is_keypair (fst f) \<longrightarrow> (\<exists>r kp. file_holds A f r kp \<and>
        scope_peer_ids km r = Some (ka_get_peer_id A kp))) \<and>
     (\<forall>r s. scope_peer_ids km r = Some s \<longrightarrow> (\<exists>f\<in>set (keypairs_dir km). \<exists>kp.
        file_holds A f r kp \<and> ka_get_peer_id A kp = s))"

text \<open>What the third-party operations promise.\<close>

definition keypair_api_laws :: "'k keypair_api \<Rightarrow> bool" where
  "keypair_api_laws A \<longleftrightarrow> inj (ka_to_base58 A) \<and>
     (\<forall>kp secret. ka_secret A kp = Some secret \<longrightarrow> ka_from_secret_key A secret (ka_key_format A kp) = Some kp) \<and>
     (\<forall>pk content. ka_to_toml A pk = Some content \<longrightarrow> ka_from_toml A content = Some pk)"

lemma is_keypair_file [simp]: "is_keypair (keypair_file A r)"
  by (simp add: is_keypair_def keypair_file_def keypair_file_name_def)

lemma keypair_file_inj: "keypair_api_laws A \<Longrightarrow> keypair_file A r = keypair_file A r' \<longleftrightarrow> r = r'"
  by (auto simp: keypair_api_laws_def keypair_file_def keypair_file_name_def dest: injD)

lemma store_keypair_InrD:
  assumes "keypair_api_laws A" and "store_keypair A w r kp km = Inr km'"
  shows "\<exists>content. file_holds A (keypair_file A r, content) r kp \<and>
           km' = km\<lparr>keypairs_dir := AList.update (keypair_file A r) content (keypairs_dir km),
                    scope_peer_ids := (scope_peer_ids km)(r \<mapsto> ka_get_peer_id A kp),
                    scope_keypairs := (scope_keypairs km)(ka_get_peer_id A kp \<mapsto> kp)\<rparr>"
proof -
  obtain secret where secret: "ka_secret A kp = Some secret"
    using assms(2) by (auto simp: store_keypair_def persisted_keypair_new_def split: option.splits)
  let ?pk = "\<lparr>pk_remote_peer_id = r, pk_private_key_bytes = secret, pk_key_format = ka_key_format A kp\<rparr>"
  obtain content where content: "ka_to_toml A ?pk = Some content" and w
    using assms(2) secret
    by (auto simp: store_keypair_def persisted_keypair_new_def persist_keypair_def Let_def
        split: option.splits sum.splits if_splits)
  have "file_holds A (keypair_file A r, content) r kp"
    using assms(1) secret content by (auto simp: keypair_api_laws_def file_holds_def)
  moreover have "km' = km\<lparr>keypairs_dir := AList.update (keypair_file A r) content (keypairs_dir km),
                    scope_peer_ids := (scope_peer_ids km)(r \<mapsto> ka_get_peer_id A kp),
                    scope_keypairs := (scope_keypairs km)(ka_get_peer_id A kp \<mapsto> kp)\<rparr>"
    using assms(2) secret content \<open>w\<close>
    by (simp add: store_keypair_def persisted_keypair_new_def persist_keypair_def keypair_file_def)
  ultimately show ?thesis by blast
qed

lemma set_AList_update:
  "distinct (map fst xs) \<Longrightarrow> set (AList.update k v xs) = insert (k, v) {f \<in> set xs. fst f \<noteq> k}"
  by (induction xs) (auto simp: image_iff)

lemma store_keypair_synced:
  assumes laws: "keypair_api_laws A" and sync: "km_synced A km"
    and st: "store_keypair A w r kp km = Inr km'"
  shows "km_synced A km'"
proof -
  let ?s = "ka_get_peer_id A kp"
  from store_keypair_InrD [OF laws st] obtain content where
    holds: "file_holds A (keypair_file A r, content) r kp"
    and dir: "keypairs_dir km' = AList.update (keypair_file A r) content (keypairs_dir km)"
    and ids: "scope_peer_ids km' = (scope_peer_ids km)(r \<mapsto> ?s)" by auto
  have dist: "distinct (map fst (keypairs_dir km))" using sync by (simp add: km_synced_def)
  have set_dir: "set (keypairs_dir km') =
      insert (keypair_file A r, content) {f \<in> set (keypairs_dir km). fst f \<noteq> keypair_file A r}"
    unfolding dir by (rule set_AList_update [OF dist])
  show ?thesis unfolding km_synced_def
  proof (intro conjI ballI allI impI)
    show "distinct (map fst (keypairs_dir km'))" unfolding dir using dist by (rule distinct_update)
  next
    fix f assume f: "f \<in> set (keypairs_dir km')" "is_keypair (fst f)"
    show "\<exists>r kp. file_holds A f r kp \<and> scope_peer_ids km' r = Some (ka_get_peer_id A kp)"
    proof (cases "fst f = keypair_file A r")
      case True
      with f have "f = (keypair_file A r, content)" by (auto simp: set_dir)
      with holds show ?thesis by (auto simp: ids)
    next
      case False
      with f have "f \<in> set (keypairs_dir km)" by (auto simp: set_dir)
      with sync f obtain q kq where q: "file_holds A f q kq" "scope_peer_ids km q = Some (ka_get_peer_id A kq)"
        unfolding km_synced_def by blast
      with False have "q \<noteq> r" by (auto simp: file_holds_def)
      with q show ?thesis by (auto simp: ids)
    qed
  next
    fix q s assume q: "scope_peer_ids km' q = Some s"
    show "\<exists>f\<in>set (keypairs_dir km'). \<exists>kp. file_holds A f q kp \<and> ka_get_peer_id A kp = s"
    proof (cases "q = r")
      case True
      with q holds show ?thesis by (auto simp: ids set_dir)
    next
      case False
      with q have "scope_peer_ids km q = Some s" by (simp add: ids)
      with sync obtain f kq where f: "f \<in> set (keypairs_dir km)" "file_holds A f q kq" "ka_get_peer_id A kq = s"
        unfolding km_synced_def by blast
      then have "fst f \<noteq> keypair_file A r"
        using False keypair_file_inj [OF laws] by (auto simp: file_holds_def)
      with f(1) have "f \<in> set (keypairs_dir km')" by (simp add: set_dir)
      with f(2,3) show ?thesis by blast
    qed
  qed
qed

lemma fold_restore_ids:
  assumes "\<forall>pkp\<in>set pkps. \<exists>pk kp. pkp = Some pk \<and>
      ka_from_secret_key A (pk_private_key_bytes pk) (pk_key_format pk) = Some kp \<and>
      M (pk_remote_peer_id pk) = Some (ka_get_peer_id A kp)"
    and "scope_peer_ids km \<subseteq>\<^sub>m M"
  shows "scope_peer_ids (fold (restore_keypair A) pkps km) \<subseteq>\<^sub>m M \<and>
         scope_peer_ids km \<subseteq>\<^sub>m scope_peer_ids (fold (restore_keypair A) pkps km) \<and>
         (\<forall>pk. Some pk \<in> set pkps \<longrightarrow>
            scope_peer_ids (fold (restore_keypair A) pkps km) (pk_remote_peer_id pk) = M (pk_remote_peer_id pk))"
  using assms
proof (induction pkps arbitrary: km)
  case (Cons pkp pkps)
  from Cons.prems(1) obtain pk kp where pk: "pkp = Some pk"
    "ka_from_secret_key A (pk_private_key_bytes pk) (pk_key_format pk) = Some kp"
    "M (pk_remote_peer_id pk) = Some (ka_get_peer_id A kp)" by auto
  let ?km = "restore_keypair A pkp km"
  have ids: "scope_peer_ids ?km = (scope_peer_ids km)(pk_remote_peer_id pk \<mapsto> ka_get_peer_id A kp)"
    using pk by (simp add: restore_keypair_def)
  have sub: "scope_peer_ids ?km \<subseteq>\<^sub>m M" "scope_peer_ids km \<subseteq>\<^sub>m scope_peer_ids ?km"
    using Cons.prems(2) pk(3) by (force simp: ids map_le_def dom_def)+
  let ?km' = "fold (restore_keypair A) pkps ?km"
  have IH: "scope_peer_ids ?km' \<subseteq>\<^sub>m M" "scope_peer_ids ?km \<subseteq>\<^sub>m scope_peer_ids ?km'"
    "\<forall>pk. Some pk \<in> set pkps \<longrightarrow> scope_peer_ids ?km' (pk_remote_peer_id pk) = M (pk_remote_peer_id pk)"
    using Cons.IH [OF _ sub(1)] Cons.prems(1) by auto
  have "scope_peer_ids ?km (pk_remote_peer_id pk) = Some (ka_get_peer_id A kp)" by (simp add: ids)
  then have "scope_peer_ids ?km' (pk_remote_peer_id pk) = M (pk_remote_peer_id pk)"
    using IH(2) pk(3) unfolding map_le_def by (metis domI)
  moreover have "scope_peer_ids km \<subseteq>\<^sub>m scope_peer_ids ?km'" using map_le_trans sub(2) IH(2) by blast
  ultimately show ?case using IH(1,3) pk(1) by simp
qed simp

lemma keypairs_dir_fold [simp]: "keypairs_dir (fold (restore_keypair A) pkps km) = keypairs_dir km"
  by (induction pkps arbitrary: km) (auto simp: restore_keypair_def split: option.splits)

lemma restart_ids:
  assumes "km_synced A km"
  shows "scope_peer_ids (key_manager_new A (keypairs_dir km) host) = scope_peer_ids km"
proof -
  let ?pkps = "load_persisted_files A (keypairs_dir km)"
  let ?new = "key_manager_new A (keypairs_dir km) host"
  have "\<exists>pk kp. pkp = Some pk \<and>
      ka_from_secret_key A (pk_private_key_bytes pk) (pk_key_format pk) = Some kp \<and>
      scope_peer_ids km (pk_remote_peer_id pk) = Some (ka_get_peer_id A kp)" if pkp: "pkp \<in> set ?pkps" for pkp
  proof -
    from pkp obtain f where f: "f \<in> set (keypairs_dir km)" "is_keypair (fst f)" "pkp = ka_from_toml A (snd f)"
      by (auto simp: load_persisted_files_def)
    with assms obtain r kp where "file_holds A f r kp" "scope_peer_ids km r = Some (ka_get_peer_id A kp)"
      unfolding km_synced_def by blast
    with f(3) show ?thesis by (auto simp: file_holds_def)
  qed
  then have new: "scope_peer_ids ?new \<subseteq>\<^sub>m scope_peer_ids km"
    "\<forall>pk. Some pk \<in> set ?pkps \<longrightarrow>
       scope_peer_ids ?new (pk_remote_peer_id pk) = scope_peer_ids km (pk_remote_peer_id pk)"
    using fold_restore_ids [of ?pkps A "scope_peer_ids km"]
    unfolding key_manager_new_def load_persisted_keypairs_def by simp_all
  have "scope_peer_ids km r = Some s \<Longrightarrow> scope_peer_ids ?new r = Some s" for r s
  proof -
    assume r: "scope_peer_ids km r = Some s"
    with assms obtain f kp where f: "f \<in> set (keypairs_dir km)" "file_holds A f r kp"
      unfolding km_synced_def by blast
    then obtain pk where pk: "ka_from_toml A (snd f) = Some pk" "pk_remote_peer_id pk = r" "is_keypair (fst f)"
      by (auto simp: file_holds_def)
    obtain n c where nc: "f = (n, c)" by (cases f)
    have "(n, c) \<in> set (filter (\<lambda>(n, _). is_keypair n) (keypairs_dir km))" using f(1) pk(3) nc by simp
    then have "(\<lambda>(_, content). ka_from_toml A content) (n, c) \<in> set ?pkps"
      unfolding load_persisted_files_def set_map by (rule imageI)
    then have "Some pk \<in> set ?pkps" using pk(1) nc by simp
    with new(2) pk(2) r show ?thesis by auto
  qed
  then have "scope_peer_ids km \<subseteq>\<^sub>m scope_peer_ids ?new" by (auto simp: map_le_def)
  with new(1) show ?thesis by (rule map_le_antisym)
qed

subsection \<open>Properties\<close>

text \<open>[scope_peer_id_stable]: The first request for a peer's scope creates a key pair and every later request, with
  whatever pair the generator would now return, answers the same scope peer id and changes nothing; the
  scope's key pair can be looked up and belongs to that id; asking for the scope of a scope is the
  identity, so nested spells share their parent's key.\<close>

theorem scope_peer_id_stable:
  assumes "km_wf A km" and "get_scope_peer_id A w fresh init km = Inr (s, km')"
  shows "km_wf A km' \<and>
         (\<exists>kp. get_scope_keypair s km' = Some kp \<and> ka_get_peer_id A kp = s) \<and>
         (\<forall>w2 fresh2. get_scope_peer_id A w2 fresh2 init km' = Inr (s, km')) \<and>
         (\<forall>w2 fresh2. get_scope_peer_id A w2 fresh2 s km' = Inr (s, km'))"
proof -
  have wf: "km_wf A km'" using assms by (rule get_scope_peer_id_wf)
  have "is_scope_peer_id km' s" by (rule get_scope_is_scope [OF assms])
  moreover have "s = init \<or> (\<not> is_scope_peer_id km' init \<and> scope_peer_ids km' init = Some s)"
    using assms(2)
    by (auto simp: get_scope_peer_id_def is_scope_peer_id_def store_keypair_def
        split: if_splits option.splits sum.splits)
  ultimately show ?thesis
    using wf by (auto simp: get_scope_peer_id_def get_scope_keypair_def is_scope_peer_id_def km_wf_def)
qed

text \<open>A toy key pair whose secret is its id in base 256.\<close>

definition sample_keypairs :: "nat keypair_api" where
  "sample_keypairs = \<lparr>ka_get_peer_id = (\<lambda>k. k + 1000), ka_secret = (\<lambda>k. Some (replicate k 0)),
     ka_key_format = (\<lambda>_. ''ed25519''), ka_from_secret_key = (\<lambda>b _. Some (length b)),
     ka_to_base58 = show_nat,
     ka_to_toml = (\<lambda>pk. if pk_key_format pk = ''ed25519'' \<and> set (pk_private_key_bytes pk) \<subseteq> {0}
        then Some (replicate (pk_remote_peer_id pk) 1 @ pk_private_key_bytes pk) else None),
     ka_from_toml = (\<lambda>b. Some \<lparr>pk_remote_peer_id = length (takeWhile (\<lambda>x. x = 1) b),
        pk_private_key_bytes = dropWhile (\<lambda>x. x = 1) b, pk_key_format = ''ed25519''\<rparr>)\<rparr>"

theorem scope_peer_id_stable_witness:
  "\<exists>km'. get_scope_peer_id sample_keypairs True 5 7 (key_manager_new sample_keypairs [] 1) = Inr (1005, km') \<and>
     get_scope_peer_id sample_keypairs True 6 7 km' = Inr (1005, km') \<and>
     get_scope_peer_id sample_keypairs True 6 1005 km' = Inr (1005, km')"
proof -
  obtain km' where "get_scope_peer_id sample_keypairs True 5 7 (key_manager_new sample_keypairs [] 1) = Inr (1005, km')"
    by (simp add: get_scope_peer_id_def key_manager_new_def load_persisted_keypairs_def load_persisted_files_def
        is_scope_peer_id_def store_keypair_def persisted_keypair_new_def persist_keypair_def sample_keypairs_def)
  with scope_peer_id_stable [OF key_manager_new_wf this] show ?thesis by auto
qed

text \<open>[scopes_survive_restart]: Scopes survive a restart: a key manager whose directory agrees with its memory still agrees
  after any request that creates a scope, and one created from that directory answers every known
  peer with the same scope peer id, holding the key pair of that id.\<close>

theorem scopes_survive_restart:
  assumes "keypair_api_laws A" and "km_synced A km"
    and "get_scope_peer_id A w fresh init km = Inr (s, km')"
  shows "km_synced A km' \<and>
         scope_peer_ids (key_manager_new A (keypairs_dir km') host) = scope_peer_ids km' \<and>
         (\<forall>r p. scope_peer_ids km' r = Some p \<longrightarrow>
            (\<exists>kp. get_scope_keypair p (key_manager_new A (keypairs_dir km') host) = Some kp \<and>
                  ka_get_peer_id A kp = p))"
proof -
  have sync: "km_synced A km'"
    using assms(2,3) store_keypair_synced [OF assms(1,2)]
    by (auto simp: get_scope_peer_id_def split: if_splits option.splits sum.splits)
  let ?new = "key_manager_new A (keypairs_dir km') host"
  have ids: "scope_peer_ids ?new = scope_peer_ids km'" using restart_ids [OF sync] .
  have "\<exists>kp. get_scope_keypair p ?new = Some kp \<and> ka_get_peer_id A kp = p"
    if "scope_peer_ids km' r = Some p" for r p
  proof -
    have "scope_peer_ids ?new r = Some p" by (simp add: ids that)
    with key_manager_new_wf [of A "keypairs_dir km'" host] show ?thesis
      unfolding km_wf_def get_scope_keypair_def by blast
  qed
  with sync ids show ?thesis by blast
qed

lemma sample_keypairs_laws: "keypair_api_laws sample_keypairs"
proof -
  have "takeWhile (\<lambda>x. x = 1) (replicate n (1::u8) @ b) = replicate n 1"
    "dropWhile (\<lambda>x. x = 1) (replicate n (1::u8) @ b) = b" if "set b \<subseteq> {0}" for n b
    using that by (cases b; simp add: takeWhile_append dropWhile_append)+
  then show ?thesis
    by (auto simp: keypair_api_laws_def sample_keypairs_def inj_def show_nat_inj split: if_splits)
qed

theorem scopes_survive_restart_witness:
  "\<exists>km'. get_scope_peer_id sample_keypairs True 5 7 (key_manager_new sample_keypairs [] 1) = Inr (1005, km') \<and>
     scope_peer_ids (key_manager_new sample_keypairs (keypairs_dir km') 1) 7 = Some 1005"
proof -
  let ?km = "key_manager_new sample_keypairs [] 1"
  have empty: "scope_peer_ids ?km = Map.empty" "scope_keypairs ?km = Map.empty" "keypairs_dir ?km = []"
    by (simp_all add: key_manager_new_def load_persisted_keypairs_def load_persisted_files_def)
  then have "km_synced sample_keypairs ?km" by (simp add: km_synced_def)
  moreover obtain km' where
    km': "get_scope_peer_id sample_keypairs True 5 7 ?km = Inr (1005, km')"
      "scope_peer_ids km' 7 = Some 1005"
    using empty by (simp add: get_scope_peer_id_def is_scope_peer_id_def store_keypair_def
        persisted_keypair_new_def persist_keypair_def sample_keypairs_def)
  ultimately show ?thesis
    using scopes_survive_restart [OF sample_keypairs_laws _ km'(1), of 1] by auto
qed

end
