(* ===== verification/Plumber.thy ===== *)
theory Plumber
  imports Actor Vm_Pool Key_Manager
begin

section \<open>The plumber and the Aquamarine backend\<close>

text \<open>
  \<^verbatim>\<open>aquamarine/src/{plumber,aquamarine,command}.rs\<close>. The plumber owns the actors and the pool of
  runtimes and moves runtimes between them. One poll is run against an environment: which
  creation futures are ready, which interpretations are ready, which host calls complete (in
  each of the two passes over the actors) and what the clock reads. \<open>None\<close> is a panic.
  Metrics, wakers and log messages are not modelled.
\<close>

type_synonym actor_key = "string \<times> peer_id"

datatype aquamarine_api_error =
    ParticleExpired string
  | OneshotCancelled string
  | AquamarineDied "string option"
  | ExecutionTimedOut string
  | AquamarineQueueFull "string option"

fun into_particle_id :: "aquamarine_api_error \<Rightarrow> string option" where
  "into_particle_id (ParticleExpired i) = Some i"
| "into_particle_id (OneshotCancelled i) = Some i"
| "into_particle_id (ExecutionTimedOut i) = Some i"
| "into_particle_id (AquamarineDied i) = i"
| "into_particle_id (AquamarineQueueFull i) = i"

record ('rt, 'k, 'b) plumber =
  pl_events :: "(aquamarine_api_error + routing_effects) list"
  pl_actors :: "(actor_key \<times> 'rt actor) list"
  pl_vm_pool :: "'rt vm_pool"
  pl_builtins :: 'b
  pl_key_manager :: "'k key_manager"

definition plumber_new :: "'rt vm_pool \<Rightarrow> 'b \<Rightarrow> 'k key_manager \<Rightarrow> ('rt, 'k, 'b) plumber" where
  "plumber_new pool builtins km =
     \<lparr>pl_events = [], pl_actors = [], pl_vm_pool = pool, pl_builtins = builtins, pl_key_manager = km\<rparr>"

subsection \<open>Ingesting a particle\<close>

definition plumber_ingest ::
    "u64 \<Rightarrow> particle \<Rightarrow> service_function option \<Rightarrow> peer_id \<Rightarrow>
     ('rt, 'k, 'b) plumber \<Rightarrow> ('rt, 'k, 'b) plumber" where
  "plumber_ingest now_ms p function scope_peer_id pl =
     (if deadline_is_expired (deadline_from p) now_ms then
        pl\<lparr>pl_events := pl_events pl @ [Inl (ParticleExpired (pt_id p))]\<rparr>
      else
        (let key = (pt_id p, scope_peer_id);
             a = (case map_of (pl_actors pl) key of
                    Some a \<Rightarrow> a
                  | None \<Rightarrow> actor_new p (functions_new (clone_from p)) scope_peer_id);
             a' = actor_ingest p a;
             a'' = (case function of Some f \<Rightarrow> actor_set_function f a' | None \<Rightarrow> a')
         in pl\<lparr>pl_actors := AList.update key a'' (pl_actors pl)\<rparr>))"

definition plumber_add_service ::
    "(string \<Rightarrow> (string \<rightharpoonup> service_function) \<Rightarrow> service_function option \<Rightarrow> 'b \<Rightarrow> 'b) \<Rightarrow>
     string \<Rightarrow> (string \<rightharpoonup> service_function) \<Rightarrow> service_function option \<Rightarrow>
     ('rt, 'k, 'b) plumber \<Rightarrow> ('rt, 'k, 'b) plumber" where
  "plumber_add_service ext service fs unhandled pl =
     pl\<lparr>pl_builtins := ext service fs unhandled (pl_builtins pl)\<rparr>"

definition plumber_remove_service ::
    "(string \<Rightarrow> 'b \<Rightarrow> 'b) \<Rightarrow> string \<Rightarrow> ('rt, 'k, 'b) plumber \<Rightarrow> ('rt, 'k, 'b) plumber" where
  "plumber_remove_service rem service pl = pl\<lparr>pl_builtins := rem service (pl_builtins pl)\<rparr>"

subsection \<open>Polling\<close>

record ('rt, 'e) poll_env =
  ev_created :: "nat \<Rightarrow> ('e + 'rt) option"
  ev_vm_ready :: "actor_key \<Rightarrow> bool"
  ev_calls_completed :: "actor_key \<Rightarrow> completion list"
  ev_calls_next :: "actor_key \<Rightarrow> completion list"
  ev_now :: u64
  ev_now_ingest :: "nat \<Rightarrow> u64"

text \<open>Local and remote parts of the effects of one finished interpretation.\<close>

definition split_effects ::
    "'k key_manager \<Rightarrow> routing_effects \<Rightarrow> routing_effects list \<times> routing_effects list" where
  "split_effects km eff =
     (let local_peers = filter (is_scope_peer_id km) (re_next_peers eff);
          remote_peers = filter (\<lambda>p. \<not> is_scope_peer_id km p) (re_next_peers eff)
      in (if remote_peers = [] then [] else [\<lparr>re_particle = re_particle eff, re_next_peers = remote_peers\<rparr>],
          if local_peers = [] then [] else [\<lparr>re_particle = re_particle eff, re_next_peers = local_peers\<rparr>]))"

text \<open>First pass: gather effects and put runtimes back.\<close>

fun gather_completed ::
    "('rt, 'e) runtime_api \<Rightarrow> render \<Rightarrow> ('rt, 'e) poll_env \<Rightarrow> 'k key_manager \<Rightarrow>
     (actor_key \<times> 'rt actor) list \<Rightarrow> 'rt vm_pool \<Rightarrow>
     ((actor_key \<times> 'rt actor) list \<times> 'rt vm_pool \<times> routing_effects list \<times> routing_effects list) option" where
  "gather_completed R render env km [] pool = Some ([], pool, [], [])"
| "gather_completed R render env km ((key, a) # as) pool =
     (case poll_completed R render (ev_calls_completed env key) (ev_vm_ready env key) a of
        (Some result, a') \<Rightarrow>
          (case put_vm (fst (fr_vm result)) (snd (fr_vm result)) pool of
             None \<Rightarrow> None
           | Some pool' \<Rightarrow>
               (case gather_completed R render env km as pool' of
                  None \<Rightarrow> None
                | Some (as', pool'', remote, local) \<Rightarrow>
                    Some ((key, a') # as', pool'', fst (split_effects km (fr_effects result)) @ remote,
                          snd (split_effects km (fr_effects result)) @ local)))
      | (None, a') \<Rightarrow>
          (case gather_completed R render env km as pool of
             None \<Rightarrow> None
           | Some (as', pool'', remote, local) \<Rightarrow> Some ((key, a') # as', pool'', remote, local)))"

text \<open>Removal of expired actors, which needs a runtime to clean up with.\<close>

fun retain_live ::
    "('rt, 'e) runtime_api \<Rightarrow> u64 \<Rightarrow> (actor_key \<times> 'rt actor) list \<Rightarrow> 'rt \<Rightarrow>
     (actor_key \<times> 'rt actor) list \<times> 'rt" where
  "retain_live R now [] vm = ([], vm)"
| "retain_live R now ((key, a) # as) vm =
     (if \<not> actor_is_expired now a \<or> is_executing a
      then (let (as', vm') = retain_live R now as vm in ((key, a) # as', vm'))
      else retain_live R now as (actor_cleanup R (fst key) vm))"

definition reap_expired ::
    "('rt, 'e) runtime_api \<Rightarrow> u64 \<Rightarrow> (actor_key \<times> 'rt actor) list \<Rightarrow> 'rt vm_pool \<Rightarrow>
     ((actor_key \<times> 'rt actor) list \<times> 'rt vm_pool) option" where
  "reap_expired R now as pool =
     (case get_vm pool of
        (Some (vm_id, vm), pool') \<Rightarrow>
          (let (as', vm') = retain_live R now as vm
           in map_option (\<lambda>pool''. (as', pool'')) (put_vm vm_id vm' pool'))
      | (None, pool') \<Rightarrow> Some (as, pool'))"

text \<open>Second pass: give runtimes to the actors until none is free.\<close>

fun execute_next ::
    "render \<Rightarrow> ('rt, 'e) poll_env \<Rightarrow> (actor_key \<times> 'rt actor) list \<Rightarrow> 'rt vm_pool \<Rightarrow>
     ((actor_key \<times> 'rt actor) list \<times> 'rt vm_pool) option" where
  "execute_next render env [] pool = Some ([], pool)"
| "execute_next render env ((key, a) # as) pool =
     (case get_vm pool of
        (None, pool') \<Rightarrow> Some ((key, a) # as, pool')
      | (Some (vm_id, vm), pool') \<Rightarrow>
          (case poll_next render (ev_calls_next env key) vm_id vm a of
             (Vm i w, a') \<Rightarrow>
               (case put_vm i w pool' of
                  None \<Rightarrow> None
                | Some pool'' \<Rightarrow>
                    map_option (\<lambda>(as', q). ((key, a') # as', q)) (execute_next render env as pool''))
           | (Executing stats, a') \<Rightarrow>
               map_option (\<lambda>(as', q). ((key, a') # as', q)) (execute_next render env as pool')))"

fun ingest_local ::
    "(nat \<Rightarrow> u64) \<Rightarrow> nat \<Rightarrow> (particle \<times> peer_id) list \<Rightarrow> ('rt, 'k, 'b) plumber \<Rightarrow> ('rt, 'k, 'b) plumber" where
  "ingest_local now i [] pl = pl"
| "ingest_local now i ((p, peer) # ps) pl = ingest_local now (Suc i) ps (plumber_ingest (now i) p None peer pl)"

definition local_targets :: "routing_effects list \<Rightarrow> (particle \<times> peer_id) list" where
  "local_targets effs = concat (map (\<lambda>e. map (\<lambda>peer. (re_particle e, peer)) (re_next_peers e)) effs)"

definition pop_event ::
    "('rt, 'k, 'b) plumber \<Rightarrow>
     (aquamarine_api_error + routing_effects) option \<times> ('rt, 'k, 'b) plumber" where
  "pop_event pl =
     (case pl_events pl of [] \<Rightarrow> (None, pl) | e # es \<Rightarrow> (Some e, pl\<lparr>pl_events := es\<rparr>))"

text \<open>\<^verbatim>\<open>Plumber::poll\<close> after its event queue was found empty.\<close>

definition plumber_work ::
    "('rt, 'e) runtime_api \<Rightarrow> render \<Rightarrow> ('rt, 'e) poll_env \<Rightarrow> ('rt, 'k, 'b) plumber \<Rightarrow>
     ('rt, 'k, 'b) plumber option" where
  "plumber_work R render env pl =
     (case gather_completed R render env (pl_key_manager pl) (pl_actors pl) (pl_vm_pool pl) of
        None \<Rightarrow> None
      | Some (as1, pool1, remote, local) \<Rightarrow>
          (case reap_expired R (ev_now env) as1 pool1 of
             None \<Rightarrow> None
           | Some (as2, pool2) \<Rightarrow>
               (case execute_next render env as2 pool2 of
                  None \<Rightarrow> None
                | Some (as3, pool3) \<Rightarrow>
                    (let pl' = ingest_local (ev_now_ingest env) 0 (local_targets local)
                                 (pl\<lparr>pl_actors := as3, pl_vm_pool := pool3\<rparr>)
                     in Some (pl'\<lparr>pl_events := pl_events pl' @ map Inr remote\<rparr>)))))"

definition plumber_poll ::
    "('rt, 'e) runtime_api \<Rightarrow> render \<Rightarrow> ('rt, 'e) poll_env \<Rightarrow> ('rt, 'k, 'b) plumber \<Rightarrow>
     ((aquamarine_api_error + routing_effects) option \<times> ('rt, 'k, 'b) plumber) option" where
  "plumber_poll R render env pl =
     (case vm_pool_poll (ev_created env) (pl_vm_pool pl) of
        None \<Rightarrow> None
      | Some pool \<Rightarrow>
          (let pl1 = pl\<lparr>pl_vm_pool := pool\<rparr> in
           if pl_events pl1 \<noteq> [] then Some (pop_event pl1)
           else map_option pop_event (plumber_work R render env pl1)))"

subsection \<open>The backend\<close>

datatype aqua_command =
    IngestCmd particle "service_function option"
  | AddServiceCmd string "string \<rightharpoonup> service_function" "service_function option"
  | RemoveServiceCmd string

record ('rt, 'k, 'b) backend =
  bk_plumber :: "('rt, 'k, 'b) plumber"
  bk_out :: "(aquamarine_api_error + routing_effects) list"
  bk_host_peer_id :: peer_id

definition backend_new :: "nat \<Rightarrow> 'b \<Rightarrow> 'k key_manager \<Rightarrow> ('rt, 'k, 'b) backend" where
  "backend_new n builtins km =
     \<lparr>bk_plumber = plumber_new (vm_pool_new n) builtins km, bk_out = [],
      bk_host_peer_id = km_host_peer_id km\<rparr>"

record 'b builtins_api =
  ba_extend :: "string \<Rightarrow> (string \<rightharpoonup> service_function) \<Rightarrow> service_function option \<Rightarrow> 'b \<Rightarrow> 'b"
  ba_remove :: "string \<Rightarrow> 'b \<Rightarrow> 'b"

fun backend_command ::
    "'b builtins_api \<Rightarrow> u64 \<times> aqua_command \<Rightarrow> ('rt, 'k, 'b) backend \<Rightarrow> ('rt, 'k, 'b) backend" where
  "backend_command B (now, IngestCmd p f) bk =
     bk\<lparr>bk_plumber := plumber_ingest now p f (bk_host_peer_id bk) (bk_plumber bk)\<rparr>"
| "backend_command B (now, AddServiceCmd s fs u) bk =
     bk\<lparr>bk_plumber := plumber_add_service (ba_extend B) s fs u (bk_plumber bk)\<rparr>"
| "backend_command B (now, RemoveServiceCmd s) bk =
     bk\<lparr>bk_plumber := plumber_remove_service (ba_remove B) s (bk_plumber bk)\<rparr>"

text \<open>The loop \<^verbatim>\<open>while let Ready(effects) = plumber.poll()\<close>, one environment per poll. The flag says
  whether the loop ended by a pending poll, rather than by running out of environments.\<close>

fun backend_drain ::
    "('rt, 'e) runtime_api \<Rightarrow> render \<Rightarrow> ('rt, 'e) poll_env list \<Rightarrow> ('rt, 'k, 'b) backend \<Rightarrow>
     (bool \<times> ('rt, 'k, 'b) backend) option" where
  "backend_drain R render [] bk = Some (False, bk)"
| "backend_drain R render (env # envs) bk =
     (case plumber_poll R render env (bk_plumber bk) of
        None \<Rightarrow> None
      | Some (Some eff, pl) \<Rightarrow>
          backend_drain R render envs (bk\<lparr>bk_plumber := pl, bk_out := bk_out bk @ [eff]\<rparr>)
      | Some (None, pl) \<Rightarrow> Some (True, bk\<lparr>bk_plumber := pl\<rparr>))"

definition backend_poll ::
    "'b builtins_api \<Rightarrow> ('rt, 'e) runtime_api \<Rightarrow> render \<Rightarrow> (u64 \<times> aqua_command) list \<Rightarrow>
     ('rt, 'e) poll_env list \<Rightarrow> ('rt, 'k, 'b) backend \<Rightarrow> (bool \<times> ('rt, 'k, 'b) backend) option" where
  "backend_poll B R render cmds envs bk = backend_drain R render envs (fold (backend_command B) cmds bk)"

subsection \<open>Who holds which runtime\<close>

definition vm_ids :: "(actor_key \<times> 'rt actor) list \<Rightarrow> nat list" where
  "vm_ids as = concat (map (actor_vm_ids \<circ> snd) as)"

lemma vm_ids_simps [simp]:
  "vm_ids [] = []" "vm_ids ((key, a) # as) = actor_vm_ids a @ vm_ids as"
  by (simp_all add: vm_ids_def)

definition pool_frame :: "'rt vm_pool \<Rightarrow> 'rt vm_pool \<Rightarrow> bool" where
  "pool_frame p p' \<longleftrightarrow> creating_runtimes p' = creating_runtimes p \<and> pool_size p' = pool_size p \<and>
     free_vms p' = free_vms p"

lemma pool_frame_refl [simp]: "pool_frame p p"
  by (simp add: pool_frame_def)

lemma pool_frame_trans: "pool_frame p q \<Longrightarrow> pool_frame q r \<Longrightarrow> pool_frame p r"
  by (simp add: pool_frame_def)

lemma pool_frame_put: "put_vm i v p = Some p' \<Longrightarrow> pool_frame p p'"
  by (auto simp: pool_frame_def put_vm_def free_vms_def split: if_splits)

lemma pool_frame_get: "get_vm p = (r, p') \<Longrightarrow> pool_frame p p'"
proof -
  assume got: "get_vm p = (r, p')"
  then have "free_vms p' = free_vms p" using vp.get_None vp.get_Some by (cases r) fastforce+
  with got show ?thesis by (auto simp: pool_frame_def get_vm_def split: prod.splits)
qed

text \<open>\<open>keeps\<close>: a phase of the poll moved runtimes between the pool and the actors, losing none.\<close>

definition keeps ::
    "nat list \<Rightarrow> (actor_key \<times> 'rt actor) list \<Rightarrow> 'rt vm_pool \<Rightarrow>
     (actor_key \<times> 'rt actor) list \<Rightarrow> 'rt vm_pool \<Rightarrow> bool" where
  "keeps rest as p as' p' \<longleftrightarrow> pool_frame p p' \<and> (\<forall>i\<in>set (vm_ids as'). i < free_vms p) \<and>
     (vp.held p (vm_ids as @ rest) \<longrightarrow> vp.held p' (vm_ids as' @ rest) \<and>
        vm_count p' + length (vm_ids as') = vm_count p + length (vm_ids as))"

lemma keeps_trans: "keeps rest as p bs q \<Longrightarrow> keeps rest bs q cs r \<Longrightarrow> keeps rest as p cs r"
  by (auto simp: keeps_def pool_frame_def)

lemma put_vm_in_range: "i < free_vms p \<Longrightarrow> \<exists>p'. put_vm i v p = Some p'"
  by (simp add: put_vm_def free_vms_def)

lemma gather_completed_keeps:
  "\<forall>i\<in>set (vm_ids as). i < free_vms pool \<Longrightarrow>
   \<exists>as' pool' remote local. gather_completed R render env km as pool = Some (as', pool', remote, local) \<and>
     keeps rest as pool as' pool' \<and>
     map (\<lambda>(k, a). (k, ac_deadline a)) as' = map (\<lambda>(k, a). (k, ac_deadline a)) as"
proof (induction as arbitrary: pool rest)
  case Nil
  show ?case by (simp add: keeps_def)
next
  case (Cons ka as)
  obtain key a where ka: "ka = (key, a)" by (cases ka)
  obtain r a' where poll: "poll_completed R render (ev_calls_completed env key) (ev_vm_ready env key) a = (r, a')"
    by fastforce
  show ?case
  proof (cases r)
    case None
    note unchanged = poll_completed_None [OF poll [unfolded None]]
    from Cons.IH [of pool "actor_vm_ids a @ rest"] Cons.prems ka obtain as' pool' remote local where
      g: "gather_completed R render env km as pool = Some (as', pool', remote, local)"
      "keeps (actor_vm_ids a @ rest) as pool as' pool'"
      "map (\<lambda>(k, a). (k, ac_deadline a)) as' = map (\<lambda>(k, a). (k, ac_deadline a)) as" by auto
    have "mset (xs @ actor_vm_ids a @ rest) = mset ((actor_vm_ids a @ xs) @ rest)" for xs by simp
    note perm = vp.held_perm [OF this]
    have "keeps rest (ka # as) pool ((key, a') # as') pool'"
      using g(2) Cons.prems unchanged perm unfolding keeps_def ka by auto
    with g poll None ka unchanged show ?thesis by simp
  next
    case (Some res)
    note fin = poll_completed_Some [OF poll [unfolded Some]]
    let ?i = "fst (fr_vm res)"
    obtain pool1 where put: "put_vm ?i (snd (fr_vm res)) pool = Some pool1"
      using put_vm_in_range Cons.prems fin(1) ka by force
    note frame = pool_frame_put [OF put]
    from Cons.IH [of pool1 rest] Cons.prems ka frame obtain as' pool' remote local where
      g: "gather_completed R render env km as pool1 = Some (as', pool', remote, local)"
      "keeps rest as pool1 as' pool'"
      "map (\<lambda>(k, a). (k, ac_deadline a)) as' = map (\<lambda>(k, a). (k, ac_deadline a)) as"
      by (auto simp: pool_frame_def)
    have "keeps rest (ka # as) pool ((key, a') # as') pool'"
      using g(2) frame vp.held_put [of pool ?i "vm_ids as @ rest" "snd (fr_vm res)"] put
      unfolding keeps_def ka by (auto simp: fin pool_frame_def)
    with g poll put Some ka fin show ?thesis by simp
  qed
qed

lemma retain_live_filter:
  "fst (retain_live R now as vm) = filter (\<lambda>(k, a). \<not> actor_is_expired now a \<or> is_executing a) as"
  by (induction R now as vm rule: retain_live.induct) (auto split: prod.splits)

lemma vm_ids_filter_live:
  "vm_ids (filter (\<lambda>(k, a). \<not> actor_is_expired now a \<or> is_executing a) as) = vm_ids as"
  by (induction as) (auto simp: is_executing_iff)

lemma reap_expired_keeps:
  assumes "\<forall>i\<in>set (vm_ids as). i < free_vms pool"
  shows "\<exists>as' pool'. reap_expired R now as pool = Some (as', pool') \<and> keeps rest as pool as' pool' \<and>
     (as' = filter (\<lambda>(k, a). \<not> actor_is_expired now a \<or> is_executing a) as \<or> as' = as \<and> vm_count pool = 0)"
proof -
  obtain r pool1 where got: "get_vm pool = (r, pool1)" by fastforce
  show ?thesis
  proof (cases r)
    case None
    with vp.get_None [of pool pool1] got have "pool1 = pool" and empty: "\<forall>i. vm_slot pool i = None" by auto
    have "vm_count pool = 0"
      using empty by (auto simp: vm_count_def filter_empty_conv vm_slot_def in_set_conv_nth split: if_splits)
    with \<open>pool1 = pool\<close> got None assms show ?thesis by (simp add: reap_expired_def keeps_def)
  next
    case (Some iv)
    obtain i vm where iv: "iv = (i, vm)" by (cases iv)
    have got': "get_vm pool = (Some (i, vm), pool1)" using got Some iv by simp
    let ?as = "filter (\<lambda>(k, a). \<not> actor_is_expired now a \<or> is_executing a) as"
    obtain vm' where live: "retain_live R now as vm = (?as, vm')"
      using retain_live_filter [of R now as vm] by (metis prod.collapse)
    note frame = pool_frame_get [OF got']
    have "i < free_vms pool1"
      using vp.get_Some [OF got'] vp.slot_range [of pool i vm] by simp
    from put_vm_in_range [OF this] obtain pool2 where put: "put_vm i vm' pool1 = Some pool2" by blast
    have "pool_frame pool pool2" using frame pool_frame_put [OF put] by (rule pool_frame_trans)
    moreover have "vp.held pool2 (vm_ids as @ rest) \<and> vm_count pool2 = vm_count pool"
      if "vp.held pool (vm_ids as @ rest)"
      using vp.held_get_put [OF that got', of vm'] put by auto
    ultimately have "keeps rest as pool ?as pool2"
      using assms unfolding keeps_def vm_ids_filter_live by auto
    with got' live put show ?thesis by (auto simp: reap_expired_def)
  qed
qed

lemma execute_next_keeps:
  "\<forall>i\<in>set (vm_ids as). i < free_vms pool \<Longrightarrow>
   \<exists>as' pool'. execute_next render env as pool = Some (as', pool') \<and> keeps rest as pool as' pool' \<and>
     map (\<lambda>(k, a). (k, ac_deadline a)) as' = map (\<lambda>(k, a). (k, ac_deadline a)) as"
proof (induction as arbitrary: pool rest)
  case Nil
  show ?case by (simp add: keeps_def)
next
  case (Cons ka as)
  obtain key a where ka: "ka = (key, a)" by (cases ka)
  obtain r pool1 where got: "get_vm pool = (r, pool1)" by fastforce
  note frame = pool_frame_get [OF got]
  show ?case
  proof (cases r)
    case None
    with vp.get_None [of pool pool1] got ka Cons.prems show ?thesis by (simp add: keeps_def)
  next
    case (Some iv)
    obtain i vm where iv: "iv = (i, vm)" by (cases iv)
    have got': "get_vm pool = (Some (i, vm), pool1)" using got Some iv by simp
    obtain out a' where poll: "poll_next render (ev_calls_next env key) i vm a = (out, a')" by fastforce
    show ?thesis
    proof (cases out)
      case (Vm j w)
      note same = poll_next_Vm [OF poll [unfolded Vm]]
      have put: "put_vm j w pool1 = Some pool" using get_vm_SomeD(1) [OF got'] same(1,2) by simp
      from Cons.IH [of pool "actor_vm_ids a @ rest"] Cons.prems ka obtain as' pool' where
        g: "execute_next render env as pool = Some (as', pool')" "keeps (actor_vm_ids a @ rest) as pool as' pool'"
        "map (\<lambda>(k, a). (k, ac_deadline a)) as' = map (\<lambda>(k, a). (k, ac_deadline a)) as" by auto
      have "mset (xs @ actor_vm_ids a @ rest) = mset ((actor_vm_ids a @ xs) @ rest)" for xs by simp
      note perm = vp.held_perm [OF this]
      have "keeps rest (ka # as) pool ((key, a') # as') pool'"
        using g(2) Cons.prems same perm unfolding keeps_def ka by auto
      with g poll put Vm ka got' same show ?thesis by simp
    next
      case (Executing st)
      note busy = poll_next_Executing [OF poll [unfolded Executing]]
      have i: "i < free_vms pool" using vp.get_Some [OF got'] vp.slot_range [of pool i vm] by simp
      from Cons.IH [of pool1 "i # rest"] Cons.prems ka frame busy obtain as' pool' where
        g: "execute_next render env as pool1 = Some (as', pool')" "keeps (i # rest) as pool1 as' pool'"
        "map (\<lambda>(k, a). (k, ac_deadline a)) as' = map (\<lambda>(k, a). (k, ac_deadline a)) as"
        by (auto simp: pool_frame_def)
      have "mset (xs @ i # rest) = mset (i # xs @ rest)" for xs by simp
      note perm = vp.held_perm [OF this]
      have "vp.held pool (vm_ids as @ rest) \<Longrightarrow> vp.held pool1 (vm_ids as @ i # rest)"
        using vp.held_get [OF _ got'] perm by blast
      with g(2) frame busy i have "keeps rest (ka # as) pool ((key, a') # as') pool'"
        using vp.get_total [OF got'] perm unfolding keeps_def ka by (auto simp: pool_frame_def)
      with g poll Executing ka got' busy show ?thesis by simp
    qed
  qed
qed

text \<open>Ingesting changes neither the pool nor which actor holds which runtime.\<close>

lemma vm_ids_update:
  "actor_vm_ids a = (case map_of as key of None \<Rightarrow> [] | Some b \<Rightarrow> actor_vm_ids b) \<Longrightarrow>
   vm_ids (AList.update key a as) = vm_ids as"
  by (induction as) auto

lemma plumber_ingest_frame:
  "vm_ids (pl_actors (plumber_ingest now p f peer pl)) = vm_ids (pl_actors pl)"
  "pl_vm_pool (plumber_ingest now p f peer pl) = pl_vm_pool pl"
  "distinct (map fst (pl_actors pl)) \<Longrightarrow> distinct (map fst (pl_actors (plumber_ingest now p f peer pl)))"
  "fst ` set (pl_actors pl) \<subseteq> fst ` set (pl_actors (plumber_ingest now p f peer pl))"
  "pl_key_manager (plumber_ingest now p f peer pl) = pl_key_manager pl"
  by (auto simp: plumber_ingest_def Let_def actor_vm_ids_def actor_ingest_def actor_set_function_def
      actor_new_def dom_update intro!: vm_ids_update distinct_update split: option.splits)

lemma ingest_local_frame:
  "vm_ids (pl_actors (ingest_local now i ps pl)) = vm_ids (pl_actors pl) \<and>
   pl_vm_pool (ingest_local now i ps pl) = pl_vm_pool pl"
  by (induction now i ps pl rule: ingest_local.induct) (simp_all add: plumber_ingest_frame)

lemma ingest_local_distinct:
  "distinct (map fst (pl_actors pl)) \<Longrightarrow> distinct (map fst (pl_actors (ingest_local now i ps pl)))"
  by (induction now i ps pl rule: ingest_local.induct) (simp_all add: plumber_ingest_frame)

lemma ingest_local_keys:
  "key \<in> fst ` set (pl_actors pl) \<Longrightarrow> key \<in> fst ` set (pl_actors (ingest_local now i ps pl))"
proof (induction now i ps pl rule: ingest_local.induct)
  case (2 now i p peer ps pl)
  then have "key \<in> fst ` set (pl_actors (plumber_ingest (now i) p None peer pl))"
    using plumber_ingest_frame(4) by blast
  with "2.IH" show ?case by simp
qed simp

subsection \<open>Invariant\<close>

definition plumber_wf :: "('rt, 'k, 'b) plumber \<Rightarrow> bool" where
  "plumber_wf pl \<longleftrightarrow> vm_pool_wf (pl_vm_pool pl) \<and> distinct (map fst (pl_actors pl)) \<and>
     (\<forall>i\<in>set (vm_ids (pl_actors pl)). i < free_vms (pl_vm_pool pl))"

text \<open>All runtimes were created, and no runtime that an actor holds is in the pool.\<close>

definition plumber_settled :: "('rt, 'k, 'b) plumber \<Rightarrow> bool" where
  "plumber_settled pl \<longleftrightarrow> creating_runtimes (pl_vm_pool pl) = Some [] \<and>
     vp.held (pl_vm_pool pl) (vm_ids (pl_actors pl))"

definition vm_total :: "('rt, 'k, 'b) plumber \<Rightarrow> nat" where
  "vm_total pl = vm_count (pl_vm_pool pl) + length (vm_ids (pl_actors pl))"

lemma vm_pool_wf_frame: "vm_pool_wf p \<Longrightarrow> pool_frame p p' \<Longrightarrow> vm_pool_wf p'"
  by (simp add: vm_pool_wf_def pool_frame_def free_vms_def)

lemma plumber_work_keeps:
  assumes "plumber_wf pl"
  shows "\<exists>pl'. plumber_work R render env pl = Some pl' \<and> plumber_wf pl' \<and>
     keeps [] (pl_actors pl) (pl_vm_pool pl) (pl_actors pl') (pl_vm_pool pl') \<and>
     (\<forall>(key, a) \<in> set (pl_actors pl). \<not> actor_is_expired (ev_now env) a \<longrightarrow> key \<in> fst ` set (pl_actors pl'))"
proof -
  let ?dl = "\<lambda>as :: (actor_key \<times> 'a actor) list. map (\<lambda>(k, a). (k, ac_deadline a)) as"
  let ?live = "\<lambda>(k, a). \<not> actor_is_expired (ev_now env) a \<or> is_executing a"
  have wf: "\<forall>i\<in>set (vm_ids (pl_actors pl)). i < free_vms (pl_vm_pool pl)" "distinct (map fst (pl_actors pl))"
    "vm_pool_wf (pl_vm_pool pl)" using assms by (simp_all add: plumber_wf_def)
  have keys: "map fst as = map fst bs" if "?dl as = ?dl bs" for as bs
    using arg_cong [OF that, of "map fst"] by (simp add: comp_def case_prod_beta)
  obtain as1 pool1 remote local where
    g: "gather_completed R render env (pl_key_manager pl) (pl_actors pl) (pl_vm_pool pl) = Some (as1, pool1, remote, local)"
    and k1: "keeps [] (pl_actors pl) (pl_vm_pool pl) as1 pool1" and d1: "?dl as1 = ?dl (pl_actors pl)"
    using gather_completed_keeps [OF wf(1), of R render env "pl_key_manager pl" "[]"] by blast
  have "\<forall>i\<in>set (vm_ids as1). i < free_vms pool1" using k1 by (simp add: keeps_def pool_frame_def)
  from reap_expired_keeps [OF this, of R "ev_now env" "[]"] obtain as2 pool2 where
    r: "reap_expired R (ev_now env) as1 pool1 = Some (as2, pool2)"
    and k2: "keeps [] as1 pool1 as2 pool2" and d2: "as2 = filter ?live as1 \<or> as2 = as1" by blast
  have "\<forall>i\<in>set (vm_ids as2). i < free_vms pool2" using k2 by (simp add: keeps_def pool_frame_def)
  from execute_next_keeps [OF this, of render env "[]"] obtain as3 pool3 where
    e: "execute_next render env as2 pool2 = Some (as3, pool3)"
    and k3: "keeps [] as2 pool2 as3 pool3" and d3: "?dl as3 = ?dl as2" by blast
  have k: "keeps [] (pl_actors pl) (pl_vm_pool pl) as3 pool3" using k1 k2 k3 by (blast intro: keeps_trans)
  let ?pl3 = "pl\<lparr>pl_actors := as3, pl_vm_pool := pool3\<rparr>"
  let ?pl4 = "ingest_local (ev_now_ingest env) 0 (local_targets local) ?pl3"
  let ?pl' = "?pl4\<lparr>pl_events := pl_events ?pl4 @ map Inr remote\<rparr>"
  have dist3: "distinct (map fst as3)"
    using wf(2) keys [OF d1] keys [OF d3] d2 by (auto intro: distinct_map_filter)
  have "plumber_wf ?pl'"
    using k dist3 vm_pool_wf_frame [OF wf(3)]
    by (simp add: plumber_wf_def ingest_local_frame ingest_local_distinct keeps_def)
       (simp add: pool_frame_def)
  moreover have "keeps [] (pl_actors pl) (pl_vm_pool pl) (pl_actors ?pl') (pl_vm_pool ?pl')"
    using k by (simp add: ingest_local_frame keeps_def)
  moreover have "key \<in> fst ` set (pl_actors ?pl')"
    if a: "(key, a) \<in> set (pl_actors pl)" "\<not> actor_is_expired (ev_now env) a" for key a
  proof -
    from a(1) have "(key, ac_deadline a) \<in> set (?dl as1)" unfolding d1 by force
    then obtain b where b: "(key, b) \<in> set as1" "ac_deadline b = ac_deadline a" by auto
    with a(2) have "(key, b) \<in> set as2" using d2 by (auto simp: actor_is_expired_def)
    then have "key \<in> fst ` set as3" using keys [OF d3] by (metis fst_conv image_eqI list.set_map)
    then show ?thesis using ingest_local_keys [of key ?pl3] by simp
  qed
  ultimately show ?thesis using g r e by (auto simp: plumber_work_def Let_def)
qed

lemma vm_pool_poll_settled:
  "creating_runtimes p = Some [] \<Longrightarrow> vm_pool_poll ready p = Some p"
  by (simp add: vm_pool_poll_def vm_poll_loop.simps)

lemma pop_event_frame:
  "pl_actors (snd (pop_event pl)) = pl_actors pl" "pl_vm_pool (snd (pop_event pl)) = pl_vm_pool pl"
  by (simp_all add: pop_event_def split: list.splits)

lemma plumber_poll_pool:
  assumes "plumber_wf pl"
  shows "\<exists>pool. vm_pool_poll (ev_created env) (pl_vm_pool pl) = Some pool \<and>
     plumber_wf (pl\<lparr>pl_vm_pool := pool\<rparr>) \<and> pool_size pool = pool_size (pl_vm_pool pl)"
proof -
  from assms vm_pool_poll_total [of "pl_vm_pool pl" "ev_created env"] obtain pool where
    "vm_pool_poll (ev_created env) (pl_vm_pool pl) = Some pool" "vm_pool_wf pool"
    "pool_size pool = pool_size (pl_vm_pool pl)" by (auto simp: plumber_wf_def)
  with assms show ?thesis by (auto simp: plumber_wf_def vm_pool_wf_def free_vms_def)
qed

lemma plumber_poll_wf:
  assumes "plumber_wf pl"
  shows "\<exists>out pl'. plumber_poll R render env pl = Some (out, pl') \<and> plumber_wf pl' \<and>
     pool_size (pl_vm_pool pl') = pool_size (pl_vm_pool pl) \<and>
     (\<forall>(key, a) \<in> set (pl_actors pl). \<not> actor_is_expired (ev_now env) a \<longrightarrow> key \<in> fst ` set (pl_actors pl')) \<and>
     (plumber_settled pl \<longrightarrow> plumber_settled pl' \<and> vm_total pl' = vm_total pl)"
proof -
  from plumber_poll_pool [OF assms] obtain pool where
    pool: "vm_pool_poll (ev_created env) (pl_vm_pool pl) = Some pool"
    "plumber_wf (pl\<lparr>pl_vm_pool := pool\<rparr>)" "pool_size pool = pool_size (pl_vm_pool pl)" by blast
  let ?pl = "pl\<lparr>pl_vm_pool := pool\<rparr>"
  have same: "pool = pl_vm_pool pl" if "plumber_settled pl"
    using that pool(1) by (simp add: plumber_settled_def vm_pool_poll_settled)
  show ?thesis
  proof (cases "pl_events pl = []")
    case False
    then have "plumber_poll R render env pl = Some (fst (pop_event ?pl), snd (pop_event ?pl))"
      using pool(1) by (simp add: plumber_poll_def)
    moreover have "plumber_wf (snd (pop_event ?pl))" using pool(2) by (simp add: plumber_wf_def pop_event_frame)
    moreover have "plumber_settled (snd (pop_event ?pl)) \<and> vm_total (snd (pop_event ?pl)) = vm_total pl"
      if "plumber_settled pl"
      using that same [OF that] by (simp add: plumber_settled_def vm_total_def pop_event_frame)
    moreover have "\<forall>(key, a) \<in> set (pl_actors pl). key \<in> fst ` set (pl_actors (snd (pop_event ?pl)))"
      by (simp add: pop_event_frame split_beta)
    moreover have "pool_size (pl_vm_pool (snd (pop_event ?pl))) = pool_size (pl_vm_pool pl)"
      using pool(3) by (simp add: pop_event_frame)
    ultimately show ?thesis by fast
  next
    case True
    from plumber_work_keeps [OF pool(2), of R render env] obtain pl1 where
      w: "plumber_work R render env ?pl = Some pl1" "plumber_wf pl1"
      "keeps [] (pl_actors pl) pool (pl_actors pl1) (pl_vm_pool pl1)"
      "\<forall>(key, a) \<in> set (pl_actors pl). \<not> actor_is_expired (ev_now env) a \<longrightarrow> key \<in> fst ` set (pl_actors pl1)"
      by auto
    have poll: "plumber_poll R render env pl = Some (fst (pop_event pl1), snd (pop_event pl1))"
      using pool(1) w(1) True by (simp add: plumber_poll_def)
    have "plumber_wf (snd (pop_event pl1))" using w(2) by (simp add: plumber_wf_def pop_event_frame)
    moreover have "plumber_settled (snd (pop_event pl1)) \<and> vm_total (snd (pop_event pl1)) = vm_total pl"
      if "plumber_settled pl"
      using that w(3) same [OF that]
      by (simp add: plumber_settled_def vm_total_def pop_event_frame keeps_def pool_frame_def)
    moreover have "pool_size (pl_vm_pool (snd (pop_event pl1))) = pool_size (pl_vm_pool pl)"
      using w(3) pool(3) by (simp add: pop_event_frame keeps_def pool_frame_def)
    moreover have "\<forall>(key, a) \<in> set (pl_actors pl). \<not> actor_is_expired (ev_now env) a \<longrightarrow>
        key \<in> fst ` set (pl_actors (snd (pop_event pl1)))" using w(4) by (simp add: pop_event_frame)
    ultimately show ?thesis using poll by fast
  qed
qed

lemma backend_drain_wf:
  "plumber_wf (bk_plumber bk) \<Longrightarrow>
   \<exists>fin bk'. backend_drain R render envs bk = Some (fin, bk') \<and> plumber_wf (bk_plumber bk') \<and>
     pool_size (pl_vm_pool (bk_plumber bk')) = pool_size (pl_vm_pool (bk_plumber bk))"
proof (induction envs arbitrary: bk)
  case (Cons env envs)
  from plumber_poll_wf [OF Cons.prems, of R render env] obtain out pl where
    poll: "plumber_poll R render env (bk_plumber bk) = Some (out, pl)" "plumber_wf pl"
    "pool_size (pl_vm_pool pl) = pool_size (pl_vm_pool (bk_plumber bk))" by blast
  show ?case
  proof (cases out)
    case (Some eff)
    with Cons.IH [of "bk\<lparr>bk_plumber := pl, bk_out := bk_out bk @ [eff]\<rparr>"] poll show ?thesis by simp
  qed (use poll in auto)
qed auto

lemma backend_command_wf:
  "plumber_wf (bk_plumber bk) \<Longrightarrow> plumber_wf (bk_plumber (backend_command B c bk)) \<and>
   pl_vm_pool (bk_plumber (backend_command B c bk)) = pl_vm_pool (bk_plumber bk)"
  by (induction B c bk rule: backend_command.induct)
     (simp_all add: plumber_wf_def plumber_ingest_frame plumber_add_service_def plumber_remove_service_def)

lemma backend_commands_wf:
  "plumber_wf (bk_plumber bk) \<Longrightarrow> plumber_wf (bk_plumber (fold (backend_command B) cmds bk)) \<and>
   pl_vm_pool (bk_plumber (fold (backend_command B) cmds bk)) = pl_vm_pool (bk_plumber bk)"
proof (induction cmds arbitrary: bk)
  case (Cons c cmds)
  with backend_command_wf [OF Cons.prems, of B c] show ?case by simp
qed simp

subsection \<open>Properties\<close>

fun backend_polls ::
    "'b builtins_api \<Rightarrow> ('rt, 'e) runtime_api \<Rightarrow> render \<Rightarrow>
     ((u64 \<times> aqua_command) list \<times> ('rt, 'e) poll_env list) list \<Rightarrow> ('rt, 'k, 'b) backend \<Rightarrow>
     ('rt, 'k, 'b) backend option" where
  "backend_polls B R render [] bk = Some bk"
| "backend_polls B R render ((cmds, envs) # rounds) bk =
     (case backend_poll B R render cmds envs bk of
        None \<Rightarrow> None
      | Some (_, bk') \<Rightarrow> backend_polls B R render rounds bk')"

lemma backend_polls_wf:
  "plumber_wf (bk_plumber bk) \<Longrightarrow>
   \<exists>bk'. backend_polls B R render rounds bk = Some bk' \<and> plumber_wf (bk_plumber bk') \<and>
     pool_size (pl_vm_pool (bk_plumber bk')) = pool_size (pl_vm_pool (bk_plumber bk))"
proof (induction rounds arbitrary: bk)
  case (Cons round rounds)
  obtain cmds envs where r: "round = (cmds, envs)" by (cases round)
  note cmds_wf = backend_commands_wf [OF Cons.prems, of B cmds]
  from backend_drain_wf [of "fold (backend_command B) cmds bk" R render envs] cmds_wf obtain fin bk1 where
    "backend_poll B R render cmds envs bk = Some (fin, bk1)" "plumber_wf (bk_plumber bk1)"
    "pool_size (pl_vm_pool (bk_plumber bk1)) = pool_size (pl_vm_pool (bk_plumber bk))"
    by (auto simp: backend_poll_def)
  with Cons.IH [of bk1] r show ?case by auto
qed simp



definition sample_plumber :: "(nat, nat, unit) plumber" where
  "sample_plumber = plumber_ingest 15 (sample_particle 10 20) None 3
     (plumber_new \<lparr>runtimes = [Some 100, None], creating_runtimes = Some [], pool_size = 2\<rparr> ()
        (key_manager_new sample_keypairs [] 1))"

definition sample_env :: "(nat, string) poll_env" where
  "sample_env = \<lparr>ev_created = (\<lambda>_. None), ev_vm_ready = (\<lambda>_. False), ev_calls_completed = (\<lambda>_. []),
     ev_calls_next = (\<lambda>_. []), ev_now = 16, ev_now_ingest = (\<lambda>_. 16)\<rparr>"

lemma sample_plumber_wf: "plumber_wf sample_plumber"
  by (simp add: plumber_wf_def sample_plumber_def plumber_ingest_frame plumber_new_def vm_pool_wf_def)

lemma sample_plumber_actors:
  "pl_actors sample_plumber = [((''p1'', 3), sample_actor)]" "vm_ids (pl_actors sample_plumber) = []"
  by (simp_all add: sample_plumber_def plumber_ingest_def plumber_new_def deadline_is_expired_def
      deadline_from_def sample_particle_def checked_add_def sample_actor_def actor_vm_ids_def
      actor_ingest_def actor_new_def)

lemma sample_plumber_pool:
  "pl_vm_pool sample_plumber = \<lparr>runtimes = [Some 100, None], creating_runtimes = Some [], pool_size = 2\<rparr>"
  by (simp add: sample_plumber_def plumber_ingest_frame plumber_new_def)


text \<open>C7 [live_actors_kept]: A poll removes no actor whose particle has not expired.\<close>

theorem live_actors_kept:
  assumes "plumber_wf pl" and "(key, a) \<in> set (pl_actors pl)" and "\<not> actor_is_expired (ev_now env) a"
  shows "\<exists>out pl'. plumber_poll R render env pl = Some (out, pl') \<and> key \<in> fst ` set (pl_actors pl')"
  using plumber_poll_wf [OF assms(1), of R render env] assms(2,3) by fastforce

theorem live_actors_kept_witness:
  "\<exists>out pl'. plumber_poll sample_runtime sample_render sample_env sample_plumber = Some (out, pl') \<and>
     (''p1'', 3) \<in> fst ` set (pl_actors pl')"
proof (rule live_actors_kept [OF sample_plumber_wf])
  show "((''p1'', 3), sample_actor) \<in> set (pl_actors sample_plumber)" by (simp add: sample_plumber_actors)
  show "\<not> actor_is_expired (ev_now sample_env) sample_actor"
    by (simp add: sample_actor_def actor_is_expired_def actor_ingest_def actor_new_def sample_env_def
        deadline_is_expired_def deadline_from_def sample_particle_def checked_add_def)
qed

text \<open>C8 [ingest_expired_or_enqueued]: Ingesting a particle whose deadline has passed only queues an expiry event naming it. Any
  other particle goes to the end of the mailbox of the actor of its id and scope, which is created
  on first use and otherwise keeps its running interpretation; no other actor changes, and the last
  function given for the particle is the one its host calls fall back to.\<close>

theorem ingest_expired_or_enqueued:
  "let pl' = plumber_ingest now p f peer pl; key = (pt_id p, peer) in
   if deadline_is_expired (deadline_from p) now
   then pl' = pl\<lparr>pl_events := pl_events pl @ [Inl (ParticleExpired (pt_id p))]\<rparr>
   else pl_events pl' = pl_events pl \<and> pl_vm_pool pl' = pl_vm_pool pl \<and>
     (\<forall>k. k \<noteq> key \<longrightarrow> map_of (pl_actors pl') k = map_of (pl_actors pl) k) \<and>
     (\<exists>a. map_of (pl_actors pl') key = Some a \<and>
        (case map_of (pl_actors pl) key of
           None \<Rightarrow> ac_mailbox a = [p] \<and> ac_future a = None \<and> ac_deadline a = deadline_from p \<and>
             ac_particle a = p\<lparr>pt_data := []\<rparr> \<and> ac_current_peer_id a = peer
         | Some b \<Rightarrow> ac_mailbox a = ac_mailbox b @ [p] \<and> ac_future a = ac_future b \<and>
             ac_deadline a = ac_deadline b \<and> ac_particle a = ac_particle b) \<and>
        (f \<noteq> None \<longrightarrow> particle_function (ac_functions a) = f))"
  by (auto simp: plumber_ingest_def Let_def actor_ingest_def actor_new_def actor_set_function_def
      functions_set_function_def split: option.splits)

theorem ingest_expired_or_enqueued_witness:
  "pl_events (plumber_ingest 31 (sample_particle 10 20) None 3 sample_plumber) =
     pl_events sample_plumber @ [Inl (ParticleExpired ''p1'')]"
  using ingest_expired_or_enqueued [of 31 "sample_particle 10 20" None 3 sample_plumber]
  by (simp add: Let_def deadline_is_expired_def deadline_from_def sample_particle_def checked_add_def)

text \<open>[effects_split_by_scope]: The next peers of a finished interpretation are split without loss or duplication: those
  that are scopes of this node are executed here, in order, and all others are sent out, in
  order, each set with the particle that the interpretation produced.\<close>

theorem effects_split_by_scope:
  "let (remote, local) = split_effects km eff in
   concat (map re_next_peers remote) = filter (\<lambda>p. \<not> is_scope_peer_id km p) (re_next_peers eff) \<and>
   local_targets local = map (\<lambda>p. (re_particle eff, p)) (filter (is_scope_peer_id km) (re_next_peers eff)) \<and>
   re_particle ` set remote \<subseteq> {re_particle eff} \<and>
   mset (concat (map re_next_peers remote)) + mset (map snd (local_targets local)) = mset (re_next_peers eff)"
proof -
  let ?remote = "filter (\<lambda>p. \<not> is_scope_peer_id km p) (re_next_peers eff)"
  let ?local = "filter (is_scope_peer_id km) (re_next_peers eff)"
  have "mset (filter (\<lambda>p. \<not> is_scope_peer_id km p) xs) + mset (filter (is_scope_peer_id km) xs) = mset xs" for xs
    by (induction xs) auto
  then have parts: "mset ?remote + mset ?local = mset (re_next_peers eff)" .
  have r: "concat (map re_next_peers (fst (split_effects km eff))) = ?remote"
    "re_particle ` set (fst (split_effects km eff)) \<subseteq> {re_particle eff}"
    by (auto simp: split_effects_def Let_def)
  have l: "local_targets (snd (split_effects km eff)) = map (\<lambda>p. (re_particle eff, p)) ?local"
    by (auto simp: split_effects_def local_targets_def Let_def)
  show ?thesis unfolding split_beta Let_def r(1) l using r(2) parts by (simp add: comp_def)
qed

lemma gather_quiet:
  "\<forall>key. \<not> ev_vm_ready env key \<Longrightarrow> gather_completed R render env km as pool = Some (as', pool', remote, local) \<Longrightarrow>
   remote = [] \<and> local = []"
proof (induction as arbitrary: as' pool' remote local)
  case (Cons ka as)
  obtain key a where ka: "ka = (key, a)" by (cases ka)
  have "ev_vm_ready env key = False" using Cons.prems(1) by blast
  then have "fst (poll_completed R render (ev_calls_completed env key) (ev_vm_ready env key) a) = None"
    by (simp add: poll_completed_def Let_def split: option.splits)
  with Cons.IH [OF Cons.prems(1)] Cons.prems(2) ka show ?case by (auto split: prod.splits option.splits)
qed simp

lemma plumber_work_quiet:
  assumes "\<forall>key. \<not> ev_vm_ready env key" and "plumber_work R render env pl = Some pl'"
  shows "pl_events pl' = pl_events pl"
proof -
  obtain as1 pool1 remote local where
    g: "gather_completed R render env (pl_key_manager pl) (pl_actors pl) (pl_vm_pool pl) = Some (as1, pool1, remote, local)"
    using assms(2) by (auto simp: plumber_work_def split: option.splits)
  from gather_quiet [OF assms(1) g] g assms(2) show ?thesis
    by (auto simp: plumber_work_def local_targets_def Let_def split: option.splits)
qed

lemma backend_drain_quiet:
  "plumber_wf (bk_plumber bk) \<Longrightarrow> \<forall>env\<in>set envs. \<forall>key. \<not> ev_vm_ready env key \<Longrightarrow>
   length (pl_events (bk_plumber bk)) < length envs \<Longrightarrow>
   \<exists>bk'. backend_drain R render envs bk = Some (True, bk') \<and>
     bk_out bk' = bk_out bk @ pl_events (bk_plumber bk) \<and> pl_events (bk_plumber bk') = []"
proof (induction envs arbitrary: bk)
  case (Cons env envs)
  from plumber_poll_wf [OF Cons.prems(1), of R render env] obtain out pl where
    poll: "plumber_poll R render env (bk_plumber bk) = Some (out, pl)" and wf: "plumber_wf pl" by blast
  show ?case
  proof (cases "pl_events (bk_plumber bk)")
    case (Cons e es)
    with poll have "out = Some e" "pl_events pl = es"
      by (auto simp: plumber_poll_def pop_event_def Let_def split: option.splits)
    with Cons.IH [of "bk\<lparr>bk_plumber := pl, bk_out := bk_out bk @ [e]\<rparr>"] wf Cons.prems(2,3) Cons poll
    show ?thesis by simp
  next
    case Nil
    obtain pool pl1 where "plumber_work R render env ((bk_plumber bk)\<lparr>pl_vm_pool := pool\<rparr>) = Some pl1"
      "(out, pl) = pop_event pl1"
      using poll Nil by (auto simp: plumber_poll_def Let_def split: option.splits)
    moreover have "\<forall>key. \<not> ev_vm_ready env key" using Cons.prems(2) by simp
    ultimately have "out = None" "pl_events pl = []"
      using plumber_work_quiet Nil by (fastforce simp: pop_event_def)+
    with poll Nil show ?thesis by simp
  qed
qed simp


definition sample_backend :: "(nat, nat, unit) backend" where
  "sample_backend = \<lparr>bk_plumber = plumber_ingest 31 (sample_particle 10 20) None 3 sample_plumber,
     bk_out = [], bk_host_peer_id = 1\<rparr>"

definition sample_builtins :: "unit builtins_api" where
  "sample_builtins = \<lparr>ba_extend = (\<lambda>_ _ _ b. b), ba_remove = (\<lambda>_ b. b)\<rparr>"


end
