(* ===== verification/File_Store.thy ===== *)
theory File_Store
  imports Prelude
begin

section \<open>Directories of named files\<close>

text \<open>
  Blueprints and services are kept on disk the same way: one file per object, named after its
  id by appending a fixed suffix, and at start every file with that suffix is read. A directory
  is an association list from file names to contents, and stands for the map from ids to objects
  \<open>dir_view\<close>. The locale \<open>named_files\<close> is what the repository relies on: names have the suffix, and different ids have
  different names.
\<close>

type_synonym directory = "(string \<times> bytes) list"

definition dir_view :: "('k \<Rightarrow> string) \<Rightarrow> (bytes \<Rightarrow> 'a option) \<Rightarrow> directory \<Rightarrow> 'k \<rightharpoonup> 'a" where
  "dir_view name read dir k = Option.bind (map_of dir (name k)) read"

text \<open>Every file with the suffix can be read and has the name of its object's id.\<close>

definition dir_named :: "('k \<Rightarrow> string) \<Rightarrow> (string \<Rightarrow> bool) \<Rightarrow> (bytes \<Rightarrow> 'a option) \<Rightarrow> ('a \<Rightarrow> 'k) \<Rightarrow> directory \<Rightarrow> bool" where
  "dir_named name is_file read key dir \<longleftrightarrow> distinct (map fst dir) \<and>
     (\<forall>(f, b)\<in>set dir. is_file f \<longrightarrow> (\<exists>x. read b = Some x \<and> f = name (key x)))"

definition loaded :: "(string \<Rightarrow> bool) \<Rightarrow> (bytes \<Rightarrow> 'a option) \<Rightarrow> directory \<Rightarrow> 'a list" where
  "loaded is_file read dir = List.map_filter (\<lambda>(f, b). if is_file f then read b else None) dir"

lemma loaded_simps [simp]:
  "loaded is_file read [] = []"
  "loaded is_file read ((f, b) # dir) =
     (if is_file f then (case read b of None \<Rightarrow> loaded is_file read dir | Some x \<Rightarrow> x # loaded is_file read dir)
      else loaded is_file read dir)"
  by (simp_all add: loaded_def map_filter_simps split: option.split)

lemma loaded_mem: "x \<in> set (loaded is_file read dir) \<longleftrightarrow> (\<exists>f b. (f, b) \<in> set dir \<and> is_file f \<and> read b = Some x)"
proof -
  have "x \<in> set (loaded is_file read dir) \<longleftrightarrow> (\<exists>e\<in>set dir. is_file (fst e) \<and> read (snd e) = Some x)"
  proof (induction dir)
    case (Cons e dir)
    then show ?case by (cases e; cases "read (snd e)") auto
  qed simp
  then show ?thesis by (simp add: Bex_def)
qed

lemma map_of_fold_update:
  assumes "distinct (map key xs)"
  shows "map_of (fold (\<lambda>x. AList.update (key x) (val x)) xs m) = map_of m ++ map_of (map (\<lambda>x. (key x, val x)) xs)"
  using assms
proof (induction xs arbitrary: m)
  case (Cons x xs)
  from Cons.prems have "map_of (map (\<lambda>x. (key x, val x)) xs) (key x) = None" by (auto simp: map_of_eq_None_iff)
  then have "key x \<notin> dom (map_of (map (\<lambda>x. (key x, val x)) xs))" by (simp add: domIff)
  with Cons show ?case by (simp add: update_conv' map_add_upd_left del: fun_upd_apply)
qed simp

lemma fold_loaded:
  "fold (\<lambda>(f, b) s. if is_file f then (case read b of None \<Rightarrow> s | Some x \<Rightarrow> step x s) else s) dir s =
   fold step (loaded is_file read dir) s"
proof (induction dir arbitrary: s)
  case (Cons e dir)
  then show ?case by (cases e) (auto split: option.splits)
qed simp

locale named_files =
  fixes name :: "'k \<Rightarrow> string" and is_file :: "string \<Rightarrow> bool"
  assumes is_file_name: "is_file (name k)"
    and name_inj: "name j = name k \<Longrightarrow> j = k"
begin

lemma view_update: "dir_view name read (AList.update (name k) b dir) = (dir_view name read dir)(k := read b)"
  by (auto simp: dir_view_def update_conv' fun_eq_iff dest: name_inj)

lemma view_delete: "dir_view name read (AList.delete (name k) dir) = (dir_view name read dir)(k := None)"
  by (auto simp: dir_view_def delete_conv' fun_eq_iff dest: name_inj)

lemma named_update:
  assumes "dir_named name is_file read key dir" and "read b = Some x" and "key x = k"
  shows "dir_named name is_file read key (AList.update (name k) b dir)"
  using assms set_AList_update_subset [of "name k" b dir]
  by (fastforce simp: dir_named_def distinct_update)

lemma named_delete:
  assumes "dir_named name is_file read key dir"
  shows "dir_named name is_file read key (AList.delete f dir)"
  using assms unfolding dir_named_def
  by (auto simp: distinct_map_filter AList.delete_eq)

text \<open>Reading the whole directory gives each object of the view once.\<close>

lemma loaded_keys:
  assumes "dir_named name is_file read key dir"
  shows "distinct (map key (loaded is_file read dir))"
  using assms
proof (induction dir)
  case (Cons e dir)
  obtain f b where e: "e = (f, b)" by (cases e)
  from Cons.prems have tail: "dir_named name is_file read key dir" by (simp add: dir_named_def)
  have "key x \<notin> key ` set (loaded is_file read dir)" if "is_file f" "read b = Some x" for x
  proof
    assume "key x \<in> key ` set (loaded is_file read dir)"
    then obtain y f' b' where y: "key y = key x" "(f', b') \<in> set dir" "is_file f'" "read b' = Some y"
      by (auto simp: loaded_mem image_iff)
    with tail have "f' = name (key y)" by (fastforce simp: dir_named_def)
    moreover from Cons.prems that e have "f = name (key x)" by (fastforce simp: dir_named_def)
    ultimately show False using Cons.prems y(1,2) e by (force simp: dir_named_def)
  qed
  with Cons.IH [OF tail] e show ?case by (auto split: option.splits)
qed simp

lemma loaded_view:
  assumes "dir_named name is_file read key dir"
  shows "map_of (map (\<lambda>x. (key x, x)) (loaded is_file read dir)) k = dir_view name read dir k"
proof -
  have sound: "dir_view name read dir (key x) = Some x" if "x \<in> set (loaded is_file read dir)" for x
  proof -
    from that obtain f b where fb: "(f, b) \<in> set dir" "is_file f" "read b = Some x" by (auto simp: loaded_mem)
    with assms have "f = name (key x)" by (fastforce simp: dir_named_def)
    with fb assms have "map_of dir (name (key x)) = Some b" by (simp add: dir_named_def)
    with fb(3) show ?thesis by (simp add: dir_view_def)
  qed
  have complete: "x \<in> set (loaded is_file read dir) \<and> key x = k" if "dir_view name read dir k = Some x" for x
  proof -
    from that obtain b where b: "map_of dir (name k) = Some b" "read b = Some x"
      by (auto simp: dir_view_def bind_eq_Some_conv)
    then have "(name k, b) \<in> set dir" by (simp add: map_of_SomeD)
    with b(2) is_file_name assms show ?thesis
      by (fastforce simp: loaded_mem dir_named_def dest: name_inj)
  qed
  show ?thesis
  proof (cases "dir_view name read dir k")
    case None
    then have "k \<notin> fst ` set (map (\<lambda>x. (key x, x)) (loaded is_file read dir))" using sound by fastforce
    then have "map_of (map (\<lambda>x. (key x, x)) (loaded is_file read dir)) k = None" by (simp add: map_of_eq_None_iff)
    with None show ?thesis by simp
  next
    case (Some x)
    with complete have "(k, x) \<in> set (map (\<lambda>x. (key x, x)) (loaded is_file read dir))" by force
    moreover have "distinct (map fst (map (\<lambda>x. (key x, x)) (loaded is_file read dir)))"
      using loaded_keys [OF assms] by (simp add: comp_def)
    ultimately show ?thesis using Some by simp
  qed
qed

end

end
