(* ===== verification/Module_Repository.thy ===== *)
theory Module_Repository
  imports File_Store Call_Args
begin

section \<open>The repository of modules and blueprints\<close>

text \<open>
  \<^verbatim>\<open>particle-modules/src/{modules,files}.rs\<close> and \<^verbatim>\<open>crates/service-modules\<close>. Directories are association lists
  from file names to contents. The hash function, hexadecimal, toml and Marine's reading of a
  module (its interface, its descriptor) are third-party: fields of a record. Of a module's
  configuration the fields the code touches are modelled.
\<close>

type_synonym hash = bytes

datatype dependency = HashDep hash | NameDep string

record blueprint =
  bp_name :: string
  bp_id :: string
  bp_dependencies :: "dependency list"

record add_blueprint =
  ab_name :: string
  ab_dependencies :: "dependency list"

record module_config =
  mc_name :: string
  mc_file_name :: "string option"
  mc_load_from :: "string option"
  mc_max_heap_size :: "nat option"
  mc_mem_pages_count :: "nat option"

record module_descriptor =
  md_import_name :: string
  md_file_name :: string
  md_config :: module_config
  md_preopened_files :: "string list"
  md_mapped_dirs :: "(string \<times> string) list"

record module_api =
  ma_hash :: "bytes \<Rightarrow> hash"
  ma_to_hex :: "hash \<Rightarrow> string"
  ma_from_hex :: "string \<Rightarrow> hash option"
  ma_config_to_toml :: "module_config \<Rightarrow> bytes option"
  ma_config_from_toml :: "bytes \<Rightarrow> module_config option"
  ma_blueprint_to_toml :: "blueprint \<Rightarrow> bytes option"
  ma_blueprint_from_toml :: "bytes \<Rightarrow> blueprint option"
  ma_descriptor :: "module_config \<Rightarrow> module_descriptor option"
  ma_interface :: "bytes \<Rightarrow> jvalue option"
  ma_pages_to_bytes :: "nat \<Rightarrow> nat"
  ma_base64_decode :: "string \<Rightarrow> bytes option"
  ma_config_from_json :: "bytes \<Rightarrow> module_config option"
  ma_blueprint_from_json :: "bytes \<Rightarrow> add_blueprint option"
  ma_path_file_name :: "string \<Rightarrow> string option"
  ma_can_write :: "string \<Rightarrow> bool"

datatype module_error =
    InvalidModuleName string
  | MaxHeapSizeOverflow nat nat
  | EmptyDependenciesList string
  | BlueprintNotFound string
  | FacadeShouldBeHash string
  | ReadModuleInterfaceError string
  | NoModuleConfig string
  | IncorrectModuleConfig
  | ModuleConvertError
  | AddModule string
  | SerializeConfig
  | WriteConfig string
  | SerializeBlueprint
  | SerializePersistedService
  | NoSuchBlueprint string
  | IncorrectBlueprint
  | ModuleNotFound string
  | InvalidModuleReference string
  | WriteBlueprint string
  | ModuleInvalidBase64
  | VaultDoesNotExist string
  | InvalidModulePath string
  | InvalidModuleConfigPath string
  | InvalidBlueprintPath string
  | ModuleNotFoundInVault string
  | ConfigNotFoundInVault string
  | BlueprintNotFoundInVault string
  | IncorrectVaultModuleConfig string
  | IncorrectVaultBlueprint string

record module_repository =
  mr_modules_dir :: directory
  mr_blueprints_dir :: directory
  mr_vault_dir :: "(string \<times> directory) list"
  modules_by_name :: "(string \<times> hash) list"
  module_interface_cache :: "(hash \<times> jvalue) list"
  mr_blueprints :: "(string \<times> blueprint) list"
  max_heap_size :: nat
  default_heap_size :: "nat option"

subsection \<open>Dependencies and file names\<close>

text \<open>The text after the first \<open>:\<close> up to the next one, and the text before the first.\<close>

fun split_once :: "string \<Rightarrow> string \<times> string option" where
  "split_once s = (takeWhile (\<lambda>c. c \<noteq> CHR '':'') s,
     (case dropWhile (\<lambda>c. c \<noteq> CHR '':'') s of
        [] \<Rightarrow> None
      | _ # rest \<Rightarrow> Some (takeWhile (\<lambda>c. c \<noteq> CHR '':'') rest)))"

definition dependency_serialize :: "module_api \<Rightarrow> dependency \<Rightarrow> string" where
  "dependency_serialize A d =
     (case d of HashDep h \<Rightarrow> ''hash:'' @ ma_to_hex A h | NameDep n \<Rightarrow> ''name:'' @ n)"

definition dependency_deserialize :: "module_api \<Rightarrow> string \<Rightarrow> dependency option" where
  "dependency_deserialize A s =
     (let (i, v) = split_once s in
      case v of
        Some value \<Rightarrow>
          if i = ''hash'' then map_option HashDep (ma_from_hex A value)
          else if i = ''name'' then Some (NameDep value)
          else Some (NameDep i)
      | None \<Rightarrow> Some (NameDep i))"

definition module_config_name_hash :: "module_api \<Rightarrow> hash \<Rightarrow> string" where
  "module_config_name_hash A h = ma_to_hex A h @ ''_config.toml''"

definition module_file_name_hash :: "module_api \<Rightarrow> hash \<Rightarrow> string" where
  "module_file_name_hash A h = ma_to_hex A h @ ''.wasm''"

definition blueprint_fname :: "string \<Rightarrow> string" where
  "blueprint_fname i = i @ ''_blueprint.toml''"

definition blueprint_file_name :: "blueprint \<Rightarrow> string" where
  "blueprint_file_name bp = blueprint_fname (bp_id bp)"

definition is_blueprint :: "string \<Rightarrow> bool" where
  "is_blueprint n = ends_with ''_blueprint.toml'' n"

definition service_file_name :: "string \<Rightarrow> string" where
  "service_file_name i = i @ ''_service.toml''"

definition is_service :: "string \<Rightarrow> bool" where
  "is_service n = ends_with ''_service.toml'' n"

definition get_facade_module :: "blueprint \<Rightarrow> dependency option" where
  "get_facade_module bp = (if bp_dependencies bp = [] then None else Some (last (bp_dependencies bp)))"

text \<open>Dependencies other than the facade are hashed in the order of their bytes.\<close>

fun bytes_le :: "bytes \<Rightarrow> bytes \<Rightarrow> bool" where
  "bytes_le [] _ = True"
| "bytes_le (_ # _) [] = False"
| "bytes_le (x # xs) (y # ys) = (x < y \<or> (x = y \<and> bytes_le xs ys))"

fun insert_bytes :: "bytes \<Rightarrow> bytes list \<Rightarrow> bytes list" where
  "insert_bytes x [] = [x]"
| "insert_bytes x (y # ys) = (if bytes_le x y then x # y # ys else y # insert_bytes x ys)"

definition sort_bytes :: "bytes list \<Rightarrow> bytes list" where
  "sort_bytes xs = foldr insert_bytes xs []"

definition hash_dependencies :: "module_api \<Rightarrow> hash \<Rightarrow> hash list \<Rightarrow> hash" where
  "hash_dependencies A facade deps = ma_hash A (concat (sort_bytes deps @ [facade]))"

subsection \<open>Modules\<close>

definition load_config_by_path :: "module_api \<Rightarrow> directory \<Rightarrow> string \<Rightarrow> module_error + module_config" where
  "load_config_by_path A dir path =
     (case map_of dir path of
        None \<Rightarrow> Inl (NoModuleConfig path)
      | Some content \<Rightarrow>
          (case ma_config_from_toml A content of
             None \<Rightarrow> Inl IncorrectModuleConfig
           | Some cfg \<Rightarrow> Inr cfg))"

definition load_module_descriptor :: "module_api \<Rightarrow> directory \<Rightarrow> hash \<Rightarrow> module_error + module_descriptor" where
  "load_module_descriptor A dir h =
     (case load_config_by_path A dir (module_config_name_hash A h) of
        Inl e \<Rightarrow> Inl e
      | Inr cfg \<Rightarrow>
          (case ma_descriptor A cfg of
             None \<Rightarrow> Inl ModuleConvertError
           | Some d \<Rightarrow> Inr (d\<lparr>md_file_name := module_file_name_hash A h\<rparr>)))"

text \<open>The directory is returned also on an error: the first write may have happened.\<close>

definition files_add_module ::
    "module_api \<Rightarrow> directory \<Rightarrow> hash \<Rightarrow> bytes \<Rightarrow> module_config \<Rightarrow> (module_error + module_config) \<times> directory" where
  "files_add_module A dir h content cfg =
     (let wasm = module_file_name_hash A h; path = module_config_name_hash A h in
      if \<not> ma_can_write A wasm then (Inl (AddModule wasm), dir)
      else
        (let dir1 = AList.update wasm content dir;
             cfg1 = cfg\<lparr>mc_file_name := Some (module_config_name_hash A h), mc_load_from := None\<rparr>
         in case ma_config_to_toml A cfg1 of
              None \<Rightarrow> (Inl SerializeConfig, dir1)
            | Some toml \<Rightarrow>
                if \<not> ma_can_write A path then (Inl (WriteConfig path), dir1)
                else (Inr cfg1, AList.update path toml dir1)))"

definition check_module_heap_size :: "module_api \<Rightarrow> module_repository \<Rightarrow> module_config \<Rightarrow> module_error + module_config" where
  "check_module_heap_size A r cfg =
     (let heap = (case (mc_max_heap_size cfg, mc_mem_pages_count cfg) of
                    (Some s, _) \<Rightarrow> Some s
                  | (None, Some n) \<Rightarrow> Some (ma_pages_to_bytes A n)
                  | (None, None) \<Rightarrow> default_heap_size r);
          cfg1 = cfg\<lparr>mc_max_heap_size := heap\<rparr>
      in case heap of
           Some s \<Rightarrow> if max_heap_size r < s then Inl (MaxHeapSizeOverflow s (max_heap_size r)) else Inr cfg1
         | None \<Rightarrow> Inr cfg1)"

definition add_module ::
    "module_api \<Rightarrow> bytes \<Rightarrow> module_config \<Rightarrow> module_repository \<Rightarrow> (module_error + hash) \<times> module_repository" where
  "add_module A content cfg r =
     (let h = ma_hash A content;
          (res, dir) = files_add_module A (mr_modules_dir r) h content cfg;
          r1 = r\<lparr>mr_modules_dir := dir\<rparr>
      in case res of
           Inl e \<Rightarrow> (Inl e, r1)
         | Inr cfg1 \<Rightarrow>
             (case check_module_heap_size A r1 cfg1 of
                Inl e \<Rightarrow> (Inl e, r1)
              | Inr cfg2 \<Rightarrow> (Inr h, r1\<lparr>modules_by_name := AList.update (mc_name cfg2) h (modules_by_name r1)\<rparr>)))"

definition add_module_base64 ::
    "module_api \<Rightarrow> string \<Rightarrow> module_config \<Rightarrow> module_repository \<Rightarrow> (module_error + string) \<times> module_repository" where
  "add_module_base64 A m cfg r =
     (case ma_base64_decode A m of
        None \<Rightarrow> (Inl ModuleInvalidBase64, r)
      | Some content \<Rightarrow>
          (case add_module A content cfg r of
             (Inl e, r1) \<Rightarrow> (Inl e, r1)
           | (Inr h, r1) \<Rightarrow> (Inr (ma_to_hex A h), r1)))"

definition check_vault_exists :: "module_repository \<Rightarrow> string \<Rightarrow> module_error + directory" where
  "check_vault_exists r particle_id =
     (case map_of (mr_vault_dir r) particle_id of
        None \<Rightarrow> Inl (VaultDoesNotExist particle_id)
      | Some dir \<Rightarrow> Inr dir)"

text \<open>Only the file name of a given path is used, inside the particle's own vault.\<close>

definition read_from_vault ::
    "module_api \<Rightarrow> (string \<Rightarrow> module_error) \<Rightarrow> (string \<Rightarrow> module_error) \<Rightarrow> string \<Rightarrow> string \<Rightarrow>
     module_repository \<Rightarrow> module_error + string \<times> bytes" where
  "read_from_vault A bad_path not_found path particle_id r =
     (case check_vault_exists r particle_id of
        Inl e \<Rightarrow> Inl e
      | Inr vault \<Rightarrow>
          (case ma_path_file_name A path of
             None \<Rightarrow> Inl (bad_path path)
           | Some fname \<Rightarrow>
               (case map_of vault fname of
                  None \<Rightarrow> Inl (not_found fname)
                | Some content \<Rightarrow> Inr (fname, content))))"

definition load_module_config_from_vault ::
    "module_api \<Rightarrow> string \<Rightarrow> particle_params \<Rightarrow> module_repository \<Rightarrow> module_error + module_config" where
  "load_module_config_from_vault A path particle r =
     (case read_from_vault A InvalidModuleConfigPath ConfigNotFoundInVault path (pp_id particle) r of
        Inl e \<Rightarrow> Inl e
      | Inr (fname, content) \<Rightarrow>
          (case ma_config_from_json A content of
             None \<Rightarrow> Inl (IncorrectVaultModuleConfig fname)
           | Some cfg \<Rightarrow> Inr cfg))"

definition load_blueprint_from_vault ::
    "module_api \<Rightarrow> string \<Rightarrow> particle_params \<Rightarrow> module_repository \<Rightarrow> module_error + add_blueprint" where
  "load_blueprint_from_vault A path particle r =
     (case read_from_vault A InvalidBlueprintPath BlueprintNotFoundInVault path (pp_id particle) r of
        Inl e \<Rightarrow> Inl e
      | Inr (fname, content) \<Rightarrow>
          (case ma_blueprint_from_json A content of
             None \<Rightarrow> Inl (IncorrectVaultBlueprint fname)
           | Some bp \<Rightarrow> Inr bp))"

definition add_module_from_vault ::
    "module_api \<Rightarrow> string \<Rightarrow> module_config \<Rightarrow> particle_params \<Rightarrow> module_repository \<Rightarrow>
     (module_error + string) \<times> module_repository" where
  "add_module_from_vault A path cfg particle r =
     (case read_from_vault A InvalidModulePath ModuleNotFoundInVault path (pp_id particle) r of
        Inl e \<Rightarrow> (Inl e, r)
      | Inr (_, content) \<Rightarrow>
          (case add_module A content cfg r of
             (Inl e, r1) \<Rightarrow> (Inl e, r1)
           | (Inr h, r1) \<Rightarrow> (Inr (ma_to_hex A h), r1)))"

subsection \<open>Blueprints\<close>

definition resolve_hash :: "(string \<times> hash) list \<Rightarrow> dependency \<Rightarrow> module_error + hash" where
  "resolve_hash by_name d =
     (case d of
        HashDep h \<Rightarrow> Inr h
      | NameDep n \<Rightarrow> (case map_of by_name n of None \<Rightarrow> Inl (InvalidModuleName n) | Some h \<Rightarrow> Inr h))"

definition files_add_blueprint :: "module_api \<Rightarrow> blueprint \<Rightarrow> directory \<Rightarrow> module_error + directory" where
  "files_add_blueprint A bp dir =
     (let path = blueprint_file_name bp in
      case ma_blueprint_to_toml A bp of
        None \<Rightarrow> Inl SerializeBlueprint
      | Some toml \<Rightarrow> if ma_can_write A path then Inr (AList.update path toml dir) else Inl (WriteBlueprint path))"

definition repo_add_blueprint ::
    "module_api \<Rightarrow> add_blueprint \<Rightarrow> module_repository \<Rightarrow> (module_error + string) \<times> module_repository" where
  "repo_add_blueprint A ab r =
     (case collect_results (map (resolve_hash (modules_by_name r)) (ab_dependencies ab)) of
        Inl e \<Rightarrow> (Inl e, r)
      | Inr hashes \<Rightarrow>
          if hashes = [] then (Inl (EmptyDependenciesList (ab_name ab)), r)
          else
            (let facade = last hashes; deps = butlast hashes;
                 bp = \<lparr>bp_name = ab_name ab, bp_id = ma_to_hex A (hash_dependencies A facade deps),
                       bp_dependencies = map HashDep deps @ [HashDep facade]\<rparr>
             in case files_add_blueprint A bp (mr_blueprints_dir r) of
                  Inl e \<Rightarrow> (Inl e, r)
                | Inr dir \<Rightarrow>
                    (Inr (bp_id bp), r\<lparr>mr_blueprints_dir := dir,
                       mr_blueprints := AList.update (bp_id bp) bp (mr_blueprints r)\<rparr>)))"

definition load_blueprints :: "module_api \<Rightarrow> directory \<Rightarrow> (string \<times> blueprint) list" where
  "load_blueprints A dir =
     fold (\<lambda>(fname, content) m.
         if is_blueprint fname then
           (case ma_blueprint_from_toml A content of
              None \<Rightarrow> m
            | Some bp \<Rightarrow> AList.update (bp_id bp) bp m)
         else m) dir []"

definition get_blueprint_from_cache :: "string \<Rightarrow> module_repository \<Rightarrow> module_error + blueprint" where
  "get_blueprint_from_cache i r =
     (case map_of (mr_blueprints r) i of None \<Rightarrow> Inl (BlueprintNotFound i) | Some bp \<Rightarrow> Inr bp)"

definition get_blueprints :: "module_repository \<Rightarrow> blueprint list" where
  "get_blueprints r = map snd (mr_blueprints r)"

definition resolve_blueprint :: "module_api \<Rightarrow> string \<Rightarrow> module_repository \<Rightarrow> module_error + module_descriptor list" where
  "resolve_blueprint A i r =
     (case get_blueprint_from_cache i r of
        Inl e \<Rightarrow> Inl e
      | Inr bp \<Rightarrow>
          collect_results (map (\<lambda>d.
             (case resolve_hash (modules_by_name r) d of
                Inl e \<Rightarrow> Inl e
              | Inr h \<Rightarrow> load_module_descriptor A (mr_modules_dir r) h)) (bp_dependencies bp)))"

definition get_interface_by_hash ::
    "module_api \<Rightarrow> hash \<Rightarrow> module_repository \<Rightarrow> (module_error + jvalue) \<times> module_repository" where
  "get_interface_by_hash A h r =
     (let path = module_file_name_hash A h;
          found = (case map_of (module_interface_cache r) h of
                     Some i \<Rightarrow> Inr i
                   | None \<Rightarrow>
                       (case Option.bind (map_of (mr_modules_dir r) path) (ma_interface A) of
                          None \<Rightarrow> Inl (ReadModuleInterfaceError path)
                        | Some i \<Rightarrow> Inr i))
      in case found of
           Inl e \<Rightarrow> (Inl e, r)
         | Inr i \<Rightarrow> (Inr i, r\<lparr>module_interface_cache := AList.update h i (module_interface_cache r)\<rparr>))"

definition get_facade_interface ::
    "module_api \<Rightarrow> string \<Rightarrow> module_repository \<Rightarrow> (module_error + jvalue) \<times> module_repository" where
  "get_facade_interface A i r =
     (case map_of (mr_blueprints r) i of
        None \<Rightarrow> (Inl (BlueprintNotFound i), r)
      | Some bp \<Rightarrow>
          (case get_facade_module bp of
             None \<Rightarrow> (Inl (EmptyDependenciesList i), r)
           | Some (NameDep _) \<Rightarrow> (Inl (FacadeShouldBeHash i), r)
           | Some (HashDep h) \<Rightarrow> get_interface_by_hash A h r))"

subsection \<open>Starting the repository\<close>

definition is_module_wasm :: "string \<Rightarrow> bool" where
  "is_module_wasm fname = (ends_with ''.wasm'' fname \<and> fname \<noteq> ''.wasm'')"

definition extract_module_file_name :: "string \<Rightarrow> string option" where
  "extract_module_file_name fname =
     (if is_module_wasm fname then Some (take (length fname - 5) fname) else None)"

text \<open>\<^verbatim>\<open>std::fs::rename\<close> in one directory.\<close>

definition rename_file :: "module_api \<Rightarrow> string \<Rightarrow> string \<Rightarrow> directory \<Rightarrow> directory option" where
  "rename_file A old new dir =
     (case map_of dir old of
        None \<Rightarrow> None
      | Some content \<Rightarrow>
          if ma_can_write A new then Some (AList.update new content (AList.delete old dir)) else None)"

definition maybe_migrate_module :: "module_api \<Rightarrow> string \<Rightarrow> hash \<Rightarrow> directory \<Rightarrow> directory" where
  "maybe_migrate_module A fname h dir =
     (case extract_module_file_name fname of
        None \<Rightarrow> dir
      | Some stem \<Rightarrow>
          if stem = ma_to_hex A h then dir
          else
            (case rename_file A fname (module_file_name_hash A h) dir of
               None \<Rightarrow> dir
             | Some dir1 \<Rightarrow>
                 (case rename_file A (stem @ ''_config.toml'') (module_config_name_hash A h) dir1 of
                    None \<Rightarrow> dir1
                  | Some dir2 \<Rightarrow> dir2)))"

text \<open>The step for one file name of the listing of the modules' directory. (The listing is taken before the first renaming.)\<close>

definition load_named_module ::
    "module_api \<Rightarrow> string \<Rightarrow> (string \<times> hash) list \<times> directory \<Rightarrow> (string \<times> hash) list \<times> directory" where
  "load_named_module A fname s =
     (let (by_name, dir) = s in
      if \<not> is_module_wasm fname then s
      else
        (case map_of dir fname of
           None \<Rightarrow> s
         | Some content \<Rightarrow>
             (let h = ma_hash A content; dir1 = maybe_migrate_module A fname h dir in
              case load_module_descriptor A dir1 h of
                Inl e \<Rightarrow> (by_name, dir1)
              | Inr d \<Rightarrow> (AList.update (md_import_name d) h by_name, dir1))))"

definition module_repository_new ::
    "module_api \<Rightarrow> directory \<Rightarrow> directory \<Rightarrow> (string \<times> directory) list \<Rightarrow> nat \<Rightarrow> nat option \<Rightarrow> module_repository" where
  "module_repository_new A modules_dir blueprints_dir vault_dir max_heap default_heap =
     (let (by_name, dir) = fold (load_named_module A) (map fst modules_dir) ([], modules_dir) in
      \<lparr>mr_modules_dir = dir, mr_blueprints_dir = blueprints_dir, mr_vault_dir = vault_dir,
       modules_by_name = by_name, module_interface_cache = [], mr_blueprints = load_blueprints A blueprints_dir,
       max_heap_size = max_heap, default_heap_size = default_heap\<rparr>)"

subsection \<open>The order of dependencies\<close>

lemma bytes_le_refl: "bytes_le x x"
  by (induction x) auto

lemma bytes_le_total: "bytes_le x y \<or> bytes_le y x"
  by (induction x y rule: bytes_le.induct) auto

lemma bytes_le_antisym: "bytes_le x y \<Longrightarrow> bytes_le y x \<Longrightarrow> x = y"
proof (induction x y rule: bytes_le.induct)
  case (1 y)
  then show ?case by (cases y) auto
qed (auto dest: less_not_sym)

lemma bytes_le_trans: "bytes_le x y \<Longrightarrow> bytes_le y z \<Longrightarrow> bytes_le x z"
proof (induction x y arbitrary: z rule: bytes_le.induct)
  case (3 x xs y ys)
  then show ?case by (cases z) (auto intro: less_trans)
qed auto

interpretation bytes_order: linorder bytes_le "\<lambda>x y. bytes_le x y \<and> x \<noteq> y"
  by unfold_locales (use bytes_le_refl bytes_le_total bytes_le_antisym bytes_le_trans in blast)+

lemma insert_bytes_insort: "insert_bytes = bytes_order.insort"
proof -
  have "insert_bytes x xs = bytes_order.insort x xs" for x xs by (induction xs) auto
  then show ?thesis by (simp add: fun_eq_iff)
qed

lemma sort_bytes_sort: "sort_bytes xs = bytes_order.sort xs"
  by (induction xs) (simp_all add: sort_bytes_def insert_bytes_insort)

lemma sort_bytes_cong: "mset xs = mset ys \<Longrightarrow> sort_bytes xs = sort_bytes ys"
  unfolding sort_bytes_sort
  by (rule bytes_order.properties_for_sort [THEN sym]) (simp_all add: bytes_order.sorted_sort)

subsection \<open>Properties\<close>

lemma map_resolve_hash_Inr:
  "collect_results (map (resolve_hash m) ds) = Inr hs \<Longrightarrow> length hs = length ds"
  by (simp add: list_eq_iff_nth_eq)

text \<open>[blueprint_id_ignores_order]: The id of a blueprint depends on its name for nothing and on the order of its modules only
  through the facade: two requests whose resolved modules have the same last one and are otherwise the
  same up to order get the same id.\<close>

theorem blueprint_id_ignores_order:
  assumes "collect_results (map (resolve_hash (modules_by_name r)) (ab_dependencies ab1)) = Inr (deps1 @ [facade])"
    and "collect_results (map (resolve_hash (modules_by_name r)) (ab_dependencies ab2)) = Inr (deps2 @ [facade])"
    and "mset deps1 = mset deps2"
    and "fst (repo_add_blueprint A ab1 r) = Inr i1" and "fst (repo_add_blueprint A ab2 r) = Inr i2"
  shows "i1 = i2"
proof -
  have "i = ma_to_hex A (hash_dependencies A facade deps)"
    if "collect_results (map (resolve_hash (modules_by_name r)) (ab_dependencies ab)) = Inr (deps @ [facade])"
      "fst (repo_add_blueprint A ab r) = Inr i" for ab i deps
    using that by (auto simp: repo_add_blueprint_def Let_def simp del: collect_results_Inr_iff split: sum.splits)
  from this [OF assms(1,4)] this [OF assms(2,5)] sort_bytes_cong [OF assms(3)] show ?thesis
    by (simp add: hash_dependencies_def)
qed

text \<open>A sample of the third-party operations: contents are their own hashes, and one configuration exists.\<close>

definition big_config :: module_config where
  "big_config = \<lparr>mc_name = ''greet'', mc_file_name = Some ''x_config.toml'', mc_load_from = None,
     mc_max_heap_size = Some 900, mc_mem_pages_count = None\<rparr>"

definition sample_modules :: module_api where
  "sample_modules = \<lparr>ma_hash = (\<lambda>b. b), ma_to_hex = (\<lambda>h. replicate (length h) CHR ''x''),
     ma_from_hex = (\<lambda>s. Some (replicate (length s) 7)),
     ma_config_to_toml = (\<lambda>_. Some [1]), ma_config_from_toml = (\<lambda>_. Some big_config),
     ma_blueprint_to_toml = (\<lambda>_. Some [2]), ma_blueprint_from_toml = (\<lambda>_. None),
     ma_descriptor = (\<lambda>c. Some \<lparr>md_import_name = mc_name c, md_file_name = [], md_config = c,
        md_preopened_files = [], md_mapped_dirs = []\<rparr>),
     ma_interface = (\<lambda>_. None), ma_pages_to_bytes = (\<lambda>n. n * 65536), ma_base64_decode = (\<lambda>_. None),
     ma_config_from_json = (\<lambda>_. None), ma_blueprint_from_json = (\<lambda>_. None),
     ma_path_file_name = Some, ma_can_write = (\<lambda>_. True)\<rparr>"

definition sample_repository :: module_repository where
  "sample_repository = \<lparr>mr_modules_dir = [], mr_blueprints_dir = [], mr_vault_dir = [], modules_by_name = [],
     module_interface_cache = [], mr_blueprints = [], max_heap_size = 500, default_heap_size = None\<rparr>"

theorem blueprint_id_ignores_order_witness:
  "fst (repo_add_blueprint sample_modules \<lparr>ab_name = ''a'', ab_dependencies = map HashDep [[1], [2], [3]]\<rparr> sample_repository) =
   fst (repo_add_blueprint sample_modules \<lparr>ab_name = ''b'', ab_dependencies = map HashDep [[2], [1], [3]]\<rparr> sample_repository)"
proof -
  let ?a = "\<lparr>ab_name = ''a'', ab_dependencies = map HashDep [[1], [2], [3]]\<rparr>"
  let ?b = "\<lparr>ab_name = ''b'', ab_dependencies = map HashDep [[2], [1], [3]]\<rparr>"
  have "collect_results (map (resolve_hash (modules_by_name sample_repository)) (ab_dependencies ?a)) = Inr ([[1], [2]] @ [[3]])"
    "collect_results (map (resolve_hash (modules_by_name sample_repository)) (ab_dependencies ?b)) = Inr ([[2], [1]] @ [[3]])"
    by (simp_all add: resolve_hash_def)
  note eq = blueprint_id_ignores_order [OF this, of sample_modules]
  obtain i1 i2 where "fst (repo_add_blueprint sample_modules ?a sample_repository) = Inr i1"
    "fst (repo_add_blueprint sample_modules ?b sample_repository) = Inr i2"
    by (simp add: repo_add_blueprint_def resolve_hash_def files_add_blueprint_def sample_modules_def Let_def)
  with eq show ?thesis by (simp add: add_mset_commute)
qed

text \<open>[heap_limit_not_stored]: The limit on a module's heap is checked only after the module has been stored, and on a copy of
  its configuration: whatever the check says, the stored configuration carries the requested heap size, not the one that
  was checked. A module that is refused for its heap size is installed all the same, and a blueprint that names it
  by its hash loads it with the refused size; a default heap size is never written.\<close>

theorem heap_limit_not_stored:
  assumes "ma_can_write A (module_file_name_hash A h)" and "ma_can_write A (module_config_name_hash A h)"
    and "h = ma_hash A content"
    and "cfg1 = cfg\<lparr>mc_file_name := Some (module_config_name_hash A h), mc_load_from := None\<rparr>"
    and "ma_config_to_toml A cfg1 = Some toml" and "ma_config_from_toml A toml = Some cfg1"
    and "ma_descriptor A cfg1 = Some d"
  shows "let (res, r') = add_module A content cfg r in
     load_module_descriptor A (mr_modules_dir r') h = Inr (d\<lparr>md_file_name := module_file_name_hash A h\<rparr>) \<and>
     mc_max_heap_size cfg1 = mc_max_heap_size cfg \<and>
     (\<forall>s. mc_max_heap_size cfg = Some s \<and> max_heap_size r < s \<longrightarrow>
        res = Inl (MaxHeapSizeOverflow s (max_heap_size r)) \<and> modules_by_name r' = modules_by_name r)"
proof -
  have add: "files_add_module A (mr_modules_dir r) h content cfg =
      (Inr cfg1, AList.update (module_config_name_hash A h) toml
         (AList.update (module_file_name_hash A h) content (mr_modules_dir r)))"
    using assms(1,2,5) by (simp add: files_add_module_def assms(4) Let_def)
  have "mr_modules_dir (snd (add_module A content cfg r)) = AList.update (module_config_name_hash A h) toml
         (AList.update (module_file_name_hash A h) content (mr_modules_dir r))"
    using add assms(3) by (simp add: add_module_def Let_def split: sum.splits)
  then have "load_module_descriptor A (mr_modules_dir (snd (add_module A content cfg r))) h =
      Inr (d\<lparr>md_file_name := module_file_name_hash A h\<rparr>)"
    using assms(6,7) by (simp add: load_module_descriptor_def load_config_by_path_def)
  moreover have "fst (add_module A content cfg r) = Inl (MaxHeapSizeOverflow s (max_heap_size r)) \<and>
      modules_by_name (snd (add_module A content cfg r)) = modules_by_name r"
    if "mc_max_heap_size cfg = Some s" "max_heap_size r < s" for s
    using add assms(3) that by (simp add: add_module_def check_module_heap_size_def assms(4) Let_def)
  ultimately show ?thesis by (auto simp: split_beta Let_def assms(4))
qed

theorem heap_limit_not_stored_witness:
  "fst (add_module sample_modules [7] big_config sample_repository) = Inl (MaxHeapSizeOverflow 900 500) \<and>
   (\<exists>d. load_module_descriptor sample_modules
      (mr_modules_dir (snd (add_module sample_modules [7] big_config sample_repository))) [7] = Inr d)"
proof -
  let ?d = "\<lparr>md_import_name = ''greet'', md_file_name = [], md_config = big_config,
    md_preopened_files = [], md_mapped_dirs = []\<rparr>"
  show ?thesis
    using heap_limit_not_stored [of sample_modules "[7]" "[7]" big_config big_config "[1]" ?d sample_repository]
    by (simp add: sample_modules_def big_config_def sample_repository_def module_config_name_hash_def split_beta)
qed

text \<open>[dependency_text_roundtrip]: A dependency written as text is read back: a hash if its hexadecimal form decodes to it and has no
  colon, a name exactly if it has no colon. (A name with a colon is cut at the colon.)\<close>

theorem dependency_text_roundtrip:
  "(CHR '':'' \<notin> set (ma_to_hex A h) \<and> ma_from_hex A (ma_to_hex A h) = Some h \<longrightarrow>
      dependency_deserialize A (dependency_serialize A (HashDep h)) = Some (HashDep h)) \<and>
   dependency_deserialize A (dependency_serialize A (NameDep n)) = Some (NameDep (takeWhile (\<lambda>c. c \<noteq> CHR '':'') n)) \<and>
   (dependency_deserialize A (dependency_serialize A (NameDep n)) = Some (NameDep n) \<longleftrightarrow> CHR '':'' \<notin> set n)"
proof -
  have "(\<forall>c\<in>set s. c \<noteq> CHR '':'') \<longleftrightarrow> CHR '':'' \<notin> set s" for s by auto
  then show ?thesis
    by (auto simp: dependency_deserialize_def dependency_serialize_def takeWhile_eq_all_conv [THEN iffD2])
qed

theorem dependency_text_roundtrip_witness:
  "dependency_deserialize sample_modules (dependency_serialize sample_modules (HashDep [7, 7])) = Some (HashDep [7, 7])"
  using dependency_text_roundtrip [of sample_modules "[7, 7]" "''a''"]
  by (simp add: sample_modules_def)

text \<open>[added_blueprint_resolves]: A blueprint that was added is found under the id returned, with the requested name and all its
  modules fixed by hash, in the requested order, the last of them its facade; it is written to the file that the next start
  looks for.\<close>

theorem added_blueprint_resolves:
  assumes "repo_add_blueprint A ab r = (Inr i, r')"
  shows "\<exists>bp hashes. get_blueprint_from_cache i r' = Inr bp \<and> bp_name bp = ab_name ab \<and> bp_id bp = i \<and>
     map (resolve_hash (modules_by_name r)) (ab_dependencies ab) = map Inr hashes \<and>
     bp_dependencies bp = map HashDep hashes \<and> hashes \<noteq> [] \<and>
     get_facade_module bp = Some (HashDep (last hashes)) \<and>
     map_of (mr_blueprints_dir r') (blueprint_fname i) = ma_blueprint_to_toml A bp \<and> is_blueprint (blueprint_fname i)"
proof -
  obtain hashes where hs: "map (resolve_hash (modules_by_name r)) (ab_dependencies ab) = map Inr hashes" "hashes \<noteq> []"
    using assms by (auto simp: repo_add_blueprint_def split: sum.splits if_splits)
  let ?bp = "\<lparr>bp_name = ab_name ab, bp_id = ma_to_hex A (hash_dependencies A (last hashes) (butlast hashes)),
                       bp_dependencies = map HashDep (butlast hashes) @ [HashDep (last hashes)]\<rparr>"
  obtain dir where dir: "files_add_blueprint A ?bp (mr_blueprints_dir r) = Inr dir"
    and r': "i = bp_id ?bp" "r' = r\<lparr>mr_blueprints_dir := dir, mr_blueprints := AList.update (bp_id ?bp) ?bp (mr_blueprints r)\<rparr>"
    using assms hs by (auto simp: repo_add_blueprint_def Let_def split: sum.splits)
  have "map HashDep (butlast hashes) @ [HashDep (last hashes)] = map HashDep hashes"
    using hs(2) by (metis append_butlast_last_id list.simps(8,9) map_append)
  moreover have "map_of dir (blueprint_fname i) = ma_blueprint_to_toml A ?bp"
    using dir r'(1) by (auto simp: files_add_blueprint_def blueprint_file_name_def Let_def split: option.splits if_splits)
  moreover have "last (map HashDep hashes) = HashDep (last hashes)" using hs(2) by (rule last_map)
  ultimately show ?thesis
    using hs r' by (intro exI [of _ ?bp] exI [of _ hashes])
      (auto simp: get_blueprint_from_cache_def get_facade_module_def is_blueprint_def blueprint_fname_def)
qed

theorem added_blueprint_resolves_witness:
  "\<exists>i r' bp. repo_add_blueprint sample_modules \<lparr>ab_name = ''a'', ab_dependencies = map HashDep [[1], [3]]\<rparr> sample_repository = (Inr i, r') \<and>
     get_blueprint_from_cache i r' = Inr bp \<and> bp_dependencies bp = map HashDep [[1], [3]]"
proof -
  let ?ab = "\<lparr>ab_name = ''a'', ab_dependencies = map HashDep [[1], [3]]\<rparr>"
  obtain i r' where add: "repo_add_blueprint sample_modules ?ab sample_repository = (Inr i, r')"
    by (simp add: repo_add_blueprint_def resolve_hash_def files_add_blueprint_def sample_modules_def Let_def)
  from added_blueprint_resolves [OF add] add show ?thesis by (auto simp: resolve_hash_def)
qed

subsection \<open>Restarts\<close>

text \<open>Every module file is named after the hash of its content.\<close>

definition named_by_hash :: "module_api \<Rightarrow> directory \<Rightarrow> bool" where
  "named_by_hash A dir \<longleftrightarrow> distinct (map fst dir) \<and>
     (\<forall>(f, c) \<in> set dir. is_module_wasm f \<longrightarrow> f = module_file_name_hash A (ma_hash A c))"

lemma named_by_hash_update:
  assumes "named_by_hash A dir" and "is_module_wasm f \<longrightarrow> f = module_file_name_hash A (ma_hash A c)"
  shows "named_by_hash A (AList.update f c dir)"
  using assms set_AList_update_subset [of f c dir]
  by (fastforce simp: named_by_hash_def distinct_update)

lemma config_is_no_module [simp]: "\<not> is_module_wasm (module_config_name_hash A h)"
  by (simp add: is_module_wasm_def module_config_name_hash_def ends_with_def)

lemma named_by_hash_add_module:
  assumes "named_by_hash A (mr_modules_dir r)"
  shows "named_by_hash A (mr_modules_dir (snd (add_module A content cfg r)))"
  using assms
  by (auto simp: add_module_def files_add_module_def Let_def intro!: named_by_hash_update split: sum.splits option.splits)

lemma migrate_named [simp]:
  assumes "is_module_wasm (module_file_name_hash A h)"
  shows "maybe_migrate_module A (module_file_name_hash A h) h dir = dir"
  using assms by (simp add: maybe_migrate_module_def extract_module_file_name_def module_file_name_hash_def)

lemma load_named_module_named:
  assumes "named_by_hash A dir"
  shows "load_named_module A f (m, dir) =
     ((case map_of dir f of
         Some c \<Rightarrow> (if is_module_wasm f
            then (case load_module_descriptor A dir (ma_hash A c) of Inl e \<Rightarrow> m | Inr d \<Rightarrow> AList.update (md_import_name d) (ma_hash A c) m)
            else m)
       | None \<Rightarrow> m), dir)"
proof -
  have "f = module_file_name_hash A (ma_hash A c)" if "map_of dir f = Some c" "is_module_wasm f" for c
    using map_of_SomeD [OF that(1)] that(2) assms by (auto simp: named_by_hash_def)
  then show ?thesis
    by (auto simp: load_named_module_def Let_def split: option.splits sum.splits)
qed

definition names_hash :: "module_api \<Rightarrow> directory \<Rightarrow> string \<Rightarrow> string \<Rightarrow> hash \<Rightarrow> bool" where
  "names_hash A dir f n h \<longleftrightarrow> is_module_wasm f \<and> map_option (ma_hash A) (map_of dir f) = Some h \<and>
     (\<exists>d. load_module_descriptor A dir h = Inr d \<and> md_import_name d = n)"

lemma fold_load_named:
  assumes "named_by_hash A dir"
  shows "snd (fold (load_named_module A) fs (m, dir)) = dir \<and>
    (\<forall>n h. map_of (fst (fold (load_named_module A) fs (m, dir))) n = Some h \<longrightarrow>
        map_of m n = Some h \<or> (\<exists>f\<in>set fs. names_hash A dir f n h)) \<and>
    (\<forall>n. map_of m n \<noteq> None \<or> (\<exists>f\<in>set fs. \<exists>h. names_hash A dir f n h) \<longrightarrow>
        map_of (fst (fold (load_named_module A) fs (m, dir))) n \<noteq> None)"
proof (induction fs arbitrary: m)
  case (Cons f fs)
  obtain m' where step: "load_named_module A f (m, dir) = (m', dir)"
    using load_named_module_named [OF assms] by blast
  have new: "map_of m n = Some h \<or> names_hash A dir f n h" if "map_of m' n = Some h" for n h
    using step that unfolding load_named_module_named [OF assms]
    by (auto simp: names_hash_def update_conv' split: option.splits if_splits sum.splits)
  have kept: "map_of m' n \<noteq> None" if "map_of m n \<noteq> None \<or> names_hash A dir f n h" for n h
    using step that unfolding load_named_module_named [OF assms]
    by (auto simp: names_hash_def update_conv' split: option.splits if_splits sum.splits)
  show ?case
  proof (intro conjI allI impI)
    show "snd (fold (load_named_module A) (f # fs) (m, dir)) = dir" using Cons.IH [of m'] step by simp
  next
    fix n h assume "map_of (fst (fold (load_named_module A) (f # fs) (m, dir))) n = Some h"
    then have "map_of m' n = Some h \<or> (\<exists>f\<in>set fs. names_hash A dir f n h)" using Cons.IH [of m'] step by simp
    then show "map_of m n = Some h \<or> (\<exists>f\<in>set (f # fs). names_hash A dir f n h)" using new by auto
  next
    fix n assume "map_of m n \<noteq> None \<or> (\<exists>f\<in>set (f # fs). \<exists>h. names_hash A dir f n h)"
    then have "map_of m' n \<noteq> None \<or> (\<exists>f\<in>set fs. \<exists>h. names_hash A dir f n h)" using kept by auto
    then show "map_of (fst (fold (load_named_module A) (f # fs) (m, dir))) n \<noteq> None"
      using Cons.IH [of m'] unfolding fold_simps step by blast
  qed
qed auto

text \<open>C39 [modules_survive_restart]: Adding a module keeps every module file named after the hash of its content, and
  then a restart of the node renames nothing: the directory is as it was, a name that the new repository knows leads to the hash
  of a stored file whose descriptor carries that name, and every stored module whose descriptor can be
  loaded has its name in the repository.\<close>

theorem modules_survive_restart:
  assumes "named_by_hash A (mr_modules_dir r)"
  shows "let dir = mr_modules_dir (snd (add_module A content cfg r));
             new = module_repository_new A dir blueprints_dir vault_dir max_heap default_heap
    in named_by_hash A dir \<and> mr_modules_dir new = dir \<and>
       (\<forall>n h. map_of (modules_by_name new) n = Some h \<longrightarrow>
          (\<exists>c d. map_of dir (module_file_name_hash A h) = Some c \<and> ma_hash A c = h \<and>
             load_module_descriptor A dir h = Inr d \<and> md_import_name d = n)) \<and>
       (\<forall>f c d. map_of dir f = Some c \<and> is_module_wasm f \<and> load_module_descriptor A dir (ma_hash A c) = Inr d \<longrightarrow>
          map_of (modules_by_name new) (md_import_name d) \<noteq> None)"
proof -
  let ?dir = "mr_modules_dir (snd (add_module A content cfg r))"
  let ?new = "module_repository_new A ?dir blueprints_dir vault_dir max_heap default_heap"
  have inv: "named_by_hash A ?dir" using assms by (rule named_by_hash_add_module)
  note fold = fold_load_named [OF inv, of "map fst ?dir" "[]"]
  have new: "mr_modules_dir ?new = snd (fold (load_named_module A) (map fst ?dir) ([], ?dir))"
    "modules_by_name ?new = fst (fold (load_named_module A) (map fst ?dir) ([], ?dir))"
    by (simp_all add: module_repository_new_def split_beta)
  have sound: "\<exists>c d. map_of ?dir (module_file_name_hash A h) = Some c \<and> ma_hash A c = h \<and>
      load_module_descriptor A ?dir h = Inr d \<and> md_import_name d = n"
    if "map_of (modules_by_name ?new) n = Some h" for n h
  proof -
    from that have "map_of [] n = Some h \<or> (\<exists>f\<in>set (map fst ?dir). names_hash A ?dir f n h)"
      using fold unfolding new(2) by blast
    then obtain f where f: "names_hash A ?dir f n h" by (metis map_of.simps(1) option.distinct(1))
    then obtain c where c: "map_of ?dir f = Some c" "ma_hash A c = h" by (auto simp: names_hash_def)
    with f inv have "f = module_file_name_hash A h"
      by (auto simp: names_hash_def named_by_hash_def dest: map_of_SomeD)
    with f c show ?thesis by (auto simp: names_hash_def)
  qed
  have complete: "map_of (modules_by_name ?new) (md_import_name d) \<noteq> None"
    if "map_of ?dir f = Some c" "is_module_wasm f" "load_module_descriptor A ?dir (ma_hash A c) = Inr d" for f c d
  proof -
    have "names_hash A ?dir f (md_import_name d) (ma_hash A c)" using that by (simp add: names_hash_def)
    moreover have "f \<in> set (map fst ?dir)" using map_of_SomeD [OF that(1)] by force
    ultimately show ?thesis using fold unfolding new(2) by blast
  qed
  show ?thesis using inv sound complete fold unfolding Let_def new(1) by blast
qed

theorem modules_survive_restart_witness:
  "let dir = mr_modules_dir (snd (add_module sample_modules [7] big_config sample_repository))
   in \<exists>h. map_of (modules_by_name (module_repository_new sample_modules dir [] [] 500 None)) ''greet'' = Some h"
proof -
  let ?dir = "mr_modules_dir (snd (add_module sample_modules [7] big_config sample_repository))"
  have inv: "named_by_hash sample_modules (mr_modules_dir sample_repository)"
    by (simp add: named_by_hash_def sample_repository_def)
  have stored: "map_of ?dir ''x.wasm'' = Some [7]" "is_module_wasm ''x.wasm''"
      "\<exists>d. load_module_descriptor sample_modules ?dir [7] = Inr d \<and> md_import_name d = ''greet''"
    by (simp_all add: add_module_def files_add_module_def sample_modules_def big_config_def sample_repository_def
        module_file_name_hash_def module_config_name_hash_def check_module_heap_size_def is_module_wasm_def
        ends_with_def load_module_descriptor_def load_config_by_path_def Let_def)
  moreover have "ma_hash sample_modules [7] = [7]" by (simp add: sample_modules_def)
  ultimately show ?thesis
    using modules_survive_restart [OF inv, of "[7]" big_config "[]" "[]" 500 None] unfolding Let_def by fastforce
qed

interpretation bp_files: named_files blueprint_fname is_blueprint
  by unfold_locales (auto simp: blueprint_fname_def is_blueprint_def)

text \<open>Reading back what was written: the law assumed of toml for blueprints.\<close>

definition blueprint_toml_law :: "module_api \<Rightarrow> bool" where
  "blueprint_toml_law A \<longleftrightarrow> (\<forall>bp b. ma_blueprint_to_toml A bp = Some b \<longrightarrow> ma_blueprint_from_toml A b = Some bp)"

definition blueprints_synced :: "module_api \<Rightarrow> module_repository \<Rightarrow> bool" where
  "blueprints_synced A r \<longleftrightarrow>
     dir_named blueprint_fname is_blueprint (ma_blueprint_from_toml A) bp_id (mr_blueprints_dir r) \<and>
     map_of (mr_blueprints r) = dir_view blueprint_fname (ma_blueprint_from_toml A) (mr_blueprints_dir r)"

lemma load_blueprints_view:
  assumes "dir_named blueprint_fname is_blueprint (ma_blueprint_from_toml A) bp_id dir"
  shows "map_of (load_blueprints A dir) = dir_view blueprint_fname (ma_blueprint_from_toml A) dir"
proof -
  have "load_blueprints A dir = fold (\<lambda>bp. AList.update (bp_id bp) bp) (loaded is_blueprint (ma_blueprint_from_toml A) dir) []"
    unfolding load_blueprints_def by (rule fold_loaded)
  with map_of_fold_update [OF bp_files.loaded_keys [OF assms], where m = "[]" and val = id] bp_files.loaded_view [OF assms]
  show ?thesis by (simp add: fun_eq_iff)
qed

lemma files_add_blueprint_synced:
  assumes "blueprint_toml_law A" and "blueprints_synced A r" and "files_add_blueprint A bp (mr_blueprints_dir r) = Inr dir"
  shows "blueprints_synced A (r\<lparr>mr_blueprints_dir := dir, mr_blueprints := AList.update (bp_id bp) bp (mr_blueprints r)\<rparr>)"
proof -
  from assms(3) obtain toml where toml: "ma_blueprint_to_toml A bp = Some toml"
    and dir: "dir = AList.update (blueprint_fname (bp_id bp)) toml (mr_blueprints_dir r)"
    by (auto simp: files_add_blueprint_def blueprint_file_name_def Let_def split: option.splits if_splits)
  from toml assms(1) have read: "ma_blueprint_from_toml A toml = Some bp" by (simp add: blueprint_toml_law_def)
  show ?thesis
    using assms(2) bp_files.named_update [where read = "ma_blueprint_from_toml A" and key = bp_id and dir = "mr_blueprints_dir r", OF _ read refl] read
    by (auto simp: blueprints_synced_def dir update_conv' bp_files.view_update)
qed

text \<open>[blueprints_survive_restart]: Blueprints survive a restart: if the files agree with the blueprints in memory,
  they agree after any request to add a blueprint, and a repository started on that directory then knows exactly the same
  blueprints.\<close>

theorem blueprints_survive_restart:
  assumes "blueprint_toml_law A" and "blueprints_synced A r"
  shows "let r' = snd (repo_add_blueprint A ab r);
             new = module_repository_new A modules_dir (mr_blueprints_dir r') vault_dir max_heap default_heap
    in blueprints_synced A r' \<and> blueprints_synced A new \<and>
       get_blueprint_from_cache i new = get_blueprint_from_cache i r'"
proof -
  let ?r = "snd (repo_add_blueprint A ab r)"
  have "blueprints_synced A ?r"
    using assms(2) by (auto simp: repo_add_blueprint_def Let_def split: sum.splits dest!: files_add_blueprint_synced [OF assms])
  then show ?thesis
    using load_blueprints_view [of A "mr_blueprints_dir ?r"]
    by (auto simp: Let_def blueprints_synced_def module_repository_new_def get_blueprint_from_cache_def split: prod.splits)
qed

definition stored_blueprint :: blueprint where
  "stored_blueprint = \<lparr>bp_name = ''a'', bp_id = ''x'', bp_dependencies = [HashDep [3]]\<rparr>"

definition toml_modules :: module_api where
  "toml_modules = sample_modules\<lparr>
     ma_blueprint_to_toml := (\<lambda>bp. if bp = stored_blueprint then Some [2] else None),
     ma_blueprint_from_toml := (\<lambda>b. if b = [2] then Some stored_blueprint else None)\<rparr>"

theorem blueprints_survive_restart_witness:
  "let r' = snd (repo_add_blueprint toml_modules \<lparr>ab_name = ''a'', ab_dependencies = [HashDep [3]]\<rparr> sample_repository);
       new = module_repository_new toml_modules [] (mr_blueprints_dir r') [] 500 None
   in get_blueprint_from_cache ''x'' new = Inr stored_blueprint"
proof -
  let ?ab = "\<lparr>ab_name = ''a'', ab_dependencies = [HashDep [3]]\<rparr>"
  have law: "blueprint_toml_law toml_modules" by (simp add: blueprint_toml_law_def toml_modules_def)
  have synced: "blueprints_synced toml_modules sample_repository"
    by (simp add: blueprints_synced_def sample_repository_def dir_named_def dir_view_def fun_eq_iff)
  have "get_blueprint_from_cache ''x'' (snd (repo_add_blueprint toml_modules ?ab sample_repository)) = Inr stored_blueprint"
    by (simp add: repo_add_blueprint_def resolve_hash_def files_add_blueprint_def toml_modules_def sample_modules_def
        hash_dependencies_def sort_bytes_def stored_blueprint_def get_blueprint_from_cache_def sample_repository_def Let_def)
  with blueprints_survive_restart [OF law synced, of ?ab "[]" "[]" 500 None "''x''"]
  show ?thesis by (simp add: Let_def)
qed

end
