(* ===== verification/App_Services.thy ===== *)
theory App_Services
  imports Module_Repository
begin

section \<open>Services\<close>

text \<open>
  \<^verbatim>\<open>particle-services/src/{app_services,app_service,persistence,error}.rs\<close>: services created from blueprints, their
  aliases, their persistence in a directory, and calls. A Marine instance is an element of the type
  \<open>'app\<close>; creating and calling one, toml, and whether a file system operation succeeds are fields
  of the record \<open>service_api\<close>. Particle vaults are directories of the repository's vault directory. Metrics are left out, and so
  are the debug assertion that no persisted service replaces another and the memory statistics. The operations
  are modelled one at a time (each takes the locks of the tables it changes).
\<close>

record 'app service =
  srv_service :: 'app
  srv_blueprint_id :: string
  srv_owner_id :: peer_id
  srv_aliases :: "string list"

record persisted_service =
  ps_service_id :: string
  ps_blueprint_id :: string
  ps_aliases :: "string list"
  ps_owner_id :: peer_id

record call_parameters =
  cpar_host_id :: string
  cpar_particle_id :: string
  cpar_init_peer_id :: string
  cpar_tetraplets :: "security_tetraplet list list"
  cpar_service_id :: string
  cpar_service_creator :: string

record 'app service_api =
  sa_modules :: module_api
  sa_new :: "module_descriptor list \<Rightarrow> string \<Rightarrow> string + 'app"
  sa_call :: "'app \<Rightarrow> string \<Rightarrow> jvalue \<Rightarrow> call_parameters \<Rightarrow> (string + jvalue) \<times> 'app"
  sa_to_toml :: "persisted_service \<Rightarrow> bytes option"
  sa_from_toml :: "bytes \<Rightarrow> persisted_service option"
  sa_can_write :: "string \<Rightarrow> bool"
  sa_can_remove :: "string \<Rightarrow> bool"
  sa_can_create_vault :: "string \<Rightarrow> bool"
  sa_peer_to_string :: "peer_id \<Rightarrow> string"

datatype service_error =
    NoSuchService string
  | NoSuchServiceWithFunction string string
  | NoSuchAlias string
  | Forbidden peer_id string string
  | AliasAsServiceId string
  | Engine string
  | ModuleError module_error
  | ReadPersistedService string
  | DeserializePersistedService string
  | CreateServicesDir string
  | CorruptedFaaSInterface
  | ArgParseError args_error
  | VaultLink string string
  | VaultError string

text \<open>An error as a JSON error: its constructor and its texts.\<close>

fun module_error_fields :: "module_error \<Rightarrow> string list" where
  "module_error_fields (InvalidModuleName n) = [''InvalidModuleName'', n]"
| "module_error_fields (MaxHeapSizeOverflow w m) = [''MaxHeapSizeOverflow'', show_nat w, show_nat m]"
| "module_error_fields (EmptyDependenciesList i) = [''EmptyDependenciesList'', i]"
| "module_error_fields (BlueprintNotFound i) = [''BlueprintNotFound'', i]"
| "module_error_fields (FacadeShouldBeHash i) = [''FacadeShouldBeHash'', i]"
| "module_error_fields (ReadModuleInterfaceError p) = [''ReadModuleInterfaceError'', p]"
| "module_error_fields (NoModuleConfig p) = [''NoModuleConfig'', p]"
| "module_error_fields IncorrectModuleConfig = [''IncorrectModuleConfig'']"
| "module_error_fields ModuleConvertError = [''ModuleConvertError'']"
| "module_error_fields (AddModule p) = [''AddModule'', p]"
| "module_error_fields SerializeConfig = [''SerializeConfig'']"
| "module_error_fields (WriteConfig p) = [''WriteConfig'', p]"
| "module_error_fields SerializeBlueprint = [''SerializeBlueprint'']"
| "module_error_fields SerializePersistedService = [''SerializePersistedService'']"
| "module_error_fields (NoSuchBlueprint p) = [''NoSuchBlueprint'', p]"
| "module_error_fields IncorrectBlueprint = [''IncorrectBlueprint'']"
| "module_error_fields (ModuleNotFound p) = [''ModuleNotFound'', p]"
| "module_error_fields (InvalidModuleReference r) = [''InvalidModuleReference'', r]"
| "module_error_fields (WriteBlueprint p) = [''WriteBlueprint'', p]"
| "module_error_fields ModuleInvalidBase64 = [''ModuleInvalidBase64'']"
| "module_error_fields (VaultDoesNotExist p) = [''VaultDoesNotExist'', p]"
| "module_error_fields (InvalidModulePath p) = [''InvalidModulePath'', p]"
| "module_error_fields (InvalidModuleConfigPath p) = [''InvalidModuleConfigPath'', p]"
| "module_error_fields (InvalidBlueprintPath p) = [''InvalidBlueprintPath'', p]"
| "module_error_fields (ModuleNotFoundInVault p) = [''ModuleNotFoundInVault'', p]"
| "module_error_fields (ConfigNotFoundInVault p) = [''ConfigNotFoundInVault'', p]"
| "module_error_fields (BlueprintNotFoundInVault p) = [''BlueprintNotFoundInVault'', p]"
| "module_error_fields (IncorrectVaultModuleConfig p) = [''IncorrectVaultModuleConfig'', p]"
| "module_error_fields (IncorrectVaultBlueprint p) = [''IncorrectVaultBlueprint'', p]"

fun service_jerror :: "(peer_id \<Rightarrow> string) \<Rightarrow> service_error \<Rightarrow> jerror" where
  "service_jerror to_string (NoSuchService i) = JErrorFrom ''NoSuchService'' [i]"
| "service_jerror to_string (NoSuchServiceWithFunction i f) = JErrorFrom ''NoSuchServiceWithFunction'' [i, f]"
| "service_jerror to_string (NoSuchAlias a) = JErrorFrom ''NoSuchAlias'' [a]"
| "service_jerror to_string (Forbidden p f r) = JErrorFrom ''Forbidden'' [to_string p, f, r]"
| "service_jerror to_string (AliasAsServiceId a) = JErrorFrom ''AliasAsServiceId'' [a]"
| "service_jerror to_string (Engine e) = JErrorFrom ''Engine'' [e]"
| "service_jerror to_string (ModuleError e) = JErrorFrom ''ModuleError'' (module_error_fields e)"
| "service_jerror to_string (ReadPersistedService p) = JErrorFrom ''ReadPersistedService'' [p]"
| "service_jerror to_string (DeserializePersistedService p) = JErrorFrom ''DeserializePersistedService'' [p]"
| "service_jerror to_string (CreateServicesDir p) = JErrorFrom ''CreateServicesDir'' [p]"
| "service_jerror to_string CorruptedFaaSInterface = JErrorFrom ''CorruptedFaaSInterface'' []"
| "service_jerror to_string (ArgParseError e) = JErrorFrom ''ArgParseError'' []"
| "service_jerror to_string (VaultLink p s) = JErrorFrom ''VaultLink'' [p, s]"
| "service_jerror to_string (VaultError e) = JErrorFrom ''VaultError'' [e]"

record 'app app_services =
  as_services_dir :: directory
  as_vault_path :: string
  as_local_peer_id :: peer_id
  as_services :: "(string \<times> 'app service) list"
  as_modules :: module_repository
  as_aliases :: "(string \<times> string) list"
  management_peer_id :: peer_id
  builtins_management_peer_id :: peer_id

definition service_remove_alias :: "string \<Rightarrow> 'app service \<Rightarrow> 'app service" where
  "service_remove_alias alias s = s\<lparr>srv_aliases := filter (\<lambda>a. a \<noteq> alias) (srv_aliases s)\<rparr>"

definition service_add_alias :: "string \<Rightarrow> 'app service \<Rightarrow> 'app service" where
  "service_add_alias alias s = s\<lparr>srv_aliases := srv_aliases s @ [alias]\<rparr>"

text \<open>On the left, the id or alias that was not found.\<close>

definition get_service ::
    "(string \<times> 'app service) list \<Rightarrow> (string \<times> string) list \<Rightarrow> string \<Rightarrow> string + 'app service \<times> string" where
  "get_service services aliases id_or_alias =
     (case map_of services id_or_alias of
        Some s \<Rightarrow> Inr (s, id_or_alias)
      | None \<Rightarrow>
          (case map_of aliases id_or_alias of
             None \<Rightarrow> Inl id_or_alias
           | Some resolved_id \<Rightarrow>
               (case map_of services resolved_id of
                  None \<Rightarrow> Inl id_or_alias
                | Some s \<Rightarrow> Inr (s, resolved_id))))"

subsection \<open>Persistence\<close>

definition persisted_from_service :: "string \<Rightarrow> 'app service \<Rightarrow> persisted_service" where
  "persisted_from_service sid s =
     \<lparr>ps_service_id = sid, ps_blueprint_id = srv_blueprint_id s, ps_aliases = srv_aliases s, ps_owner_id = srv_owner_id s\<rparr>"

definition persist_service ::
    "'app service_api \<Rightarrow> persisted_service \<Rightarrow> directory \<Rightarrow> module_error + directory" where
  "persist_service A ps dir =
     (let path = service_file_name (ps_service_id ps) in
      case sa_to_toml A ps of
        None \<Rightarrow> Inl SerializePersistedService
      | Some toml \<Rightarrow> if sa_can_write A path then Inr (AList.update path toml dir) else Inl (WriteConfig path))"

definition load_persisted_services :: "'app service_api \<Rightarrow> directory \<Rightarrow> (service_error + persisted_service) list" where
  "load_persisted_services A dir =
     map (\<lambda>(f, content).
        (case sa_from_toml A content of
           None \<Rightarrow> Inl (DeserializePersistedService f)
         | Some ps \<Rightarrow> Inr ps)) (filter (\<lambda>(f, _). is_service f) dir)"

definition remove_persisted_service :: "'app service_api \<Rightarrow> string \<Rightarrow> directory \<Rightarrow> directory option" where
  "remove_persisted_service A sid dir =
     (let path = service_file_name sid in
      if map_of dir path \<noteq> None \<and> sa_can_remove A path then Some (AList.delete path dir) else None)"

subsection \<open>Creating services\<close>

definition VIRTUAL_PARTICLE_VAULT_PREFIX :: string where
  "VIRTUAL_PARTICLE_VAULT_PREFIX = ''/tmp/vault''"

definition inject_vault :: "string \<Rightarrow> module_descriptor \<Rightarrow> module_descriptor" where
  "inject_vault vault_dir d =
     d\<lparr>md_preopened_files := List.insert vault_dir (md_preopened_files d),
       md_mapped_dirs := AList.update VIRTUAL_PARTICLE_VAULT_PREFIX vault_dir (md_mapped_dirs d)\<rparr>"

definition create_app_service ::
    "'app service_api \<Rightarrow> string \<Rightarrow> string \<Rightarrow> string list \<Rightarrow> peer_id \<Rightarrow> 'app app_services \<Rightarrow>
     service_error + 'app \<times> directory" where
  "create_app_service A blueprint_id sid aliases owner st =
     (case resolve_blueprint (sa_modules A) blueprint_id (as_modules st) of
        Inl e \<Rightarrow> Inl (ModuleError e)
      | Inr descriptors \<Rightarrow>
          (case sa_new A (map (inject_vault (as_vault_path st)) descriptors) sid of
             Inl e \<Rightarrow> Inl (Engine e)
           | Inr app \<Rightarrow>
               (case persist_service A \<lparr>ps_service_id = sid, ps_blueprint_id = blueprint_id, ps_aliases = aliases,
                                         ps_owner_id = owner\<rparr> (as_services_dir st) of
                  Inl e \<Rightarrow> Inl (ModuleError e)
                | Inr dir \<Rightarrow> Inr (app, dir))))"

definition create_service_inner ::
    "'app service_api \<Rightarrow> string \<Rightarrow> peer_id \<Rightarrow> string \<Rightarrow> string list \<Rightarrow> 'app app_services \<Rightarrow>
     (service_error + 'app service option) \<times> 'app app_services" where
  "create_service_inner A blueprint_id owner sid aliases st =
     (case create_app_service A blueprint_id sid aliases owner st of
        Inl e \<Rightarrow> (Inl e, st)
      | Inr (app, dir) \<Rightarrow>
          (Inr (map_of (as_services st) sid),
           st\<lparr>as_services_dir := dir,
              as_services := AList.update sid \<lparr>srv_service = app, srv_blueprint_id = blueprint_id,
                 srv_owner_id = owner, srv_aliases = aliases\<rparr> (as_services st)\<rparr>))"

text \<open>\<open>uuid\<close> is the random id.\<close>

definition create_service ::
    "'app service_api \<Rightarrow> string \<Rightarrow> string \<Rightarrow> peer_id \<Rightarrow> 'app app_services \<Rightarrow> (service_error + string) \<times> 'app app_services" where
  "create_service A uuid blueprint_id init_peer_id st =
     (case create_service_inner A blueprint_id init_peer_id uuid [] st of
        (Inl e, st1) \<Rightarrow> (Inl e, st1)
      | (Inr _, st1) \<Rightarrow> (Inr uuid, st1))"

definition restore_service :: "'app service_api \<Rightarrow> persisted_service \<Rightarrow> 'app app_services \<Rightarrow> 'app app_services" where
  "restore_service A ps st =
     (case create_service_inner A (ps_blueprint_id ps) (ps_owner_id ps) (ps_service_id ps) (ps_aliases ps) st of
        (Inl _, st1) \<Rightarrow> st1
      | (Inr _, st1) \<Rightarrow>
          st1\<lparr>as_aliases := fold (\<lambda>alias. AList.update alias (ps_service_id ps)) (ps_aliases ps) (as_aliases st1)\<rparr>)"

definition create_persisted_services :: "'app service_api \<Rightarrow> 'app app_services \<Rightarrow> 'app app_services" where
  "create_persisted_services A st =
     fold (\<lambda>r st. case r of Inl _ \<Rightarrow> st | Inr ps \<Rightarrow> restore_service A ps st)
       (load_persisted_services A (as_services_dir st)) st"

definition app_services_new ::
    "'app service_api \<Rightarrow> directory \<Rightarrow> string \<Rightarrow> peer_id \<Rightarrow> peer_id \<Rightarrow> peer_id \<Rightarrow> module_repository \<Rightarrow> 'app app_services" where
  "app_services_new A dir vault_path local management builtins_management modules =
     create_persisted_services A
       \<lparr>as_services_dir = dir, as_vault_path = vault_path, as_local_peer_id = local, as_services = [],
        as_modules = modules, as_aliases = [], management_peer_id = management,
        builtins_management_peer_id = builtins_management\<rparr>"

subsection \<open>Removing services\<close>

definition remove_allowed ::
    "string \<Rightarrow> peer_id \<Rightarrow> bool \<Rightarrow> 'app app_services \<Rightarrow> service_error + string" where
  "remove_allowed id_or_alias init_peer_id allow_remove_spell st =
     (case get_service (as_services st) (as_aliases st) id_or_alias of
        Inl i \<Rightarrow> Inl (NoSuchService i)
      | Inr (s, sid) \<Rightarrow>
          (case get_blueprint_from_cache (srv_blueprint_id s) (as_modules st) of
             Inl e \<Rightarrow> Inl (ModuleError e)
           | Inr bp \<Rightarrow>
               if bp_name bp = ''spell'' \<and> \<not> allow_remove_spell
               then Inl (Forbidden init_peer_id ''remove_service'' ''cannot remove a spell'')
               else if bp_name bp \<noteq> ''spell'' \<and> allow_remove_spell
               then Inl (Forbidden init_peer_id ''remove_spell'' ''the service isn't a spell'')
               else if srv_owner_id s \<noteq> init_peer_id \<and> management_peer_id st \<noteq> init_peer_id \<and>
                       builtins_management_peer_id st \<noteq> init_peer_id
               then Inl (Forbidden init_peer_id ''remove_service'' ''only creator can remove service'')
               else Inr sid))"

text \<open>\<open>None\<close> is the panic of the final \<^verbatim>\<open>unwrap\<close>.\<close>

definition remove_service ::
    "'app service_api \<Rightarrow> string \<Rightarrow> peer_id \<Rightarrow> bool \<Rightarrow> 'app app_services \<Rightarrow>
     ((service_error + unit) \<times> 'app app_services) option" where
  "remove_service A id_or_alias init_peer_id allow_remove_spell st =
     (case remove_allowed id_or_alias init_peer_id allow_remove_spell st of
        Inl e \<Rightarrow> Some (Inl e, st)
      | Inr sid \<Rightarrow>
          (let dir = (case remove_persisted_service A sid (as_services_dir st) of
                        None \<Rightarrow> as_services_dir st | Some d \<Rightarrow> d)
           in case map_of (as_services st) sid of
                None \<Rightarrow> None
              | Some s \<Rightarrow>
                  Some (Inr (), st\<lparr>as_services_dir := dir,
                    as_services := AList.delete sid (as_services st),
                    as_aliases := fold AList.delete (srv_aliases s) (as_aliases st)\<rparr>)))"

subsection \<open>Calling services\<close>

definition create_vault :: "'app service_api \<Rightarrow> string \<Rightarrow> module_repository \<Rightarrow> module_repository option" where
  "create_vault A particle_id r =
     (if \<not> sa_can_create_vault A particle_id then None
      else Some (case map_of (mr_vault_dir r) particle_id of
                   None \<Rightarrow> r\<lparr>mr_vault_dir := AList.update particle_id [] (mr_vault_dir r)\<rparr>
                 | Some _ \<Rightarrow> r))"

definition service_call_params ::
    "'app service_api \<Rightarrow> 'app app_services \<Rightarrow> args \<Rightarrow> particle_params \<Rightarrow> 'app service \<Rightarrow> string \<Rightarrow> call_parameters" where
  "service_call_params A st a particle s sid =
     \<lparr>cpar_host_id = sa_peer_to_string A (as_local_peer_id st), cpar_particle_id = pp_id particle,
      cpar_init_peer_id = sa_peer_to_string A (pp_init_peer_id particle), cpar_tetraplets = tetraplets a,
      cpar_service_id = sid, cpar_service_creator = sa_peer_to_string A (srv_owner_id s)\<rparr>"

definition call_service ::
    "'app service_api \<Rightarrow> args \<Rightarrow> particle_params \<Rightarrow> 'app app_services \<Rightarrow> function_outcome \<times> 'app app_services" where
  "call_service A a particle st =
     (case get_service (as_services st) (as_aliases st) (service_id a) of
        Inl i \<Rightarrow> (NotDefined (a\<lparr>service_id := i\<rparr>) particle, st)
      | Inr (s, sid) \<Rightarrow>
          (case create_vault A (pp_id particle) (as_modules st) of
             None \<Rightarrow> (OutcomeErr (JErrorFrom ''CreateVault'' []), st)
           | Some modules \<Rightarrow>
               (let params = service_call_params A st a particle s sid;
                    (res, app) = sa_call A (srv_service s) (function_name a) (JArray (function_args a)) params;
                    st1 = st\<lparr>as_modules := modules, as_services := AList.update sid (s\<lparr>srv_service := app\<rparr>) (as_services st)\<rparr>
                in case res of
                     Inl e \<Rightarrow> (OutcomeErr (JErrorFrom ''Engine'' [e]), st1)
                   | Inr v \<Rightarrow> (OutcomeOk v, st1))))"

text \<open>\<open>uuid\<close>, \<open>now_ms\<close> and \<open>ttl_ms\<close>: the random particle id, the time and the time to live in milliseconds.\<close>

definition call_function ::
    "'app service_api \<Rightarrow> string \<Rightarrow> u64 \<Rightarrow> u32 \<Rightarrow> string \<Rightarrow> string \<Rightarrow> jvalue list \<Rightarrow> string option \<Rightarrow> peer_id \<Rightarrow>
     'app app_services \<Rightarrow> function_outcome \<times> 'app app_services" where
  "call_function A uuid now_ms ttl_ms sid fname fargs particle_id init_peer_id st =
     call_service A \<lparr>service_id = sid, function_name = fname, function_args = fargs, tetraplets = []\<rparr>
       \<lparr>pp_id = (case particle_id of Some i \<Rightarrow> i | None \<Rightarrow> uuid), pp_init_peer_id = init_peer_id,
        pp_timestamp = now_ms, pp_ttl = ttl_ms, pp_script = [], pp_signature = []\<rparr> st"

subsection \<open>Aliases\<close>

text \<open>The service that holds an alias, with the alias taken from its list.\<close>

definition previous_owner ::
    "string \<Rightarrow> (string \<times> string) list \<Rightarrow> (string \<times> 'app service) list \<Rightarrow> (string \<times> 'app service) option" where
  "previous_owner alias aliases services =
     Option.bind (map_of aliases alias)
       (\<lambda>i. map_option (\<lambda>prev. (i, service_remove_alias alias prev)) (map_of services i))"

text \<open>The two lists of aliases are changed before the files are written, the table of aliases after.\<close>

definition add_alias ::
    "'app service_api \<Rightarrow> string \<Rightarrow> string \<Rightarrow> peer_id \<Rightarrow> 'app app_services \<Rightarrow> (service_error + unit) \<times> 'app app_services" where
  "add_alias A alias sid init_peer_id st =
     (if init_peer_id \<noteq> management_peer_id st \<and> init_peer_id \<noteq> builtins_management_peer_id st
      then (Inl (Forbidden init_peer_id ''add_alias'' ''only management peer id can add aliases''), st)
      else if map_of (as_services st) alias \<noteq> None then (Inl (AliasAsServiceId alias), st)
      else
        (case map_of (as_services st) sid of
           None \<Rightarrow> (Inl (NoSuchService sid), st)
         | Some s0 \<Rightarrow>
             (let s = service_add_alias alias s0;
                  services = AList.update sid s (as_services st);
                  persisted_new = persisted_from_service sid s;
                  previous = previous_owner alias (as_aliases st) services;
                  services1 = (case previous of None \<Rightarrow> services | Some (i, prev) \<Rightarrow> AList.update i prev services);
                  st1 = st\<lparr>as_services := services1\<rparr>
              in case (case previous of
                         None \<Rightarrow> Inr (as_services_dir st)
                       | Some (i, prev) \<Rightarrow> persist_service A (persisted_from_service i prev) (as_services_dir st)) of
                   Inl e \<Rightarrow> (Inl (ModuleError e), st1)
                 | Inr dir \<Rightarrow>
                     (case persist_service A persisted_new dir of
                        Inl e \<Rightarrow> (Inl (ModuleError e), st1\<lparr>as_services_dir := dir\<rparr>)
                      | Inr dir1 \<Rightarrow>
                          (Inr (), st1\<lparr>as_services_dir := dir1,
                                       as_aliases := AList.update alias sid (as_aliases st)\<rparr>)))))"

definition resolve_alias :: "string \<Rightarrow> 'app app_services \<Rightarrow> service_error + string" where
  "resolve_alias alias st =
     (case map_of (as_aliases st) alias of None \<Rightarrow> Inl (NoSuchAlias alias) | Some sid \<Rightarrow> Inr sid)"

definition to_service_id :: "string \<Rightarrow> 'app app_services \<Rightarrow> service_error + string" where
  "to_service_id id_or_alias st =
     (case get_service (as_services st) (as_aliases st) id_or_alias of
        Inl i \<Rightarrow> Inl (NoSuchService i)
      | Inr (_, sid) \<Rightarrow> Inr sid)"

definition get_service_owner :: "string \<Rightarrow> 'app app_services \<Rightarrow> service_error + peer_id" where
  "get_service_owner id_or_alias st =
     (case get_service (as_services st) (as_aliases st) id_or_alias of
        Inl i \<Rightarrow> Inl (NoSuchService i)
      | Inr (s, _) \<Rightarrow> Inr (srv_owner_id s))"

definition get_interface ::
    "'app service_api \<Rightarrow> string \<Rightarrow> 'app app_services \<Rightarrow> (service_error + jvalue) \<times> 'app app_services" where
  "get_interface A id_or_alias st =
     (case get_service (as_services st) (as_aliases st) id_or_alias of
        Inl i \<Rightarrow> (Inl (NoSuchService i), st)
      | Inr (s, _) \<Rightarrow>
          (case get_facade_interface (sa_modules A) (srv_blueprint_id s) (as_modules st) of
             (Inl e, r) \<Rightarrow> (Inl (ModuleError e), st\<lparr>as_modules := r\<rparr>)
           | (Inr v, r) \<Rightarrow> (Inr v, st\<lparr>as_modules := r\<rparr>)))"

definition list_services_with_blueprints :: "'app app_services \<Rightarrow> (string \<times> string) list" where
  "list_services_with_blueprints st = map (\<lambda>(sid, s). (sid, srv_blueprint_id s)) (as_services st)"

definition list_services :: "'app service_api \<Rightarrow> 'app app_services \<Rightarrow> jvalue list" where
  "list_services A st =
     map (\<lambda>(sid, s). JObject [(''id'', JString sid), (''blueprint_id'', JString (srv_blueprint_id s)),
        (''owner_id'', JString (sa_peer_to_string A (srv_owner_id s))),
        (''aliases'', JArray (map JString (srv_aliases s)))]) (as_services st)"

subsection \<open>The registry that services implement\<close>

text \<open>What clients see of the services: a map from ids to blueprint, owner and aliases. An alias belongs to one service,
  and giving it to another takes it from the first.\<close>

type_synonym registry = "string \<rightharpoonup> persisted_service"

datatype service_op =
    CreateOp string string peer_id \<comment> \<open>the new id, the blueprint, the caller\<close>
  | RemoveOp string peer_id bool
  | AliasOp string string peer_id \<comment> \<open>the alias, the service, the caller\<close>

definition give_alias :: "string \<Rightarrow> string \<Rightarrow> registry \<Rightarrow> registry" where
  "give_alias alias sid m =
     (\<lambda>i. map_option (\<lambda>ps. if i = sid then ps\<lparr>ps_aliases := ps_aliases ps @ [alias]\<rparr>
                           else ps\<lparr>ps_aliases := filter (\<lambda>a. a \<noteq> alias) (ps_aliases ps)\<rparr>) (m i))"

inductive registry_step :: "service_op \<Rightarrow> registry \<Rightarrow> registry \<Rightarrow> bool" where
  "registry_step (CreateOp uuid bp peer) m
     (m(uuid \<mapsto> \<lparr>ps_service_id = uuid, ps_blueprint_id = bp, ps_aliases = [], ps_owner_id = peer\<rparr>))"
| "m i = Some ps \<Longrightarrow> i = x \<or> (m x = None \<and> x \<in> set (ps_aliases ps)) \<Longrightarrow> registry_step (RemoveOp x peer spell) m (m(i := None))"
| "m sid \<noteq> None \<Longrightarrow> m alias = None \<Longrightarrow> registry_step (AliasOp alias sid peer) m (give_alias alias sid m)"

definition service_exec ::
    "'app service_api \<Rightarrow> service_op \<Rightarrow> 'app app_services \<Rightarrow> ((service_error + unit) \<times> 'app app_services) option" where
  "service_exec A oper st =
     (case oper of
        CreateOp uuid bp peer \<Rightarrow> Some (apfst (map_sum id (\<lambda>_. ())) (create_service A uuid bp peer st))
      | RemoveOp x peer spell \<Rightarrow> remove_service A x peer spell st
      | AliasOp alias sid peer \<Rightarrow> Some (add_alias A alias sid peer st))"

definition registry_of :: "'app app_services \<Rightarrow> registry" where
  "registry_of st sid = map_option (persisted_from_service sid) (map_of (as_services st) sid)"

definition aliases_agree :: "'app app_services \<Rightarrow> bool" where
  "aliases_agree st \<longleftrightarrow> (\<forall>a sid. map_of (as_aliases st) a = Some sid \<longleftrightarrow>
     (\<exists>s. map_of (as_services st) sid = Some s \<and> a \<in> set (srv_aliases s)))"

definition services_synced :: "'app service_api \<Rightarrow> 'app app_services \<Rightarrow> bool" where
  "services_synced A st \<longleftrightarrow>
     dir_named service_file_name is_service (sa_from_toml A) ps_service_id (as_services_dir st) \<and>
     dir_view service_file_name (sa_from_toml A) (as_services_dir st) = registry_of st \<and> aliases_agree st"

text \<open>What is assumed of toml and of the disk.\<close>

definition disk_works :: "'app service_api \<Rightarrow> bool" where
  "disk_works A \<longleftrightarrow> (\<forall>f. sa_can_write A f \<and> sa_can_remove A f) \<and>
     (\<forall>ps. \<exists>b. sa_to_toml A ps = Some b \<and> sa_from_toml A b = Some ps)"

text \<open>The id of a new service is new, and an alias is not given to the service that holds it already.\<close>

fun op_fresh :: "service_op \<Rightarrow> 'app app_services \<Rightarrow> bool" where
  "op_fresh (CreateOp uuid bp peer) st = (map_of (as_services st) uuid = None)"
| "op_fresh (RemoveOp x peer spell) st = True"
| "op_fresh (AliasOp alias sid peer) st = (map_of (as_aliases st) alias \<noteq> Some sid)"

interpretation srv_files: named_files service_file_name is_service
  by unfold_locales (auto simp: service_file_name_def is_service_def)

abbreviation services_named :: "'app service_api \<Rightarrow> directory \<Rightarrow> bool" where
  "services_named A \<equiv> dir_named service_file_name is_service (sa_from_toml A) ps_service_id"

abbreviation services_view :: "'app service_api \<Rightarrow> directory \<Rightarrow> registry" where
  "services_view A \<equiv> dir_view service_file_name (sa_from_toml A)"

lemma persist_service_works:
  assumes "disk_works A" and "services_named A dir"
  shows "\<exists>dir'. persist_service A ps dir = Inr dir' \<and> services_named A dir' \<and>
     services_view A dir' = (services_view A dir)(ps_service_id ps \<mapsto> ps)"
proof -
  from assms(1) obtain b where b: "sa_to_toml A ps = Some b" "sa_from_toml A b = Some ps" "\<And>f. sa_can_write A f"
    by (auto simp: disk_works_def)
  show ?thesis
    using srv_files.named_update [where read = "sa_from_toml A" and key = ps_service_id, OF assms(2) b(2) refl] b
    by (simp add: persist_service_def Let_def srv_files.view_update)
qed

lemma remove_persisted_works:
  assumes "disk_works A" and "services_named A dir" and "services_view A dir sid \<noteq> None"
  shows "\<exists>dir'. remove_persisted_service A sid dir = Some dir' \<and> services_named A dir' \<and>
     services_view A dir' = (services_view A dir)(sid := None)"
proof -
  have "map_of dir (service_file_name sid) \<noteq> None" using assms(3) by (auto simp: dir_view_def bind_eq_Some_conv)
  with assms srv_files.named_delete [OF assms(2)] show ?thesis
    by (simp add: remove_persisted_service_def disk_works_def Let_def srv_files.view_delete)
qed

lemma registry_of_update:
  "registry_of (st\<lparr>as_services := AList.update sid s (as_services st)\<rparr>) = (registry_of st)(sid \<mapsto> persisted_from_service sid s)"
  by (auto simp: registry_of_def update_conv' fun_eq_iff)

lemma registry_of_cong: "as_services st = as_services st' \<Longrightarrow> registry_of st = registry_of st'"
  by (simp add: registry_of_def fun_eq_iff)

lemma map_of_fold_delete: "map_of (fold AList.delete xs m) a = (if a \<in> set xs then None else map_of m a)"
  by (induction xs arbitrary: m) (auto simp: delete_conv')

lemma registry_alias:
  assumes "aliases_agree st" and "registry_of st i = Some ps"
  shows "a \<in> set (ps_aliases ps) \<longleftrightarrow> map_of (as_aliases st) a = Some i"
  using assms by (auto simp: aliases_agree_def registry_of_def persisted_from_service_def)

lemma get_service_InrD:
  assumes "get_service services aliases x = Inr (s, sid)"
  shows "map_of services sid = Some s" and "sid = x \<or> map_of services x = None \<and> map_of aliases x = Some sid"
  using assms by (auto simp: get_service_def split: option.splits)

lemma create_service_refines:
  assumes "disk_works A" and "services_synced A st" and "map_of (as_services st) uuid = None"
    and "create_service A uuid bp peer st = (res, st')"
  shows "services_synced A st' \<and>
    (case res of Inl _ \<Rightarrow> st' = st
     | Inr i \<Rightarrow> i = uuid \<and> registry_of st' = (registry_of st)(uuid \<mapsto>
         \<lparr>ps_service_id = uuid, ps_blueprint_id = bp, ps_aliases = [], ps_owner_id = peer\<rparr>))"
proof -
  let ?ps = "\<lparr>ps_service_id = uuid, ps_blueprint_id = bp, ps_aliases = [], ps_owner_id = peer\<rparr>"
  obtain dir where dir: "persist_service A ?ps (as_services_dir st) = Inr dir" "services_named A dir"
      "services_view A dir = (services_view A (as_services_dir st))(uuid \<mapsto> ?ps)"
    using persist_service_works [OF assms(1), of "as_services_dir st" ?ps] assms(2) by (auto simp: services_synced_def)
  show ?thesis
  proof (cases res)
    case Inl
    with assms(2,4) show ?thesis
      by (auto simp: create_service_def create_service_inner_def split: prod.splits sum.splits)
  next
    case (Inr i)
    with assms(4) dir(1) obtain app where st': "i = uuid" "st' = st\<lparr>as_services_dir := dir,
        as_services := AList.update uuid \<lparr>srv_service = app, srv_blueprint_id = bp, srv_owner_id = peer, srv_aliases = []\<rparr>
          (as_services st)\<rparr>"
      by (auto simp: create_service_def create_service_inner_def create_app_service_def split: prod.splits sum.splits)
    have "registry_of st' = (registry_of st)(uuid \<mapsto> ?ps)"
      unfolding st' by (auto simp: registry_of_def update_conv' persisted_from_service_def fun_eq_iff)
    moreover have "aliases_agree st'"
      using assms(2,3) unfolding st' by (auto simp: services_synced_def aliases_agree_def update_conv')
    ultimately show ?thesis using Inr assms(2) dir st' by (simp add: services_synced_def)
  qed
qed

lemma remove_service_refines:
  assumes "disk_works A" and "services_synced A st"
  shows "\<exists>res st'. remove_service A x peer spell st = Some (res, st') \<and> services_synced A st' \<and>
    (case res of Inl _ \<Rightarrow> st' = st | Inr _ \<Rightarrow> registry_step (RemoveOp x peer spell) (registry_of st) (registry_of st'))"
proof (cases "remove_allowed x peer spell st")
  case (Inl e)
  with assms(2) show ?thesis by (simp add: remove_service_def)
next
  case (Inr sid)
  then obtain s where "get_service (as_services st) (as_aliases st) x = Inr (s, sid)"
    by (auto simp: remove_allowed_def split: sum.splits if_splits)
  note got = get_service_InrD [OF this]
  then have reg: "registry_of st sid = Some (persisted_from_service sid s)" by (simp add: registry_of_def)
  with assms obtain dir where dir: "remove_persisted_service A sid (as_services_dir st) = Some dir" "services_named A dir"
      "services_view A dir = (registry_of st)(sid := None)"
    using remove_persisted_works [OF assms(1), of "as_services_dir st" sid] by (auto simp: services_synced_def)
  let ?st = "st\<lparr>as_services_dir := dir, as_services := AList.delete sid (as_services st),
                as_aliases := fold AList.delete (srv_aliases s) (as_aliases st)\<rparr>"
  have owner: "map_of (as_aliases st) a = Some i \<longleftrightarrow> (\<exists>s. map_of (as_services st) i = Some s \<and> a \<in> set (srv_aliases s))" for a i
    using assms(2) by (simp add: services_synced_def aliases_agree_def)
  have agree: "aliases_agree ?st"
    unfolding aliases_agree_def
  proof (intro allI)
    fix a i
    show "map_of (as_aliases ?st) a = Some i \<longleftrightarrow> (\<exists>s'. map_of (as_services ?st) i = Some s' \<and> a \<in> set (srv_aliases s'))"
      using owner [of a i] owner [of a sid] got(1)
      by (cases "a \<in> set (srv_aliases s)"; cases "i = sid") (auto simp: delete_conv' map_of_fold_delete)
  qed
  have reg': "registry_of ?st = (registry_of st)(sid := None)"
    by (auto simp: registry_of_def delete_conv' fun_eq_iff)
  have "sid = x \<or> registry_of st x = None \<and> x \<in> set (ps_aliases (persisted_from_service sid s))"
    using got assms(2) by (auto simp: services_synced_def aliases_agree_def registry_of_def persisted_from_service_def)
  with reg have "registry_step (RemoveOp x peer spell) (registry_of st) (registry_of ?st)"
    unfolding reg' by (auto intro: registry_step.intros(2))
  moreover have "remove_service A x peer spell st = Some (Inr (), ?st)"
    using Inr dir(1) got(1) by (simp add: remove_service_def)
  moreover have "services_synced A ?st" using agree dir reg' by (simp add: services_synced_def)
  ultimately show ?thesis by (metis (no_types, lifting) sum.case(2))
qed

lemma previous_owner_other:
  assumes "map_of aliases alias \<noteq> Some sid"
  shows "previous_owner alias aliases (AList.update sid s services) = previous_owner alias aliases services"
  using assms by (cases "map_of aliases alias") (auto simp: previous_owner_def update_conv')

lemma persisted_id [simp]: "ps_service_id (persisted_from_service i x) = i"
  by (simp add: persisted_from_service_def)

text \<open>The services after an alias has been given to \<open>sid\<close>: only its previous owner may have held it.\<close>

lemma services_after_alias:
  assumes "aliases_agree st" and "map_of (as_aliases st) alias \<noteq> Some sid"
    and "prev = previous_owner alias (as_aliases st) (as_services st)"
  shows "map_of (case prev of None \<Rightarrow> AList.update sid s (as_services st)
                 | Some (i, p) \<Rightarrow> AList.update i p (AList.update sid s (as_services st))) i =
         (if i = sid then Some s else map_option (service_remove_alias alias) (map_of (as_services st) i))"
proof -
  have owner: "map_of (as_aliases st) alias = Some i \<longleftrightarrow> (\<exists>s. map_of (as_services st) i = Some s \<and> alias \<in> set (srv_aliases s))" for i
    using assms(1) by (simp add: aliases_agree_def)
  have same: "service_remove_alias alias s = s" if "alias \<notin> set (srv_aliases s)" for s :: "'a service"
    using that by (cases s) (auto simp: service_remove_alias_def filter_id_conv)
  show ?thesis
  proof (cases "map_of (as_aliases st) alias")
    case None
    with owner have "map_option (service_remove_alias alias) (map_of (as_services st) i) = map_of (as_services st) i" for i
      by (cases "map_of (as_services st) i") (auto intro: same)
    with None assms(3) show ?thesis by (simp add: previous_owner_def update_conv')
  next
    case (Some j)
    with owner obtain s' where s': "map_of (as_services st) j = Some s'" by blast
    have "map_option (service_remove_alias alias) (map_of (as_services st) i) = map_of (as_services st) i" if "i \<noteq> j" for i
      using that owner [of i] Some by (cases "map_of (as_services st) i") (auto intro: same)
    with Some s' assms(2,3) show ?thesis by (auto simp: previous_owner_def update_conv')
  qed
qed

lemma persist_alias_works:
  assumes "disk_works A" and "services_named A dir"
  shows "\<exists>d1 d2. (case prev of None \<Rightarrow> Inr dir | Some (i, p) \<Rightarrow> persist_service A (persisted_from_service i p) dir) = Inr d1 \<and>
     persist_service A (persisted_from_service sid s) d1 = Inr d2 \<and> services_named A d2 \<and>
     services_view A d2 = (case prev of None \<Rightarrow> services_view A dir
       | Some (i, p) \<Rightarrow> (services_view A dir)(i \<mapsto> persisted_from_service i p))(sid \<mapsto> persisted_from_service sid s)"
proof -
  obtain d1 where d1: "(case prev of None \<Rightarrow> Inr dir | Some (i, p) \<Rightarrow> persist_service A (persisted_from_service i p) dir) = Inr d1"
      "services_named A d1" "services_view A d1 = (case prev of None \<Rightarrow> services_view A dir
       | Some (i, p) \<Rightarrow> (services_view A dir)(i \<mapsto> persisted_from_service i p))"
    using assms(2) persist_service_works [OF assms, of "persisted_from_service (fst (the prev)) (snd (the prev))"]
    by (cases prev) auto
  with persist_service_works [OF assms(1) d1(2), of "persisted_from_service sid s"] show ?thesis by auto
qed

lemma add_alias_refines:
  assumes "disk_works A" and "services_synced A st" and "map_of (as_aliases st) alias \<noteq> Some sid"
    and "add_alias A alias sid peer st = (res, st')"
  shows "services_synced A st' \<and>
    (case res of Inl _ \<Rightarrow> st' = st | Inr _ \<Rightarrow> registry_step (AliasOp alias sid peer) (registry_of st) (registry_of st'))"
proof (cases "(peer \<noteq> management_peer_id st \<and> peer \<noteq> builtins_management_peer_id st) \<or>
    map_of (as_services st) alias \<noteq> None \<or> map_of (as_services st) sid = None")
  case True
  then have "st' = st \<and> (\<exists>e. res = Inl e)" using assms(4) by (auto simp: add_alias_def split: if_splits)
  with assms(2) show ?thesis by auto
next
  case False
  then obtain s0 where s0: "map_of (as_services st) sid = Some s0" by auto
  have agree: "aliases_agree st" and view: "services_view A (as_services_dir st) = registry_of st"
    and named: "services_named A (as_services_dir st)" using assms(2) by (simp_all add: services_synced_def)
  let ?s = "service_add_alias alias s0"
  define prev where "prev = previous_owner alias (as_aliases st) (as_services st)"
  note services = services_after_alias [OF agree assms(3) prev_def, of ?s]
  obtain d1 d2 where dirs: "(case prev of None \<Rightarrow> Inr (as_services_dir st)
        | Some (i, p) \<Rightarrow> persist_service A (persisted_from_service i p) (as_services_dir st)) = Inr d1"
      "persist_service A (persisted_from_service sid ?s) d1 = Inr d2" "services_named A d2"
      "services_view A d2 = (case prev of None \<Rightarrow> registry_of st
       | Some (i, p) \<Rightarrow> (registry_of st)(i \<mapsto> persisted_from_service i p))(sid \<mapsto> persisted_from_service sid ?s)"
    using persist_alias_works [OF assms(1) named, of prev sid ?s] unfolding view by blast
  have st': "res = Inr ()" "st' = st\<lparr>as_services := (case prev of None \<Rightarrow> AList.update sid ?s (as_services st)
        | Some (i, p) \<Rightarrow> AList.update i p (AList.update sid ?s (as_services st))),
      as_services_dir := d2, as_aliases := AList.update alias sid (as_aliases st)\<rparr>"
    using assms(4) False s0 dirs(1,2) unfolding prev_def
    by (auto simp: add_alias_def Let_def previous_owner_other [OF assms(3)])
  have "registry_of st' = give_alias alias sid (registry_of st)"
    unfolding registry_of_def give_alias_def fun_eq_iff using s0
    by (auto simp: st' services persisted_from_service_def service_add_alias_def service_remove_alias_def
        option.map_comp comp_def)
  moreover have "services_view A d2 = registry_of st'"
  proof -
    have "i \<noteq> sid" if "prev = Some (i, p)" for i p
      using that assms(3) by (auto simp: prev_def previous_owner_def bind_eq_Some_conv)
    then show ?thesis
      unfolding dirs(4) by (cases prev) (auto simp: st' registry_of_def update_conv' fun_eq_iff)
  qed
  moreover have "aliases_agree st'"
    using agree s0 unfolding aliases_agree_def
    by (auto simp: st' services update_conv' service_add_alias_def service_remove_alias_def)
  ultimately show ?thesis
    using False dirs(3) s0 st' by (auto simp: services_synced_def registry_of_def intro!: registry_step.intros(3))
qed

text \<open>C15 [services_refine_registry]: Services implement the registry: with a working disk, creating a service under a
  new id, removing one and giving an alias to a service that does not hold it yet never panic; a refused request changes nothing, and an
  accepted one is exactly the step of the registry. The files and the table of aliases agree with the services
  throughout: an alias leads to the one service that lists it.\<close>

theorem services_refine_registry:
  assumes "disk_works A" and "services_synced A st" and "op_fresh oper st"
  shows "\<exists>res st'. service_exec A oper st = Some (res, st') \<and> services_synced A st' \<and>
     (case res of Inl _ \<Rightarrow> st' = st | Inr _ \<Rightarrow> registry_step oper (registry_of st) (registry_of st'))"
proof (cases oper)
  case (CreateOp uuid bp peer)
  obtain res st' where create: "create_service A uuid bp peer st = (res, st')" by (cases "create_service A uuid bp peer st")
  with create_service_refines [OF assms(1,2) _ create] CreateOp assms(3) show ?thesis
    by (cases res) (auto simp: service_exec_def intro: registry_step.intros(1))
next
  case (RemoveOp x peer spell)
  show ?thesis unfolding RemoveOp service_exec_def using remove_service_refines [OF assms(1,2), of x peer spell] by simp
next
  case (AliasOp al sid peer)
  obtain res st' where add: "add_alias A al sid peer st = (res, st')" by (cases "add_alias A al sid peer st")
  with add_alias_refines [OF assms(1,2) _ add] AliasOp assms(3) show ?thesis by (auto simp: service_exec_def)
qed

subsection \<open>Restart\<close>

definition recreatable :: "'app service_api \<Rightarrow> string \<Rightarrow> module_repository \<Rightarrow> persisted_service \<Rightarrow> bool" where
  "recreatable A path modules ps \<longleftrightarrow>
     (\<exists>ds app. resolve_blueprint (sa_modules A) (ps_blueprint_id ps) modules = Inr ds \<and>
        sa_new A (map (inject_vault path) ds) (ps_service_id ps) = Inr app)"

lemma map_of_fold_alias: "map_of (fold (\<lambda>alias. AList.update alias sid) xs m) a = (if a \<in> set xs then Some sid else map_of m a)"
  by (induction xs arbitrary: m) (auto simp: update_conv')

lemma create_persisted_loaded:
  "create_persisted_services A st = fold (restore_service A) (loaded is_service (sa_from_toml A) (as_services_dir st)) st"
proof -
  have "fold (\<lambda>r st. case r of Inl _ \<Rightarrow> st | Inr ps \<Rightarrow> restore_service A ps st) (load_persisted_services A dir) st =
      fold (restore_service A) (loaded is_service (sa_from_toml A) dir) st" for dir st
    by (induction dir arbitrary: st) (auto simp: load_persisted_services_def split: option.splits)
  then show ?thesis by (simp add: create_persisted_services_def)
qed

lemma restore_service_step:
  assumes "disk_works A" and "services_named A (as_services_dir st)" and "recreatable A (as_vault_path st) (as_modules st) ps"
    and "map_of (as_services st) (ps_service_id ps) = None" and "aliases_agree st"
    and "\<forall>a\<in>set (ps_aliases ps). map_of (as_aliases st) a = None"
  shows "registry_of (restore_service A ps st) = (registry_of st)(ps_service_id ps \<mapsto> ps) \<and>
    services_named A (as_services_dir (restore_service A ps st)) \<and>
    services_view A (as_services_dir (restore_service A ps st)) = (services_view A (as_services_dir st))(ps_service_id ps \<mapsto> ps) \<and>
    aliases_agree (restore_service A ps st) \<and> as_vault_path (restore_service A ps st) = as_vault_path st \<and>
    as_modules (restore_service A ps st) = as_modules st \<and>
    (\<forall>a. map_of (as_aliases (restore_service A ps st)) a =
      (if a \<in> set (ps_aliases ps) then Some (ps_service_id ps) else map_of (as_aliases st) a))"
proof -
  let ?sid = "ps_service_id ps"
  from persist_service_works [OF assms(1,2), of ps] obtain dir where dir: "persist_service A ps (as_services_dir st) = Inr dir"
    "services_named A dir" "services_view A dir = (services_view A (as_services_dir st))(?sid \<mapsto> ps)" by blast
  from assms(3) dir(1) obtain app where app: "create_app_service A (ps_blueprint_id ps) ?sid (ps_aliases ps) (ps_owner_id ps) st = Inr (app, dir)"
    by (cases ps) (auto simp: recreatable_def create_app_service_def)
  let ?s = "\<lparr>srv_service = app, srv_blueprint_id = ps_blueprint_id ps, srv_owner_id = ps_owner_id ps, srv_aliases = ps_aliases ps\<rparr>"
  have st': "restore_service A ps st = st\<lparr>as_services_dir := dir, as_services := AList.update ?sid ?s (as_services st),
      as_aliases := fold (\<lambda>alias. AList.update alias ?sid) (ps_aliases ps) (as_aliases st)\<rparr>"
    using app by (simp add: restore_service_def create_service_inner_def)
  have "registry_of (restore_service A ps st) = (registry_of st)(?sid \<mapsto> ps)"
    unfolding st' by (cases ps) (auto simp: registry_of_def update_conv' persisted_from_service_def fun_eq_iff)
  moreover have "aliases_agree (restore_service A ps st)"
    unfolding aliases_agree_def
  proof (intro allI)
    fix a i
    have "map_of (as_aliases st) a = Some i \<longleftrightarrow> (\<exists>s. map_of (as_services st) i = Some s \<and> a \<in> set (srv_aliases s))"
      using assms(5) by (simp add: aliases_agree_def)
    then show "map_of (as_aliases (restore_service A ps st)) a = Some i \<longleftrightarrow>
        (\<exists>s. map_of (as_services (restore_service A ps st)) i = Some s \<and> a \<in> set (srv_aliases s))"
      using assms(4,6) unfolding st'
      by (cases "a \<in> set (ps_aliases ps)"; cases "i = ?sid") (auto simp: update_conv' map_of_fold_alias)
  qed
  ultimately show ?thesis using dir by (simp add: st' map_of_fold_alias)
qed

lemma fold_restore_services:
  assumes "disk_works A" and "distinct (map ps_service_id xs)" and "services_named A (as_services_dir st)"
    and "\<forall>ps\<in>set xs. recreatable A (as_vault_path st) (as_modules st) ps" and "\<forall>ps\<in>set xs. registry_of st (ps_service_id ps) = None"
    and "aliases_agree st" and "\<forall>ps\<in>set xs. \<forall>a\<in>set (ps_aliases ps). map_of (as_aliases st) a = None"
    and "\<forall>ps\<in>set xs. \<forall>ps'\<in>set xs. set (ps_aliases ps) \<inter> set (ps_aliases ps') \<noteq> {} \<longrightarrow> ps = ps'"
  shows "let st' = fold (restore_service A) xs st; new = map_of (map (\<lambda>ps. (ps_service_id ps, ps)) xs) in
    registry_of st' = registry_of st ++ new \<and> services_named A (as_services_dir st') \<and>
    services_view A (as_services_dir st') = services_view A (as_services_dir st) ++ new \<and> aliases_agree st'"
  using assms(2-)
proof (induction xs arbitrary: st)
  case (Cons ps xs)
  let ?st = "restore_service A ps st"
  have free: "map_of (as_services st) (ps_service_id ps) = None"
    using Cons.prems(4) by (simp add: registry_of_def)
  note step = restore_service_step [OF assms(1) Cons.prems(2) _ free Cons.prems(5)]
  have step: "registry_of ?st = (registry_of st)(ps_service_id ps \<mapsto> ps)" "services_named A (as_services_dir ?st)"
      "services_view A (as_services_dir ?st) = (services_view A (as_services_dir st))(ps_service_id ps \<mapsto> ps)"
      "aliases_agree ?st" "as_vault_path ?st = as_vault_path st" "as_modules ?st = as_modules st"
      "\<And>a. map_of (as_aliases ?st) a = (if a \<in> set (ps_aliases ps) then Some (ps_service_id ps) else map_of (as_aliases st) a)"
    using step Cons.prems(3,6) by auto
  have "\<forall>q\<in>set xs. registry_of ?st (ps_service_id q) = None"
    using Cons.prems(1,4) step(1) by (auto simp: image_iff)
  moreover have "\<forall>q\<in>set xs. \<forall>a\<in>set (ps_aliases q). map_of (as_aliases ?st) a = None"
    using Cons.prems(1,6,7) step(7) by fastforce
  ultimately have IH: "let st' = fold (restore_service A) xs ?st; new = map_of (map (\<lambda>ps. (ps_service_id ps, ps)) xs) in
    registry_of st' = registry_of ?st ++ new \<and> services_named A (as_services_dir st') \<and>
    services_view A (as_services_dir st') = services_view A (as_services_dir ?st) ++ new \<and> aliases_agree st'"
    using Cons.prems step by (intro Cons.IH) auto
  have "ps_service_id ps \<notin> dom (map_of (map (\<lambda>ps. (ps_service_id ps, ps)) xs))"
    using Cons.prems(1) by (auto dest!: map_of_SomeD)
  with IH step(1,3) show ?case by (simp add: Let_def map_add_upd_left del: fun_upd_apply)
qed simp

text \<open>C16 [services_survive_restart]: Services survive a restart: started on a directory that agrees with the services
  of the node before, and with blueprints from which they can be created again, the node has the
  same services with the same owners and aliases, every alias leads to its service, and files and memory agree.\<close>

theorem services_survive_restart:
  fixes A :: "'app service_api"
  assumes "disk_works A" and "services_synced A st"
    and "\<forall>sid ps. registry_of st sid = Some ps \<longrightarrow> recreatable A path modules ps"
  shows "let new = app_services_new A (as_services_dir st) path local management builtins_management modules in
     registry_of new = registry_of st \<and> services_synced A new \<and> resolve_alias a new = resolve_alias a st"
proof -
  let ?start = "\<lparr>as_services_dir = as_services_dir st, as_vault_path = path, as_local_peer_id = local, as_services = [],
        as_modules = modules, as_aliases = [], management_peer_id = management, builtins_management_peer_id = builtins_management\<rparr> :: 'app app_services"
  let ?xs = "loaded is_service (sa_from_toml A) (as_services_dir st)"
  let ?new = "app_services_new A (as_services_dir st) path local management builtins_management modules"
  have named: "services_named A (as_services_dir st)" and view: "services_view A (as_services_dir st) = registry_of st"
    and agree: "aliases_agree st" using assms(2) by (simp_all add: services_synced_def)
  have new: "?new = fold (restore_service A) ?xs ?start"
    by (simp add: app_services_new_def create_persisted_loaded)
  have view': "map_of (map (\<lambda>ps. (ps_service_id ps, ps)) ?xs) = registry_of st"
    using srv_files.loaded_view [OF named] view by (simp add: fun_eq_iff)
  have mem: "registry_of st (ps_service_id ps) = Some ps" if "ps \<in> set ?xs" for ps
    using that srv_files.loaded_keys [OF named] unfolding view' [symmetric]
    by (intro map_of_is_SomeI) (auto simp: comp_def)
  have unique: "ps = ps'" if "ps \<in> set ?xs" "ps' \<in> set ?xs" "a \<in> set (ps_aliases ps)" "a \<in> set (ps_aliases ps')" for ps ps' a
    using registry_alias [OF agree mem [OF that(1)], of a] registry_alias [OF agree mem [OF that(2)], of a] that mem
    by (metis option.inject)
  have start: "registry_of ?start = Map.empty" "aliases_agree ?start" by (auto simp: registry_of_def aliases_agree_def)
  have "let st' = fold (restore_service A) ?xs ?start; new = map_of (map (\<lambda>ps. (ps_service_id ps, ps)) ?xs) in
    registry_of st' = registry_of ?start ++ new \<and> services_named A (as_services_dir st') \<and>
    services_view A (as_services_dir st') = services_view A (as_services_dir ?start) ++ new \<and> aliases_agree st'"
  proof (rule fold_restore_services [OF assms(1)])
    show "distinct (map ps_service_id ?xs)" by (rule srv_files.loaded_keys [OF named])
    show "\<forall>ps\<in>set ?xs. recreatable A (as_vault_path ?start) (as_modules ?start) ps" using assms(3) mem by auto
    show "\<forall>ps\<in>set ?xs. \<forall>ps'\<in>set ?xs. set (ps_aliases ps) \<inter> set (ps_aliases ps') \<noteq> {} \<longrightarrow> ps = ps'" using unique by blast
  qed (use named start in auto)
  then have all: "registry_of ?new = registry_of st" "services_named A (as_services_dir ?new)"
      "services_view A (as_services_dir ?new) = registry_of st" "aliases_agree ?new"
    unfolding new view' by (simp_all add: Let_def start view map_add_subsumed1)
  have "map_of (as_aliases ?new) a = Some i \<longleftrightarrow> map_of (as_aliases st) a = Some i" for i
    using all(4) agree fun_cong [OF all(1), of i]
    by (cases "map_of (as_services ?new) i"; cases "map_of (as_services st) i")
      (auto simp: aliases_agree_def registry_of_def persisted_from_service_def)
  then have "map_of (as_aliases ?new) a = map_of (as_aliases st) a" by (metis option.exhaust)
  with all show ?thesis by (simp add: Let_def services_synced_def resolve_alias_def)
qed

subsection \<open>A sample disk\<close>

text \<open>A number is written in unary, a list with its length before it, a character as its code.\<close>

definition enc_nat :: "nat \<Rightarrow> bytes" where
  "enc_nat n = replicate n 1 @ [0]"

fun dec_nat :: "bytes \<Rightarrow> nat \<times> bytes" where
  "dec_nat [] = (0, [])"
| "dec_nat (b # bs) = (if b = 1 then apfst Suc (dec_nat bs) else (0, bs))"

fun dec_many :: "(bytes \<Rightarrow> 'a \<times> bytes) \<Rightarrow> nat \<Rightarrow> bytes \<Rightarrow> 'a list \<times> bytes" where
  "dec_many dec 0 bs = ([], bs)"
| "dec_many dec (Suc n) bs = (let (x, r) = dec bs in apfst (Cons x) (dec_many dec n r))"

definition enc_list :: "('a \<Rightarrow> bytes) \<Rightarrow> 'a list \<Rightarrow> bytes" where
  "enc_list enc xs = enc_nat (length xs) @ concat (map enc xs)"

definition dec_list :: "(bytes \<Rightarrow> 'a \<times> bytes) \<Rightarrow> bytes \<Rightarrow> 'a list \<times> bytes" where
  "dec_list dec bs = (let (n, r) = dec_nat bs in dec_many dec n r)"

definition enc_string :: "string \<Rightarrow> bytes" where
  "enc_string = enc_list (\<lambda>c. enc_nat (of_char c))"

definition dec_string :: "bytes \<Rightarrow> string \<times> bytes" where
  "dec_string = dec_list (\<lambda>bs. apfst char_of (dec_nat bs))"

lemma dec_enc_nat [simp]: "dec_nat (enc_nat n @ r) = (n, r)"
  by (induction n) (simp_all add: enc_nat_def)

lemma dec_enc_list:
  assumes "\<And>x r. dec (enc x @ r) = (x, r)"
  shows "dec_list dec (enc_list enc xs @ r) = (xs, r)"
proof -
  have "dec_many dec (length xs) (concat (map enc xs) @ r) = (xs, r)"
    by (induction xs) (simp_all add: assms)
  then show ?thesis by (simp add: dec_list_def enc_list_def)
qed

lemma dec_enc_string [simp]: "dec_string (enc_string s @ r) = (s, r)"
  unfolding dec_string_def enc_string_def by (rule dec_enc_list) simp

definition sample_services :: "nat service_api" where
  "sample_services = \<lparr>sa_modules = toml_modules, sa_new = (\<lambda>ds sid. Inr (length sid)), sa_call = (\<lambda>n f v p. (Inr v, Suc n)),
     sa_to_toml = (\<lambda>ps. Some (enc_string (ps_service_id ps) @ enc_string (ps_blueprint_id ps) @
        enc_list enc_string (ps_aliases ps) @ enc_nat (ps_owner_id ps))),
     sa_from_toml = (\<lambda>b. let (sid, b1) = dec_string b; (bp, b2) = dec_string b1; (as, b3) = dec_list dec_string b2
        in Some \<lparr>ps_service_id = sid, ps_blueprint_id = bp, ps_aliases = as, ps_owner_id = fst (dec_nat b3)\<rparr>),
     sa_can_write = (\<lambda>_. True), sa_can_remove = (\<lambda>_. True), sa_can_create_vault = (\<lambda>_. True),
     sa_peer_to_string = (\<lambda>p. [])\<rparr>"

lemma sample_disk_works: "disk_works sample_services"
proof -
  have "dec_list dec_string (enc_list enc_string as @ r) = (as, r)" for as r by (rule dec_enc_list) simp
  moreover have "dec_nat (enc_nat n) = (n, [])" for n using dec_enc_nat [of n "[]"] by simp
  ultimately show ?thesis by (simp add: disk_works_def sample_services_def)
qed

text \<open>A node with the management peers 1 and 2 and no services, and a repository with one blueprint of no modules.\<close>

definition sample_node :: "nat app_services" where
  "sample_node = \<lparr>as_services_dir = [], as_vault_path = ''/vault'', as_local_peer_id = 0, as_services = [],
     as_modules = sample_repository\<lparr>mr_blueprints := [(''x'', \<lparr>bp_name = ''a'', bp_id = ''x'', bp_dependencies = []\<rparr>)]\<rparr>,
     as_aliases = [], management_peer_id = 1, builtins_management_peer_id = 2\<rparr>"

lemma sample_node_synced: "services_synced sample_services sample_node"
  by (simp add: services_synced_def sample_node_def dir_named_def dir_view_def registry_of_def aliases_agree_def fun_eq_iff)

lemma sample_create:
  "\<exists>st. create_service sample_services ''s'' ''x'' 5 sample_node = (Inr ''s'', st) \<and>
     as_aliases st = [] \<and> management_peer_id st = 1 \<and>
     registry_of st = [''s'' \<mapsto> \<lparr>ps_service_id = ''s'', ps_blueprint_id = ''x'', ps_aliases = [], ps_owner_id = 5\<rparr>]"
  by (auto simp: create_service_def create_service_inner_def create_app_service_def resolve_blueprint_def
      get_blueprint_from_cache_def sample_node_def sample_services_def persist_service_def registry_of_def
      persisted_from_service_def fun_eq_iff Let_def)

theorem services_refine_registry_witness:
  "\<exists>st st'. create_service sample_services ''s'' ''x'' 5 sample_node = (Inr ''s'', st) \<and>
     service_exec sample_services (AliasOp ''greeter'' ''s'' 1) st = Some (Inr (), st') \<and> services_synced sample_services st' \<and>
     registry_of st' ''s'' = Some \<lparr>ps_service_id = ''s'', ps_blueprint_id = ''x'', ps_aliases = [''greeter''], ps_owner_id = 5\<rparr>"
proof -
  obtain st where st: "create_service sample_services ''s'' ''x'' 5 sample_node = (Inr ''s'', st)" "as_aliases st = []"
      "management_peer_id st = 1"
      "registry_of st = [''s'' \<mapsto> \<lparr>ps_service_id = ''s'', ps_blueprint_id = ''x'', ps_aliases = [], ps_owner_id = 5\<rparr>]"
    using sample_create by blast
  have synced: "services_synced sample_services st"
    using create_service_refines [OF sample_disk_works sample_node_synced _ st(1)] by (simp add: sample_node_def)
  have fresh: "op_fresh (AliasOp ''greeter'' ''s'' 1) st" by (simp add: st(2))
  have known: "map_of (as_services st) ''greeter'' = None" "map_of (as_services st) ''s'' \<noteq> None"
    using fun_cong [OF st(4), of "''greeter''"] fun_cong [OF st(4), of "''s''"] by (auto simp: registry_of_def)
  obtain res st' where step: "service_exec sample_services (AliasOp ''greeter'' ''s'' 1) st = Some (res, st')"
      "services_synced sample_services st'"
      "case res of Inl _ \<Rightarrow> st' = st | Inr _ \<Rightarrow> registry_step (AliasOp ''greeter'' ''s'' 1) (registry_of st) (registry_of st')"
    using services_refine_registry [OF sample_disk_works synced fresh] by blast
  have "res = Inr ()"
    using step(1) known st(2,3)
    by (auto simp: service_exec_def add_alias_def previous_owner_def persist_service_def sample_services_def Let_def split: if_splits)
  with step(3) have "registry_step (AliasOp ''greeter'' ''s'' 1) (registry_of st) (registry_of st')" by simp
  then have "registry_of st' = give_alias ''greeter'' ''s'' (registry_of st)" by (cases rule: registry_step.cases) auto
  with st step \<open>res = Inr ()\<close> show ?thesis by (auto simp: give_alias_def)
qed

theorem services_survive_restart_witness:
  "\<exists>st. create_service sample_services ''s'' ''x'' 5 sample_node = (Inr ''s'', st) \<and>
     registry_of (app_services_new sample_services (as_services_dir st) ''/vault'' 0 1 2 (as_modules sample_node)) ''s'' =
       Some \<lparr>ps_service_id = ''s'', ps_blueprint_id = ''x'', ps_aliases = [], ps_owner_id = 5\<rparr>"
proof -
  obtain st where st: "create_service sample_services ''s'' ''x'' 5 sample_node = (Inr ''s'', st)"
      "registry_of st = [''s'' \<mapsto> \<lparr>ps_service_id = ''s'', ps_blueprint_id = ''x'', ps_aliases = [], ps_owner_id = 5\<rparr>]"
    using sample_create by blast
  have synced: "services_synced sample_services st"
    using create_service_refines [OF sample_disk_works sample_node_synced _ st(1)] by (simp add: sample_node_def)
  have again: "\<forall>sid ps. registry_of st sid = Some ps \<longrightarrow> recreatable sample_services ''/vault'' (as_modules sample_node) ps"
    by (auto simp: st(2) recreatable_def resolve_blueprint_def get_blueprint_from_cache_def sample_node_def sample_services_def
        split: if_splits)
  from services_survive_restart [OF sample_disk_works synced again, of 0 1 2 "[]"] st show ?thesis by (simp add: Let_def)
qed

subsection \<open>Permissions, dispatch and a lost alias\<close>


lemma registry_of_instance:
  assumes "map_of (as_services st) sid = Some s"
  shows "registry_of (st\<lparr>as_modules := r, as_services := AList.update sid (s\<lparr>srv_service := app\<rparr>) (as_services st)\<rparr>) = registry_of st"
  using assms by (auto simp: registry_of_def update_conv' persisted_from_service_def fun_eq_iff)

text \<open>A call changes instances and vaults only.\<close>

lemma call_service_frame:
  assumes "call_service A a particle st = (out, st')"
  shows "registry_of st' = registry_of st \<and> as_aliases st' = as_aliases st \<and> as_services_dir st' = as_services_dir st \<and>
     mr_blueprints (as_modules st') = mr_blueprints (as_modules st) \<and>
     management_peer_id st' = management_peer_id st \<and> builtins_management_peer_id st' = builtins_management_peer_id st"
proof (cases "get_service (as_services st) (as_aliases st) (service_id a)")
  case (Inl i)
  with assms show ?thesis by (simp add: call_service_def)
next
  case (Inr found)
  obtain s sid where found: "found = (s, sid)" by (cases found)
  with Inr get_service_InrD(1) have s: "map_of (as_services st) sid = Some s" by blast
  show ?thesis
    using assms Inr found registry_of_instance [OF s]
    by (auto simp: call_service_def create_vault_def Let_def split: option.splits prod.splits sum.splits if_splits)
qed

text \<open>[call_service_dispatch]: A call is handed on as undefined, unchanged, exactly if no service has the given id or
  alias; otherwise the service's instance is called with the caller's arguments, the resolved id and the service's
  owner, its result or error is the outcome, and only the state of that instance (and the particle's vault) changes.\<close>

theorem call_service_dispatch:
  "(case get_service (as_services st) (as_aliases st) (service_id a) of
      Inl _ \<Rightarrow> call_service A a particle st = (NotDefined a particle, st)
    | Inr (s, sid) \<Rightarrow>
        is_defined (fst (call_service A a particle st)) \<and>
        (\<forall>v. fst (call_service A a particle st) = OutcomeOk v \<longrightarrow>
           (\<exists>app. sa_call A (srv_service s) (function_name a) (JArray (function_args a))
                     (service_call_params A st a particle s sid) = (Inr v, app) \<and>
              map_of (as_services (snd (call_service A a particle st))) = (map_of (as_services st))(sid \<mapsto> s\<lparr>srv_service := app\<rparr>))) \<and>
        registry_of (snd (call_service A a particle st)) = registry_of st \<and>
        as_aliases (snd (call_service A a particle st)) = as_aliases st \<and>
        as_services_dir (snd (call_service A a particle st)) = as_services_dir st)"
proof (cases "get_service (as_services st) (as_aliases st) (service_id a)")
  case (Inl i)
  then have "i = service_id a" by (auto simp: get_service_def split: option.splits)
  with Inl show ?thesis by (simp add: call_service_def)
next
  case (Inr found)
  obtain s sid where found: "found = (s, sid)" by (cases found)
  with Inr get_service_InrD(1) have s: "map_of (as_services st) sid = Some s" by blast
  note registry_of_instance [OF s]
  with Inr found show ?thesis
    by (auto simp: call_service_def Let_def update_conv' split: option.splits prod.splits sum.splits)
qed

theorem call_service_dispatch_witness:
  "fst (call_service sample_services \<lparr>service_id = ''none'', function_name = ''f'', function_args = [], tetraplets = []\<rparr>
     \<lparr>pp_id = ''p'', pp_init_peer_id = 5, pp_timestamp = 0, pp_ttl = 0, pp_script = [], pp_signature = []\<rparr> sample_node) =
   NotDefined \<lparr>service_id = ''none'', function_name = ''f'', function_args = [], tetraplets = []\<rparr>
     \<lparr>pp_id = ''p'', pp_init_peer_id = 5, pp_timestamp = 0, pp_ttl = 0, pp_script = [], pp_signature = []\<rparr>"
  using call_service_dispatch [where st = sample_node and A = sample_services
    and a = "\<lparr>service_id = ''none'', function_name = ''f'', function_args = [], tetraplets = []\<rparr>"
    and particle = "\<lparr>pp_id = ''p'', pp_init_peer_id = 5, pp_timestamp = 0, pp_ttl = 0, pp_script = [], pp_signature = []\<rparr>"]
  by (simp add: sample_node_def get_service_def)

text \<open>[readded_alias_outlives_service]: Giving a service an alias that it already has takes the alias from the service's own list, so
  that after the service is removed the alias still resolves to the id of a service that does not exist.\<close>

theorem readded_alias_outlives_service:
  assumes "disk_works A" and "map_of (as_services st) sid = Some s" and "map_of (as_aliases st) al = Some sid"
    and "map_of (as_services st) al = None" and "peer = management_peer_id st"
    and "get_blueprint_from_cache (srv_blueprint_id s) (as_modules st) = Inr bp" and "bp_name bp \<noteq> ''spell''"
  shows "\<exists>st1 st2. add_alias A al sid peer st = (Inr (), st1) \<and> remove_service A sid peer False st1 = Some (Inr (), st2) \<and>
     map_of (as_services st2) sid = None \<and> resolve_alias al st2 = Inr sid \<and> to_service_id al st2 = Inl (NoSuchService al)"
proof -
  let ?s = "service_remove_alias al (service_add_alias al s)"
  have persist: "\<exists>dir'. persist_service A ps dir = Inr dir'" for ps dir
  proof -
    obtain b where "sa_to_toml A ps = Some b" "\<And>f. sa_can_write A f" using assms(1) by (auto simp: disk_works_def)
    then show ?thesis by (simp add: persist_service_def Let_def)
  qed
  obtain d1 d2 where "persist_service A (persisted_from_service sid ?s) (as_services_dir st) = Inr d1"
      "persist_service A (persisted_from_service sid (service_add_alias al s)) d1 = Inr d2" using persist by blast
  then obtain st1 where st1: "add_alias A al sid peer st = (Inr (), st1)"
      "map_of (as_services st1) = (map_of (as_services st))(sid \<mapsto> ?s)" "as_modules st1 = as_modules st"
      "as_aliases st1 = AList.update al sid (as_aliases st)" "management_peer_id st1 = peer"
    using assms by (auto simp: add_alias_def previous_owner_def Let_def update_conv')
  have "get_service (as_services st1) (as_aliases st1) sid = Inr (?s, sid)" by (simp add: get_service_def st1(2))
  then have "remove_allowed sid peer False st1 = Inr sid"
    using assms(6,7) st1(3,5) by (simp add: remove_allowed_def service_remove_alias_def service_add_alias_def)
  then obtain st2 where st2: "remove_service A sid peer False st1 = Some (Inr (), st2)"
      "as_services st2 = AList.delete sid (as_services st1)" "as_aliases st2 = fold AList.delete (srv_aliases ?s) (as_aliases st1)"
    by (simp add: remove_service_def Let_def st1(2))
  have "map_of (as_aliases st2) al = Some sid"
    by (simp add: st2(3) map_of_fold_delete st1(4) service_remove_alias_def)
  moreover have "map_of (as_services st2) sid = None" "map_of (as_services st2) al = None"
    using assms(2,4) by (auto simp: st2(2) delete_conv' st1(2))
  ultimately show ?thesis using st1(1) st2(1) by (auto simp: resolve_alias_def to_service_id_def get_service_def)
qed

definition aliased_node :: "nat app_services" where
  "aliased_node = sample_node\<lparr>as_services := [(''s'', \<lparr>srv_service = 7, srv_blueprint_id = ''x'', srv_owner_id = 5, srv_aliases = [''g'']\<rparr>)],
     as_aliases := [(''g'', ''s'')]\<rparr>"

theorem readded_alias_outlives_service_witness:
  "\<exists>st1 st2. add_alias sample_services ''g'' ''s'' 1 aliased_node = (Inr (), st1) \<and>
     remove_service sample_services ''s'' 1 False st1 = Some (Inr (), st2) \<and> resolve_alias ''g'' st2 = Inr ''s''"
proof -
  let ?s = "\<lparr>srv_service = 7, srv_blueprint_id = ''x'', srv_owner_id = 5, srv_aliases = [''g'']\<rparr>"
  let ?bp = "\<lparr>bp_name = ''a'', bp_id = ''x'', bp_dependencies = []\<rparr>"
  show ?thesis
    using readded_alias_outlives_service [where st = aliased_node and s = ?s and sid = "''s''" and al = "''g''" and peer = 1
        and bp = ?bp, OF sample_disk_works]
    by (auto simp: aliased_node_def sample_node_def get_blueprint_from_cache_def)
qed

end
