(* ===== verification/Data_Store.thy ===== *)
theory Data_Store
  imports Prelude "HOL-Library.Sublist"
begin

section \<open>Paths, the particle vault and the particle data store\<close>

text \<open>
  \<^verbatim>\<open>particle-execution/src/particle_vault.rs\<close>, \<^verbatim>\<open>aquamarine/src/particle_data_store.rs\<close> and the directory operations of
  \<^verbatim>\<open>crates/fs-utils\<close>.

  \<^item> A path is, as for \<^verbatim>\<open>std::path\<close> on Unix, whether it is absolute and its components: repeated separators and \<open>.\<close> are
    dropped, \<open>..\<close> is kept. Joining an absolute path replaces the first one.
  \<^item> The file system maps canonical absolute paths to directories and files, without links; a path is resolved
    component by component. Which operations the operating system permits is a parameter.
\<close>

subsection \<open>Paths\<close>

type_synonym path = "bool \<times> string list"

fun split_on :: "char \<Rightarrow> string \<Rightarrow> string list" where
  "split_on c [] = [[]]"
| "split_on c (x # xs) =
     (if x = c then [] # split_on c xs
      else (case split_on c xs of [] \<Rightarrow> [[x]] | w # ws \<Rightarrow> (x # w) # ws))"

definition path_of :: "string \<Rightarrow> path" where
  "path_of s =
     (let parts = split_on (CHR ''/'') s; absolute = (s \<noteq> [] \<and> hd s = CHR ''/'');
          names = filter (\<lambda>c. c \<noteq> [] \<and> c \<noteq> ''.'') parts
      in (absolute, if \<not> absolute \<and> hd parts = ''.'' then ''.'' # names else names))"

definition path_join :: "path \<Rightarrow> path \<Rightarrow> path" where
  "path_join p q =
     (if fst q \<or> p = (False, []) then q else (fst p, snd p @ filter (\<lambda>c. c \<noteq> ''.'') (snd q)))"

definition strip_prefix :: "path \<Rightarrow> path \<Rightarrow> path option" where
  "strip_prefix base p =
     (if base = (False, []) then Some p
      else if fst base = fst p \<and> prefix (snd base) (snd p) then Some (False, drop (length (snd base)) (snd p))
      else None)"

definition path_starts_with :: "path \<Rightarrow> path \<Rightarrow> bool" where
  "path_starts_with base p \<longleftrightarrow> strip_prefix base p \<noteq> None"

text \<open>A plain name is one component: what the ids of particles are meant to be.\<close>

definition plain_name :: "string \<Rightarrow> bool" where
  "plain_name s \<longleftrightarrow> s \<notin> {[], ''.'', ''..''} \<and> CHR ''/'' \<notin> set s"

subsection \<open>The file system\<close>

datatype node = DirNode | FileNode bytes

type_synonym file_system = "string list \<rightharpoonup> node"

datatype io_error = IoNotFound | IoNotADirectory | IoIsADirectory | IoDenied

text \<open>\<open>walk fs cur cs\<close>: where the components lead from a directory; the last one need not exist.\<close>

fun walk :: "file_system \<Rightarrow> string list \<Rightarrow> string list \<Rightarrow> io_error + string list" where
  "walk fs cur [] = Inr cur"
| "walk fs cur (c # cs) =
     (case fs cur of
        None \<Rightarrow> Inl IoNotFound
      | Some (FileNode _) \<Rightarrow> Inl IoNotADirectory
      | Some DirNode \<Rightarrow> walk fs (if c = ''..'' then butlast cur else cur @ [c]) cs)"

definition path_target :: "string list \<Rightarrow> file_system \<Rightarrow> path \<Rightarrow> io_error + string list" where
  "path_target cwd fs p = walk fs (if fst p then [] else cwd) (filter (\<lambda>c. c \<noteq> ''.'') (snd p))"

text \<open>What the operations need of the operating system.\<close>

record os =
  os_cwd :: "string list"
  os_permits :: "string list \<Rightarrow> bool"

fun mkdirs :: "os \<Rightarrow> string list \<Rightarrow> string list \<Rightarrow> file_system \<Rightarrow> (io_error + unit) \<times> file_system" where
  "mkdirs S cur [] fs = (Inr (), fs)"
| "mkdirs S cur (c # cs) fs =
     (let next = (if c = ''..'' then butlast cur else cur @ [c]) in
      case fs next of
        Some DirNode \<Rightarrow> mkdirs S next cs fs
      | Some (FileNode _) \<Rightarrow> (Inl IoNotADirectory, fs)
      | None \<Rightarrow> if os_permits S next then mkdirs S next cs (fs(next \<mapsto> DirNode)) else (Inl IoDenied, fs))"

definition create_dir :: "os \<Rightarrow> path \<Rightarrow> file_system \<Rightarrow> (io_error + unit) \<times> file_system" where
  "create_dir S p fs = mkdirs S (if fst p then [] else os_cwd S) (filter (\<lambda>c. c \<noteq> ''.'') (snd p)) fs"

definition remove_tree :: "string list \<Rightarrow> file_system \<Rightarrow> file_system" where
  "remove_tree d fs = (\<lambda>p. if prefix d p then None else fs p)"

definition remove_dir :: "os \<Rightarrow> path \<Rightarrow> file_system \<Rightarrow> (io_error + unit) \<times> file_system" where
  "remove_dir S p fs =
     (case path_target (os_cwd S) fs p of
        Inl IoNotFound \<Rightarrow> (Inr (), fs)
      | Inl e \<Rightarrow> (Inl e, fs)
      | Inr d \<Rightarrow>
          (case fs d of
             None \<Rightarrow> (Inr (), fs)
           | Some (FileNode _) \<Rightarrow> (Inl IoNotADirectory, fs)
           | Some DirNode \<Rightarrow> if os_permits S d then (Inr (), remove_tree d fs) else (Inl IoDenied, fs)))"

definition remove_file :: "os \<Rightarrow> path \<Rightarrow> file_system \<Rightarrow> (io_error + unit) \<times> file_system" where
  "remove_file S p fs =
     (case path_target (os_cwd S) fs p of
        Inl IoNotFound \<Rightarrow> (Inr (), fs)
      | Inl e \<Rightarrow> (Inl e, fs)
      | Inr f \<Rightarrow>
          (case fs f of
             None \<Rightarrow> (Inr (), fs)
           | Some DirNode \<Rightarrow> (Inl IoIsADirectory, fs)
           | Some (FileNode _) \<Rightarrow> if os_permits S f then (Inr (), fs(f := None)) else (Inl IoDenied, fs)))"

definition write_file :: "os \<Rightarrow> path \<Rightarrow> bytes \<Rightarrow> file_system \<Rightarrow> (io_error + unit) \<times> file_system" where
  "write_file S p content fs =
     (case path_target (os_cwd S) fs p of
        Inl e \<Rightarrow> (Inl e, fs)
      | Inr f \<Rightarrow>
          if fs f = Some DirNode then (Inl IoIsADirectory, fs)
          else if os_permits S f then (Inr (), fs(f \<mapsto> FileNode content)) else (Inl IoDenied, fs))"

definition read_file :: "os \<Rightarrow> path \<Rightarrow> file_system \<Rightarrow> io_error + bytes" where
  "read_file S p fs =
     (case path_target (os_cwd S) fs p of
        Inl e \<Rightarrow> Inl e
      | Inr f \<Rightarrow>
          (case fs f of
             None \<Rightarrow> Inl IoNotFound
           | Some DirNode \<Rightarrow> Inl IoIsADirectory
           | Some (FileNode content) \<Rightarrow> if os_permits S f then Inr content else Inl IoDenied))"

definition canonicalize :: "os \<Rightarrow> path \<Rightarrow> file_system \<Rightarrow> io_error + path" where
  "canonicalize S p fs =
     (case path_target (os_cwd S) fs p of
        Inl e \<Rightarrow> Inl e
      | Inr f \<Rightarrow> if fs f = None then Inl IoNotFound else Inr (True, f))"

subsection \<open>Vault and data store\<close>

datatype vault_error = InitializeVault io_error | CreateVault io_error | CleanupVault io_error

datatype data_store_error =
    CreateDataStore io_error
  | DataVaultError vault_error
  | StoreData io_error path
  | CleanupData io_error
  | CreateAnomalyDir io_error
  | SerializeAnomaly
  | WriteAnomaly io_error path

record particle_vault =
  vault_dir :: path

definition particle_vault_path :: "particle_vault \<Rightarrow> string \<Rightarrow> path" where
  "particle_vault_path v key = path_join (vault_dir v) (path_of key)"

definition map_io :: "(io_error \<Rightarrow> 'e) \<Rightarrow> (io_error + unit) \<times> file_system \<Rightarrow> ('e + unit) \<times> file_system" where
  "map_io err r = apfst (map_sum err id) r"

definition vault_initialize :: "os \<Rightarrow> particle_vault \<Rightarrow> file_system \<Rightarrow> (vault_error + unit) \<times> file_system" where
  "vault_initialize S v fs = map_io InitializeVault (create_dir S (vault_dir v) fs)"

definition vault_create :: "os \<Rightarrow> string \<Rightarrow> particle_vault \<Rightarrow> file_system \<Rightarrow> (vault_error + unit) \<times> file_system" where
  "vault_create S particle_id v fs = map_io CreateVault (create_dir S (particle_vault_path v particle_id) fs)"

definition vault_cleanup :: "os \<Rightarrow> string \<Rightarrow> particle_vault \<Rightarrow> file_system \<Rightarrow> (vault_error + unit) \<times> file_system" where
  "vault_cleanup S particle_id v fs = map_io CleanupVault (remove_dir S (particle_vault_path v particle_id) fs)"

record particle_data_store =
  data_store_dir :: path
  data_vault :: particle_vault
  anomaly_data_store :: path

definition particle_data_store_new :: "path \<Rightarrow> path \<Rightarrow> path \<Rightarrow> particle_data_store" where
  "particle_data_store_new store vault anomaly =
     \<lparr>data_store_dir = store, data_vault = \<lparr>vault_dir = vault\<rparr>, anomaly_data_store = anomaly\<rparr>"

definition data_file :: "particle_data_store \<Rightarrow> string \<Rightarrow> path" where
  "data_file ds key = path_join (data_store_dir ds) (path_of key)"

definition anomaly_dir :: "particle_data_store \<Rightarrow> string \<Rightarrow> nat \<Rightarrow> path" where
  "anomaly_dir ds key now_ms =
     path_join (path_join (anomaly_data_store ds) (path_of key)) (path_of (show_nat now_ms))"

definition create_particle_vault ::
    "os \<Rightarrow> string \<Rightarrow> particle_data_store \<Rightarrow> file_system \<Rightarrow> (data_store_error + unit) \<times> file_system" where
  "create_particle_vault S key ds fs = apfst (map_sum DataVaultError id) (vault_create S key (data_vault ds) fs)"

definition data_store_initialize ::
    "os \<Rightarrow> particle_data_store \<Rightarrow> file_system \<Rightarrow> (data_store_error + unit) \<times> file_system" where
  "data_store_initialize S ds fs =
     (case create_dir S (data_store_dir ds) fs of
        (Inl e, fs1) \<Rightarrow> (Inl (CreateDataStore e), fs1)
      | (Inr _, fs1) \<Rightarrow> apfst (map_sum DataVaultError id) (vault_initialize S (data_vault ds) fs1))"

definition store_data ::
    "os \<Rightarrow> bytes \<Rightarrow> string \<Rightarrow> particle_data_store \<Rightarrow> file_system \<Rightarrow> (data_store_error + unit) \<times> file_system" where
  "store_data S content key ds fs = map_io (\<lambda>e. StoreData e (data_file ds key)) (write_file S (data_file ds key) content fs)"

definition read_data :: "os \<Rightarrow> string \<Rightarrow> particle_data_store \<Rightarrow> file_system \<Rightarrow> bytes" where
  "read_data S key ds fs = (case read_file S (data_file ds key) fs of Inr content \<Rightarrow> content | Inl _ \<Rightarrow> [])"

definition cleanup_data ::
    "os \<Rightarrow> string \<Rightarrow> particle_data_store \<Rightarrow> file_system \<Rightarrow> (data_store_error + unit) \<times> file_system" where
  "cleanup_data S key ds fs =
     (case remove_file S (data_file ds key) fs of
        (Inl e, fs1) \<Rightarrow> (Inl (CleanupData e), fs1)
      | (Inr _, fs1) \<Rightarrow> apfst (map_sum DataVaultError id) (vault_cleanup S key (data_vault ds) fs1))"

definition detect_anomaly :: "nat \<Rightarrow> nat \<Rightarrow> bool" where
  "detect_anomaly execution_ns memory_delta \<longleftrightarrow> execution_ns > 500 * 10 ^ 6 \<or> memory_delta > 10 * 10 ^ 6"

text \<open>The anomaly data as serialized, or no value if that fails.\<close>

definition collect_anomaly_data ::
    "os \<Rightarrow> string \<Rightarrow> nat \<Rightarrow> bytes option \<Rightarrow> particle_data_store \<Rightarrow> file_system \<Rightarrow> (data_store_error + unit) \<times> file_system" where
  "collect_anomaly_data S key now_ms anomaly_data ds fs =
     (let dir = anomaly_dir ds key now_ms; file = path_join dir (path_of ''data'') in
      case create_dir S dir fs of
        (Inl e, fs1) \<Rightarrow> (Inl (CreateAnomalyDir e), fs1)
      | (Inr _, fs1) \<Rightarrow>
          (case anomaly_data of
             None \<Rightarrow> (Inl SerializeAnomaly, fs1)
           | Some content \<Rightarrow> map_io (\<lambda>e. WriteAnomaly e file) (write_file S file content fs1)))"

subsection \<open>Properties\<close>

lemma split_on_none: "c \<notin> set s \<Longrightarrow> split_on c s = [s]"
  by (induction s) auto

lemma path_of_plain: "plain_name k \<Longrightarrow> path_of k = (False, [k])"
  by (cases k) (auto simp: plain_name_def path_of_def split_on_none Let_def)

text \<open>A directory that can be reached without leaving a directory.\<close>

definition dir_at :: "file_system \<Rightarrow> string list \<Rightarrow> bool" where
  "dir_at fs d \<longleftrightarrow> set d \<inter> {''.'', ''..''} = {} \<and> (\<forall>p. prefix p d \<longrightarrow> fs p = Some DirNode)"

lemma walk_dirs: "dir_at fs (cur @ cs) \<Longrightarrow> walk fs cur (cs @ ds) = walk fs (cur @ cs) ds"
proof (induction cs arbitrary: cur)
  case (Cons c cs)
  then have "fs cur = Some DirNode" "c \<noteq> ''..''" by (auto simp: dir_at_def)
  with Cons.IH [of "cur @ [c]"] Cons.prems show ?case by simp
qed simp

lemma target_child:
  assumes "dir_at fs d" and "plain_name k"
  shows "path_target cwd fs (path_join (True, d) (path_of k)) = Inr (d @ [k])"
proof -
  have "filter (\<lambda>c. c \<noteq> ''.'') d = d" using assms(1) by (auto simp: dir_at_def filter_id_conv)
  then show ?thesis
    using walk_dirs [of fs "[]" d "[k]"] assms
    by (auto simp: path_target_def path_join_def path_of_plain plain_name_def dir_at_def)
qed

lemma dir_at_update: "dir_at fs d \<Longrightarrow> \<not> prefix f d \<Longrightarrow> dir_at (fs(f := x)) d"
  by (auto simp: dir_at_def)

lemma dir_at_remove_tree: "dir_at fs d \<Longrightarrow> \<not> prefix t d \<Longrightarrow> dir_at (remove_tree t fs) d"
  by (auto simp: dir_at_def remove_tree_def)

lemma read_data_child:
  "dir_at fs d \<Longrightarrow> plain_name k \<Longrightarrow> data_store_dir ds = (True, d) \<Longrightarrow>
   read_data S k ds fs = (case fs (d @ [k]) of Some (FileNode c) \<Rightarrow> if os_permits S (d @ [k]) then c else [] | _ \<Rightarrow> [])"
  by (auto simp: read_data_def read_file_def data_file_def target_child split: option.splits node.splits)

text \<open>Where the data and the vault of a particle are.\<close>

definition data_store_at :: "particle_data_store \<Rightarrow> string list \<Rightarrow> string list \<Rightarrow> file_system \<Rightarrow> bool" where
  "data_store_at ds d v fs \<longleftrightarrow> data_store_dir ds = (True, d) \<and> vault_dir (data_vault ds) = (True, v) \<and> dir_at fs d \<and> dir_at fs v"

lemma not_prefix_child: "\<not> prefix (d @ [k]) d"
  using prefix_length_le by fastforce

lemma store_data_child:
  assumes "data_store_at ds d v fs" and "plain_name k" and "fs (d @ [k]) \<noteq> Some DirNode" and "os_permits S (d @ [k])"
  shows "store_data S content k ds fs = (Inr (), fs(d @ [k] \<mapsto> FileNode content))"
  using assms by (simp add: store_data_def write_file_def data_file_def map_io_def data_store_at_def target_child)

lemma cleanup_data_child:
  assumes "data_store_at ds d v fs" and "plain_name k" and "fs (d @ [k]) \<noteq> Some DirNode"
    and "os_permits S (d @ [k])" and "os_permits S (v @ [k])" and "\<And>b. fs (v @ [k]) \<noteq> Some (FileNode b)" and "d \<noteq> v"
    and "\<not> prefix (d @ [k]) v"
  shows "\<exists>fs'. cleanup_data S k ds fs = (Inr (), fs') \<and> fs' (d @ [k]) = None \<and> fs' (v @ [k]) = None \<and>
     (\<forall>p. p \<noteq> d @ [k] \<and> \<not> prefix (v @ [k]) p \<longrightarrow> fs' p = fs p)"
proof -
  let ?fs = "fs(d @ [k] := None)"
  have at: "data_store_dir ds = (True, d)" "vault_dir (data_vault ds) = (True, v)" "dir_at fs d" "dir_at fs v"
    using assms(1) by (auto simp: data_store_at_def)
  have v: "dir_at ?fs v" using dir_at_update [OF at(4) assms(8)] .
  have "remove_file S (data_file ds k) fs = (Inr (), ?fs)"
  proof (cases "fs (d @ [k])")
    case None
    then have "?fs = fs" by auto
    with None show ?thesis using at assms(2) by (simp add: remove_file_def data_file_def target_child)
  next
    case (Some n)
    with assms(3) obtain b where "n = FileNode b" by (cases n) auto
    with Some show ?thesis using at assms(2,4) by (simp add: remove_file_def data_file_def target_child)
  qed
  then have clean: "cleanup_data S k ds fs = apfst (map_sum DataVaultError id) (vault_cleanup S k (data_vault ds) ?fs)"
    by (simp add: cleanup_data_def)
  have node: "?fs (v @ [k]) = fs (v @ [k])" using assms(7) by simp
  show ?thesis
  proof (cases "fs (v @ [k])")
    case None
    with node v at assms(2) show ?thesis
      by (auto simp: clean vault_cleanup_def particle_vault_path_def map_io_def remove_dir_def target_child)
  next
    case (Some n)
    with assms(6) have "n = DirNode" by (cases n) auto
    with Some node v at assms(2,5) show ?thesis
      by (auto simp: clean vault_cleanup_def particle_vault_path_def map_io_def remove_dir_def target_child remove_tree_def)
  qed
qed

text \<open>C27 [data_store_isolates_particles]: For particles whose ids are plain names, the data store keeps data apart: what is
  stored under an id is read back under it and leaves the data of every other particle as it was; cleaning up removes
  the particle's data and its vault and nothing else.\<close>

theorem data_store_isolates_particles:
  assumes "data_store_at ds d v fs" and "d \<noteq> v" and "\<not> prefix (d @ [k]) v" and "\<not> prefix (v @ [k]) d"
    and "plain_name k" and "fs (d @ [k]) \<noteq> Some DirNode" and "\<And>b. fs (v @ [k]) \<noteq> Some (FileNode b)"
    and "os_permits S (d @ [k])" and "os_permits S (v @ [k])"
  shows "\<exists>fs1 fs2. store_data S content k ds fs = (Inr (), fs1) \<and> read_data S k ds fs1 = content \<and>
     cleanup_data S k ds fs1 = (Inr (), fs2) \<and> read_data S k ds fs2 = [] \<and> fs2 (v @ [k]) = None \<and>
     (\<forall>k'. plain_name k' \<and> k' \<noteq> k \<longrightarrow>
        read_data S k' ds fs1 = read_data S k' ds fs \<and> read_data S k' ds fs2 = read_data S k' ds fs) \<and>
     (\<forall>p. p \<noteq> d @ [k] \<and> \<not> prefix (v @ [k]) p \<longrightarrow> fs2 p = fs p)"
proof -
  let ?fs = "fs(d @ [k] \<mapsto> FileNode content)"
  have at: "data_store_dir ds = (True, d)" "dir_at fs d" "dir_at fs v" using assms(1) by (auto simp: data_store_at_def)
  have d1: "dir_at ?fs d" using dir_at_update [OF at(2) not_prefix_child] by auto
  have at1: "data_store_at ds d v ?fs"
    using assms(1) d1 dir_at_update [OF at(3) assms(3), of "Some (FileNode content)"] by (simp add: data_store_at_def)
  obtain fs2 where c: "cleanup_data S k ds ?fs = (Inr (), fs2)" "fs2 (d @ [k]) = None" "fs2 (v @ [k]) = None"
      "\<And>p. p \<noteq> d @ [k] \<Longrightarrow> \<not> prefix (v @ [k]) p \<Longrightarrow> fs2 p = ?fs p"
    using cleanup_data_child [OF at1 assms(5) _ assms(8,9) _ assms(2,3)] assms(2,7) by auto
  have "fs2 p = fs p" if "prefix p d" for p
  proof -
    have "p \<noteq> d @ [k]" using that not_prefix_child by metis
    moreover have "\<not> prefix (v @ [k]) p" using that assms(4) prefix_order.trans by metis
    ultimately show ?thesis using c(4) [of p] by simp
  qed
  with at(2) have d2: "dir_at fs2 d" by (simp add: dir_at_def)
  have other: "\<not> prefix (v @ [k]) (d @ [k'])" if "k' \<noteq> k" for k' using that assms(2,4) by (auto simp: prefix_snoc)
  have "read_data S k' ds fs2 = read_data S k' ds fs" if "plain_name k'" "k' \<noteq> k" for k'
    using c(4) [OF _ other [OF that(2)]] that by (simp add: read_data_child [OF d2 that(1) at(1)] read_data_child [OF at(2) that(1) at(1)])
  moreover have "read_data S k' ds ?fs = read_data S k' ds fs" if "plain_name k'" "k' \<noteq> k" for k'
    using that by (simp add: read_data_child [OF d1 _ at(1)] read_data_child [OF at(2) _ at(1)])
  moreover have "read_data S k ds ?fs = content" "read_data S k ds fs2 = []"
    using assms(5,8) c(2) by (simp_all add: read_data_child [OF d1 _ at(1)] read_data_child [OF d2 _ at(1)])
  moreover have "\<forall>p. p \<noteq> d @ [k] \<and> \<not> prefix (v @ [k]) p \<longrightarrow> fs2 p = fs p" using c(4) by simp
  ultimately show ?thesis
    using store_data_child [OF assms(1,5,6,8)] c(1,3) by blast
qed

definition sample_os :: os where
  "sample_os = \<lparr>os_cwd = [], os_permits = (\<lambda>_. True)\<rparr>"

definition sample_fs :: file_system where
  "sample_fs = [[] \<mapsto> DirNode, [''d''] \<mapsto> DirNode, [''v''] \<mapsto> DirNode, [''etc''] \<mapsto> DirNode, [''etc'', ''passwd''] \<mapsto> FileNode [7]]"

definition sample_store :: particle_data_store where
  "sample_store = particle_data_store_new (path_of ''/d'') (path_of ''/v'') (path_of ''/a'')"

lemma sample_store_at: "data_store_at sample_store [''d''] [''v''] sample_fs"
  by (auto simp: data_store_at_def sample_store_def particle_data_store_new_def path_of_def dir_at_def sample_fs_def prefix_Cons)

theorem data_store_isolates_particles_witness:
  "\<exists>fs1. store_data sample_os [1, 2] ''p'' sample_store sample_fs = (Inr (), fs1) \<and> read_data sample_os ''p'' sample_store fs1 = [1, 2]"
  using data_store_isolates_particles [OF sample_store_at, of "''p''" sample_os "[1, 2]"]
  by (auto simp: plain_name_def sample_os_def sample_fs_def)

lemma walk_update:
  "walk fs cur cs = Inr f \<Longrightarrow> fs f \<noteq> Some DirNode \<Longrightarrow> walk (fs(f := x)) cur cs = Inr f"
  by (induction fs cur cs rule: walk.induct) (auto split: option.splits node.splits)

text \<open>[particle_id_escapes_store]: The id of a particle is not restricted to a plain name: a particle whose id is an absolute
  path reads and overwrites the file of that path wherever it is, with what is stored as its data, and cleaning
  up after the particle deletes that file.\<close>

theorem particle_id_escapes_store:
  assumes "path_of key = (True, p)" and "path_target (os_cwd S) fs (True, p) = Inr f" and "fs f = Some (FileNode old)"
    and "os_permits S f"
  shows "read_data S key ds fs = old \<and> store_data S content key ds fs = (Inr (), fs(f \<mapsto> FileNode content)) \<and>
     cleanup_data S key ds fs = (Inr (), fs(f := None))"
proof -
  have target: "data_file ds key = (True, p)" "particle_vault_path (data_vault ds) key = (True, p)"
    by (simp_all add: data_file_def particle_vault_path_def path_join_def assms(1))
  have "path_target (os_cwd S) (fs(f := None)) (True, p) = Inr f"
    using assms(2,3) walk_update by (simp add: path_target_def)
  then show ?thesis
    using assms(2-4)
    by (simp add: read_data_def read_file_def store_data_def write_file_def cleanup_data_def vault_cleanup_def remove_file_def
        remove_dir_def map_io_def target)
qed

theorem particle_id_escapes_store_witness:
  "read_data sample_os ''/etc/passwd'' sample_store sample_fs = [7] \<and>
   cleanup_data sample_os ''/etc/passwd'' sample_store sample_fs = (Inr (), sample_fs([''etc'', ''passwd''] := None))"
proof -
  have "path_of ''/etc/passwd'' = (True, [''etc'', ''passwd''])" by (simp add: path_of_def)
  moreover have "path_target (os_cwd sample_os) sample_fs (True, [''etc'', ''passwd'']) = Inr [''etc'', ''passwd'']"
    by (simp add: path_target_def sample_fs_def)
  moreover have "sample_fs [''etc'', ''passwd''] = Some (FileNode [7])" "os_permits sample_os [''etc'', ''passwd'']"
    by (simp_all add: sample_fs_def sample_os_def)
  ultimately show ?thesis using particle_id_escapes_store by blast
qed

text \<open>The data store creates its directories before it is used.\<close>

lemma mkdirs_dir_at:
  "mkdirs S cur cs fs = (Inr (), fs') \<Longrightarrow> dir_at fs cur \<Longrightarrow> set cs \<inter> {''.'', ''..''} = {} \<Longrightarrow>
   dir_at fs' (cur @ cs) \<and> (\<forall>p. fs p \<noteq> None \<longrightarrow> fs' p = fs p)"
proof (induction cs arbitrary: cur fs)
  case (Cons c cs)
  let ?fs = "fs(cur @ [c] \<mapsto> DirNode)"
  have child: "dir_at ?fs (cur @ [c])" using Cons.prems(2,3) by (auto simp: dir_at_def prefix_snoc)
  have same: "?fs = fs" if "fs (cur @ [c]) \<noteq> None"
  proof -
    from that Cons.prems(1,3) have "fs (cur @ [c]) = Some DirNode" by (auto simp: Let_def split: node.splits)
    then show ?thesis by auto
  qed
  have "mkdirs S (cur @ [c]) cs ?fs = (Inr (), fs')"
    using Cons.prems(1,3) same by (cases "fs (cur @ [c])") (auto simp: Let_def split: if_splits node.splits)
  from Cons.IH [OF this child] Cons.prems(3)
  have "dir_at fs' (cur @ c # cs)" "\<forall>p. ?fs p \<noteq> None \<longrightarrow> fs' p = ?fs p" by auto
  then show ?case using same by (metis fun_upd_apply)
qed simp

text \<open>[data_store_is_initialized]: A successful start leaves the directories of the data and of the vaults in place.\<close>

theorem data_store_is_initialized:
  assumes "data_store_initialize S ds fs = (Inr (), fs')" and "data_store_dir ds = (True, d)"
    and "vault_dir (data_vault ds) = (True, v)" and "set (d @ v) \<inter> {''.'', ''..''} = {}" and "fs [] = Some DirNode"
  shows "data_store_at ds d v fs'"
proof -
  have plain: "filter (\<lambda>c. c \<noteq> ''.'') d = d" "filter (\<lambda>c. c \<noteq> ''.'') v = v" using assms(4) by (auto simp: filter_id_conv)
  have root: "dir_at fs []" using assms(5) by (simp add: dir_at_def)
  obtain r1 fs1 where 1: "mkdirs S [] d fs = (r1, fs1)" by fastforce
  obtain r2 fs2 where 2: "mkdirs S [] v fs1 = (r2, fs2)" by fastforce
  have "r1 = Inr ()" "r2 = Inr ()" "fs2 = fs'"
    using assms(1-3) plain 1 2
    by (auto simp: data_store_initialize_def create_dir_def vault_initialize_def map_io_def map_sum_Inr_iff split: sum.splits)
  with 1 2 have 1: "mkdirs S [] d fs = (Inr (), fs1)" and 2: "mkdirs S [] v fs1 = (Inr (), fs')" by simp_all
  have d: "dir_at fs1 d" "fs1 [] = Some DirNode" using mkdirs_dir_at [OF 1 root] assms(4,5) by auto
  then have "dir_at fs1 []" by (simp add: dir_at_def)
  from mkdirs_dir_at [OF 2 this] assms(4) have "dir_at fs' v" "\<forall>p. fs1 p \<noteq> None \<longrightarrow> fs' p = fs1 p" by auto
  with d(1) have "dir_at fs' d" by (auto simp: dir_at_def)
  with \<open>dir_at fs' v\<close> assms(2,3) show ?thesis by (simp add: data_store_at_def)
qed

end
