(* ===== verification/Deployer.thy ===== *)
theory Deployer
  imports Plumber App_Services Data_Store
begin

section \<open>Deploying built-in services at start\<close>

text \<open>
  \<^verbatim>\<open>crates/builtins-deployer/src/{builtins_deployer,utils,builtin}.rs\<close> and the client side of a
  particle in \<^verbatim>\<open>crates/local-vm/src/local_vm.rs\<close>. Running a particle on the node (Aquamarine, the AVM
  and the host functions it calls) is the parameter \<open>de_run\<close>, which answers with what arrives at the
  deployer; its state \<open>'n\<close> stands for the node. Codecs, regular expressions, the process environment,
  the clock and identifiers are parameters too. AIR scripts are written up to white space. A loop
  that may not return has option type.
\<close>

subsection \<open>Client side of a particle\<close>

datatype instruction = SeqI instruction instruction | CallI string | NullI

fun add_call :: "instruction \<Rightarrow> string \<Rightarrow> instruction option" where
  "add_call NullI call = Some (SeqI (CallI call) NullI)"
| "add_call (SeqI l r) call =
     Some (if r = NullI then SeqI l (SeqI (CallI call) NullI) else SeqI (SeqI l r) (SeqI (CallI call) NullI))"
| "add_call (CallI _) call = None"

fun into_air :: "instruction \<Rightarrow> string" where
  "into_air NullI = ''(null)''"
| "into_air (CallI call) = call"
| "into_air (SeqI l r) = ''(seq '' @ into_air l @ '' '' @ into_air r @ '')''"

definition load_call :: "string \<Rightarrow> string \<Rightarrow> string" where
  "load_call executor name =
     ''(call '' @ executor @ '' (\"load\" \"'' @ name @ ''\") [] '' @ name @ '')''"

fun add_calls :: "string list \<Rightarrow> instruction \<Rightarrow> instruction option" where
  "add_calls [] i = Some i"
| "add_calls (c # cs) i = Option.bind (add_call i c) (add_calls cs)"

text \<open>\<open>None\<close> is the panic of \<^verbatim>\<open>Instruction::add\<close>.\<close>

definition wrap_script ::
    "string \<Rightarrow> (string \<times> jvalue) list \<Rightarrow> string option \<Rightarrow> bool \<Rightarrow> string option \<Rightarrow> string option" where
  "wrap_script script data relay generated executor =
     (let executor = (case executor of Some p \<Rightarrow> ''\"'' @ p @ ''\"'' | None \<Rightarrow> ''%init_peer_id%'');
          load_variables = (if generated then Some ''(null)''
            else map_option into_air (add_calls (map (load_call executor \<circ> fst) data) NullI));
          catch = ''(call '' @ executor @ '' (\"errorHandlingSrv\" \"error\") [%last_error%])'';
          catch = (case relay of
              Some r \<Rightarrow> ''(seq (call \"'' @ r @ ''\" (\"op\" \"identity\") []) '' @ catch @ '')''
            | None \<Rightarrow> catch)
      in map_option (\<lambda>load. ''(seq '' @ load @ '' (xor '' @ script @ '' '' @ catch @ ''))'') load_variables)"

text \<open>What a returned particle carries: the arguments of a return, or of the error handler.\<close>

type_synonym returned = "(jvalue list + jvalue list) option"

definition client_functions :: "(string \<times> jvalue) list \<Rightarrow> args \<Rightarrow> function_outcome \<times> returned" where
  "client_functions data a =
     (let s = service_id a; f = function_name a in
      if s = ''load'' \<or> s = ''getDataSrv'' then
        ((case map_of data f of
            Some v \<Rightarrow> OutcomeOk v
          | None \<Rightarrow> OutcomeErr (JErrorText (''variable not found: '' @ f))), None)
      else if s = ''return'' \<or> (s, f) = (''op'', ''return'') \<or> (s, f) = (''callbackSrv'', ''response'') then
        (Empty, Some (Inr (function_args a)))
      else if s = ''callbackSrv'' then (Empty, None)
      else if (s, f) = (''errorHandlingSrv'', ''error'') then (Empty, Some (Inl (function_args a)))
      else if f = ''identity'' then
        (outcome_from_output (case function_args a of [] \<Rightarrow> None | v # _ \<Rightarrow> Some v), None)
      else if (s, f) = (''op'', ''noop'') then (Empty, None)
      else (OutcomeErr (JErrorText (''service not found: '' @ s @ '' '' @ f)), None))"

text \<open>The particle function of the deployer: the first returned value goes to the oneshot channel, which
  is then gone; \<open>answers\<close> is what was sent.\<close>

definition deploy_closure ::
    "(string \<times> jvalue) list \<Rightarrow> args \<Rightarrow> bool \<times> (jvalue list + jvalue list) list \<Rightarrow>
     function_outcome \<times> bool \<times> (jvalue list + jvalue list) list" where
  "deploy_closure data a st =
     (let (outcome, returned) = client_functions data a; (outlet, answers) = st
      in case returned of
           None \<Rightarrow> (outcome, outlet, answers)
         | Some r \<Rightarrow> if outlet then (outcome, False, answers @ [r]) else (outcome, outlet, answers))"

subsection \<open>Builtins on disk\<close>

record builtin_module =
  bm_data :: bytes
  bm_config :: module_config

record scheduled_script =
  sc_name :: string
  sc_data :: string
  sc_interval_sec :: u64

record builtin =
  bt_name :: string
  bt_modules :: "builtin_module list"
  bt_blueprint :: add_blueprint
  bt_blueprint_id :: string
  bt_on_start_script :: "string option"
  bt_on_start_data :: "string option"
  bt_scheduled_scripts :: "scheduled_script list"

text \<open>One entry of the builtins directory: its name if it is a valid one, its files and the stems and
  contents of the files under \<^verbatim>\<open>scheduled\<close>, if that directory can be listed.\<close>

record builtin_dir =
  bd_is_dir :: bool
  bd_name :: "string option"
  bd_files :: directory
  bd_scheduled :: "(string option \<times> bytes) list option"

datatype run_answer =
    NotAccepted aquamarine_api_error
  | InletCancelled
  | Answered "jvalue list + jvalue list"

record 'n deployer_env =
  de_startup_peer_id :: peer_id
  de_node_peer_id :: string
  de_ttl_millis :: nat
  de_force_redeploy :: bool
  de_retry_attempts :: u16
  de_modules :: module_api
  de_utf8 :: "bytes \<Rightarrow> string option"
  de_base64 :: "bytes \<Rightarrow> string"
  de_config_json :: "module_config \<Rightarrow> jvalue"
  de_blueprint_json :: "add_blueprint \<Rightarrow> jvalue"
  de_json_map :: "string \<Rightarrow> (string \<times> jvalue) list option"
  de_captures :: "string \<Rightarrow> string \<Rightarrow> string list"
  de_uppercase :: "string \<Rightarrow> string"
  de_var :: "string \<Rightarrow> string option"
  de_uuid :: "'n \<Rightarrow> string"
  de_now_ms :: "'n \<Rightarrow> u64"
  de_run :: "particle \<Rightarrow> (string \<times> jvalue) list \<Rightarrow> 'n \<Rightarrow> run_answer \<times> 'n"

definition module_config_name_json :: "module_api \<Rightarrow> dependency \<Rightarrow> string" where
  "module_config_name_json A d = (case d of HashDep h \<Rightarrow> ma_to_hex A h | NameDep n \<Rightarrow> n) @ ''_config.json''"

definition module_file_name :: "module_api \<Rightarrow> dependency \<Rightarrow> string" where
  "module_file_name A d = (case d of HashDep h \<Rightarrow> ma_to_hex A h | NameDep n \<Rightarrow> n) @ ''.wasm''"

definition read_text :: "'n deployer_env \<Rightarrow> directory \<Rightarrow> string \<Rightarrow> string option" where
  "read_text D dir f = Option.bind (map_of dir f) (de_utf8 D)"

definition load_builtin_module :: "'n deployer_env \<Rightarrow> directory \<Rightarrow> dependency \<Rightarrow> string + builtin_module" where
  "load_builtin_module D dir dep =
     (let config = module_config_name_json (de_modules D) dep; wasm = module_file_name (de_modules D) dep in
      case map_of dir wasm of
        None \<Rightarrow> Inl (''module '' @ wasm @ '' not found'')
      | Some data \<Rightarrow>
          (case read_text D dir config of
             None \<Rightarrow> Inl (''config '' @ config @ '' not found'')
           | Some _ \<Rightarrow>
               (case Option.bind (map_of dir config) (ma_config_from_json (de_modules D)) of
                  None \<Rightarrow> Inl ''invalid json''
                | Some cfg \<Rightarrow> Inr \<lparr>bm_data = data, bm_config = cfg\<rparr>)))"

definition load_modules :: "'n deployer_env \<Rightarrow> directory \<Rightarrow> dependency list \<Rightarrow> string + builtin_module list" where
  "load_modules D dir deps = collect_results (map (load_builtin_module D dir) deps)"

definition load_blueprint :: "'n deployer_env \<Rightarrow> directory \<Rightarrow> string + add_blueprint" where
  "load_blueprint D dir =
     (case read_text D dir ''blueprint.json'' of
        None \<Rightarrow> Inl ''blueprint not found''
      | Some _ \<Rightarrow>
          (case Option.bind (map_of dir ''blueprint.json'') (ma_blueprint_from_json (de_modules D)) of
             None \<Rightarrow> Inl ''invalid json''
           | Some b \<Rightarrow> Inr b))"

definition get_blueprint_id :: "module_api \<Rightarrow> builtin_module list \<Rightarrow> string \<Rightarrow> string + string" where
  "get_blueprint_id A modules name =
     (let hashes = map (ma_hash A \<circ> bm_data) modules in
      if hashes = [] then Inl (''invalid blueprint '' @ name @ '': dependencies can't be empty'')
      else Inr (ma_to_hex A (hash_dependencies A (last hashes) (butlast hashes))))"

subsection \<open>Scheduled scripts and environment variables\<close>

text \<open>\<^verbatim>\<open>str::parse::<u64>\<close>: an optional plus sign and at least one digit, below 2^64.\<close>

definition parse_u64 :: "string \<Rightarrow> u64 option" where
  "parse_u64 s =
     (let digits = (case s of c # cs \<Rightarrow> if c = CHR ''+'' then cs else s | [] \<Rightarrow> s) in
      if digits \<noteq> [] \<and> list_all (\<lambda>c. 48 \<le> (of_char c :: nat) \<and> (of_char c :: nat) \<le> 57) digits \<and> read_nat digits < 2 ^ 64
      then Some (word_of_nat (read_nat digits)) else None)"

definition load_scheduled_script :: "'n deployer_env \<Rightarrow> string option \<times> bytes \<Rightarrow> string + scheduled_script" where
  "load_scheduled_script D f =
     (case de_utf8 D (snd f) of
        None \<Rightarrow> Inl ''read''
      | Some data \<Rightarrow>
          (case fst f of
             None \<Rightarrow> Inl ''invalid path''
           | Some stem \<Rightarrow>
               (case split_on (CHR ''_'') stem of
                  name # interval # _ \<Rightarrow>
                    (case parse_u64 interval of
                       None \<Rightarrow> Inl ''invalid interval''
                     | Some n \<Rightarrow> Inr \<lparr>sc_name = name, sc_data = data, sc_interval_sec = n\<rparr>)
                | _ \<Rightarrow> Inl (''invalid script name '' @ stem @ '', should be in %name%_%interval_in_sec%.air form''))))"

definition load_scheduled_scripts :: "'n deployer_env \<Rightarrow> builtin_dir \<Rightarrow> string + scheduled_script list" where
  "load_scheduled_scripts D d =
     (case bd_scheduled d of
        None \<Rightarrow> Inr []
      | Some files \<Rightarrow> collect_results (map (load_scheduled_script D) files))"

function replace_all :: "string \<Rightarrow> string \<Rightarrow> string \<Rightarrow> string" where
  "replace_all pat new s =
     (if pat = [] \<or> s = [] then s
      else if take (length pat) s = pat then new @ replace_all pat new (drop (length pat) s)
      else hd s # replace_all pat new (tl s))"
  by pat_completeness auto
termination by (relation "measure (\<lambda>(pat, new, s). length s)") auto

declare replace_all.simps [simp del]

fun replace_vars :: "'n deployer_env \<Rightarrow> string list \<Rightarrow> string \<Rightarrow> string + string" where
  "replace_vars D [] result = Inr result"
| "replace_vars D (elem # elems) result =
     (case de_var D (tl elem) of
        None \<Rightarrow> Inl (''environment variable not found: '' @ tl elem)
      | Some v \<Rightarrow> replace_vars D elems (replace_all elem v result))"

definition resolve_env_variables :: "'n deployer_env \<Rightarrow> string \<Rightarrow> string \<Rightarrow> string + string" where
  "resolve_env_variables D data service_name =
     (let env_prefix = ''$FLUENCE_ENV_'' @ map (\<lambda>c. if c = CHR ''-'' then CHR ''_'' else c) (de_uppercase D service_name)
      in replace_vars D (de_captures D env_prefix data) data)"

definition load_builtin :: "'n deployer_env \<Rightarrow> builtin_dir \<Rightarrow> string + builtin" where
  "load_builtin D d =
     (case bd_name d of
        None \<Rightarrow> Inl ''invalid path''
      | Some name \<Rightarrow>
          (case load_blueprint D (bd_files d) of
             Inl e \<Rightarrow> Inl e
           | Inr bp \<Rightarrow>
               (case load_modules D (bd_files d) (ab_dependencies bp) of
                  Inl e \<Rightarrow> Inl e
                | Inr modules \<Rightarrow>
                    (case get_blueprint_id (de_modules D) modules name of
                       Inl e \<Rightarrow> Inl e
                     | Inr bid \<Rightarrow>
                         (case load_scheduled_scripts D d of
                            Inl e \<Rightarrow> Inl e
                          | Inr scripts \<Rightarrow>
                              Inr \<lparr>bt_name = name, bt_modules = modules, bt_blueprint = bp, bt_blueprint_id = bid,
                                bt_on_start_script = read_text D (bd_files d) ''on_start.air'',
                                bt_on_start_data = read_text D (bd_files d) ''on_start.json'',
                                bt_scheduled_scripts = scripts\<rparr>)))))"

definition list_builtins :: "'n deployer_env \<Rightarrow> builtin_dir list option \<Rightarrow> string + builtin list" where
  "list_builtins D entries =
     (case entries of
        None \<Rightarrow> Inl ''directory not found''
      | Some ds \<Rightarrow>
          (let results = map (load_builtin D) (filter bd_is_dir ds) in
           if list_ex (\<lambda>r. \<exists>e. r = Inl e) results then Inl ''failed to load builtins from disk''
           else collect_results results))"

subsection \<open>Requests to the node\<close>

definition send_particle ::
    "'n deployer_env \<Rightarrow> string \<Rightarrow> (string \<times> jvalue) list \<Rightarrow> 'n \<Rightarrow> (string + jvalue list) \<times> 'n" where
  "send_particle D script data0 n =
     (let data = AList.update ''relay'' (JString (de_node_peer_id D)) (AList.update ''node'' (JString (de_node_peer_id D)) data0)
      in case wrap_script script data None False (Some (de_node_peer_id D)) of
           None \<Rightarrow> (Inl ''panic'', n)
         | Some air \<Rightarrow>
             (let p = \<lparr>pt_id = de_uuid D n, pt_init_peer_id = de_startup_peer_id D, pt_timestamp = de_now_ms D n,
                       pt_ttl = word_of_nat (de_ttl_millis D), pt_script = air, pt_signature = [], pt_data = []\<rparr>
              in case de_run D p data n of
                   (NotAccepted _, n1) \<Rightarrow> (Inl ''not accepted'', n1)
                 | (InletCancelled, n1) \<Rightarrow> (Inl ''error reading from inlet'', n1)
                 | (Answered (Inl _), n1) \<Rightarrow> (Inl ''AIR caught an error on args'', n1)
                 | (Answered (Inr vs), n1) \<Rightarrow> (Inr vs, n1)))"

fun assert_ok :: "jvalue list \<Rightarrow> string \<Rightarrow> string + unit" where
  "assert_ok [JString s] msg = (if s = ''ok'' then Inr () else Inl msg)"
| "assert_ok [JBool b] msg = (if b then Inr () else Inl msg)"
| "assert_ok _ msg = Inl msg"

definition request ::
    "'n deployer_env \<Rightarrow> string \<Rightarrow> (string \<times> jvalue) list \<Rightarrow> string \<Rightarrow> 'n \<Rightarrow> (string + unit) \<times> 'n" where
  "request D script data msg = try_then (send_particle D script data) (\<lambda>vs n. (assert_ok vs msg, n))"

definition air_guarded :: "string \<Rightarrow> string" where
  "air_guarded call = ''(xor (seq '' @ call @ '' (call node (\"op\" \"return\") [true])) (call node (\"op\" \"return\") [%last_error%.$.instruction]))''"

definition dp_add_module :: "'n deployer_env \<Rightarrow> builtin_module \<Rightarrow> 'n \<Rightarrow> (string + unit) \<times> 'n" where
  "dp_add_module D m = request D (air_guarded ''(call node (\"dist\" \"add_module\") [module_bytes module_config])'')
     [(''module_bytes'', JString (de_base64 D (bm_data m))), (''module_config'', de_config_json D (bm_config m))]
     ''add_module call failed''"

definition dp_remove_service :: "'n deployer_env \<Rightarrow> string \<Rightarrow> 'n \<Rightarrow> (string + unit) \<times> 'n" where
  "dp_remove_service D name = request D (air_guarded ''(call node (\"srv\" \"remove\") [name])'')
     [(''name'', JString name)] ''remove_service call failed''"

definition dp_create_service :: "'n deployer_env \<Rightarrow> builtin \<Rightarrow> 'n \<Rightarrow> (string + unit) \<times> 'n" where
  "dp_create_service D b = request D
     (''(xor (seq (call node (\"dist\" \"add_blueprint\") [blueprint] blueprint_id) (seq (call node (\"srv\" \"create\") [blueprint_id] service_id) '' @
      ''(seq (call node (\"srv\" \"add_alias\") [alias service_id] result) (call node (\"op\" \"return\") [true])))) '' @
      ''(call node (\"op\" \"return\") [%last_error%.$.instruction]))'')
     [(''blueprint'', de_blueprint_json D (bt_blueprint b)), (''alias'', JString (bt_name b))]
     ''create_service call failed''"

definition run_on_start :: "'n deployer_env \<Rightarrow> builtin \<Rightarrow> 'n \<Rightarrow> (string + unit) \<times> 'n" where
  "run_on_start D b n =
     (case (bt_on_start_script b, bt_on_start_data b) of
        (Some script, Some text) \<Rightarrow>
          (case resolve_env_variables D text (bt_name b) of
             Inl e \<Rightarrow> (Inl e, n)
           | Inr json \<Rightarrow>
               (case de_json_map D json of
                  None \<Rightarrow> (Inl ''invalid json'', n)
                | Some data \<Rightarrow> request D script data ''on_start call failed'' n))
      | _ \<Rightarrow> (Inr (), n))"

fun for_each :: "('a \<Rightarrow> 'n \<Rightarrow> (string + unit) \<times> 'n) \<Rightarrow> 'a list \<Rightarrow> 'n \<Rightarrow> (string + unit) \<times> 'n" where
  "for_each f [] n = (Inr (), n)"
| "for_each f (x # xs) n = try_then (f x) (\<lambda>_. for_each f xs) n"

definition run_scheduled_scripts :: "'n deployer_env \<Rightarrow> builtin \<Rightarrow> 'n \<Rightarrow> (string + unit) \<times> 'n" where
  "run_scheduled_scripts D b =
     for_each (\<lambda>s. request D (air_guarded ''(call node (\"script\" \"add\") [script interval_sec])'')
         [(''script'', JString (sc_data s)), (''interval_sec'', JInt (int (unat (sc_interval_sec s))))]
         (''scheduled script '' @ sc_name s @ '' run failed''))
       (bt_scheduled_scripts b)"

definition upload_modules :: "'n deployer_env \<Rightarrow> builtin \<Rightarrow> 'n \<Rightarrow> (string + unit) \<times> 'n" where
  "upload_modules D b = for_each (dp_add_module D) (bt_modules b)"

subsection \<open>Waiting for the runtime pool\<close>

definition ping :: "'n deployer_env \<Rightarrow> 'n \<Rightarrow> (string + unit) \<times> 'n" where
  "ping D = request D ''(seq (null) (call node (\"op\" \"return\") [true]))'' [] ''ping call failed''"

text \<open>The attempt counter is a 16-bit word; \<open>None\<close> means that the loop does not return.\<close>

partial_function (option) wait_loop :: "'n deployer_env \<Rightarrow> u16 \<Rightarrow> 'n \<Rightarrow> ((string + unit) \<times> 'n) option" where
  "wait_loop D attempt n =
     (case ping D n of
        (Inr _, n1) \<Rightarrow> Some (Inr (), n1)
      | (Inl e, n1) \<Rightarrow>
          if attempt + 1 > de_retry_attempts D
          then Some (Inl (''Attempts limit exceeded. Can't connect to vm pool: '' @ e), n1)
          else wait_loop D (attempt + 1) n1)"

definition wait_for_vm_pool :: "'n deployer_env \<Rightarrow> 'n \<Rightarrow> ((string + unit) \<times> 'n) option" where
  "wait_for_vm_pool D n = wait_loop D 0 n"

subsection \<open>Listing deployed services\<close>

definition jfield :: "string \<Rightarrow> jvalue \<Rightarrow> jvalue option" where
  "jfield k v = (case v of JObject kvs \<Rightarrow> map_of kvs k | _ \<Rightarrow> None)"

fun alias_strings :: "jvalue list \<Rightarrow> string list option" where
  "alias_strings [] = Some []"
| "alias_strings (JString s # vs) = map_option ((#) s) (alias_strings vs)"
| "alias_strings (_ # vs) = None"

fun collect_blueprints :: "jvalue list \<Rightarrow> (string \<times> string) list \<Rightarrow> string + (string \<times> string) list" where
  "collect_blueprints [] m = Inr m"
| "collect_blueprints (p # ps) m =
     (case (jfield ''blueprint_id'' p, jfield ''aliases'' p) of
        (Some (JString bid), Some (JArray as)) \<Rightarrow>
          (case alias_strings as of
             None \<Rightarrow> Inl ''list_services call failed''
           | Some names \<Rightarrow> collect_blueprints ps (fold (\<lambda>a. AList.update a bid) names m))
      | _ \<Rightarrow> Inl ''list_services call failed'')"

definition get_service_blueprints :: "'n deployer_env \<Rightarrow> 'n \<Rightarrow> (string + (string \<times> string) list) \<times> 'n" where
  "get_service_blueprints D =
     try_then (send_particle D (''(xor (seq (call node (\"srv\" \"list\") [] list) (call node (\"op\" \"return\") [list])) '' @
         ''(call node (\"op\" \"return\") [%last_error%.$.instruction]))'') [])
       (\<lambda>vs n. (case vs of JArray ps # _ \<Rightarrow> collect_blueprints ps [] | _ \<Rightarrow> Inl ''list_services call failed'', n))"

subsection \<open>Deployment\<close>

text \<open>Removing all builtins that are deployed, when a redeployment is forced.\<close>

fun remove_deployed ::
    "'n deployer_env \<Rightarrow> builtin list \<Rightarrow> (string \<times> string) list \<Rightarrow> 'n \<Rightarrow> (string + (string \<times> string) list) \<times> 'n" where
  "remove_deployed D [] local n = (Inr local, n)"
| "remove_deployed D (b # bs) local n =
     (if map_of local (bt_name b) \<noteq> None
      then try_then (dp_remove_service D (bt_name b)) (\<lambda>_. remove_deployed D bs (AList.delete (bt_name b) local)) n
      else remove_deployed D bs local n)"

text \<open>The classification into builtins to create and to start; a changed one is removed at once.\<close>

fun classify ::
    "'n deployer_env \<Rightarrow> (string \<times> string) list \<Rightarrow> builtin list \<Rightarrow> 'n \<Rightarrow> (string + builtin list \<times> builtin list) \<times> 'n" where
  "classify D local [] n = (Inr ([], []), n)"
| "classify D local (b # bs) n =
     (case map_of local (bt_name b) of
        Some bid \<Rightarrow>
          if bid \<noteq> bt_blueprint_id b
          then try_then (dp_remove_service D (bt_name b))
                 (\<lambda>_. try_then (classify D local bs) (\<lambda>(create, start) n. (Inr (b # create, start), n))) n
          else try_then (classify D local bs) (\<lambda>(create, start) n. (Inr (create, b # start), n)) n
      | None \<Rightarrow> try_then (classify D local bs) (\<lambda>(create, start) n. (Inr (b # create, start), n)) n)"

definition init_builtin :: "'n deployer_env \<Rightarrow> builtin \<Rightarrow> 'n \<Rightarrow> (string + unit) \<times> 'n" where
  "init_builtin D b = try_then (upload_modules D b) (\<lambda>_. dp_create_service D b)"

definition start_builtin :: "'n deployer_env \<Rightarrow> builtin \<Rightarrow> 'n \<Rightarrow> (string + unit) \<times> 'n" where
  "start_builtin D b = try_then (run_on_start D b) (\<lambda>_. run_scheduled_scripts D b)"

definition deploy_all :: "'n deployer_env \<Rightarrow> builtin list \<Rightarrow> 'n \<Rightarrow> (string + unit) \<times> 'n" where
  "deploy_all D from_disk =
     try_then (get_service_blueprints D) (\<lambda>local.
     try_then (if de_force_redeploy D then remove_deployed D from_disk local else Pair (Inr local)) (\<lambda>local.
     try_then (classify D local from_disk) (\<lambda>(create, start).
     try_then (for_each (init_builtin D) create) (\<lambda>_.
       for_each (start_builtin D) (start @ create)))))"

definition deploy_builtin_services ::
    "'n deployer_env \<Rightarrow> builtin_dir list option \<Rightarrow> 'n \<Rightarrow> ((string + unit) \<times> 'n) option" where
  "deploy_builtin_services D entries n =
     (case list_builtins D entries of
        Inl e \<Rightarrow> Some (Inl e, n)
      | Inr from_disk \<Rightarrow>
          if from_disk = [] then Some (Inr (), n)
          else
            (case wait_for_vm_pool D n of
               None \<Rightarrow> None
             | Some (Inl e, n1) \<Rightarrow> Some (Inl e, n1)
             | Some (Inr _, n1) \<Rightarrow> Some (deploy_all D from_disk n1)))"

subsection \<open>Properties\<close>

lemma unat_Suc_u16: "unat (w :: u16) < 65535 \<Longrightarrow> unat (w + 1) = Suc (unat w)"
  by (simp add: unat_word_ariths take_bit_nat_eq_self)

lemma wait_loop_returns:
  assumes "unat (de_retry_attempts D) < 65535" and "unat attempt \<le> unat (de_retry_attempts D)"
  shows "\<exists>r. wait_loop D attempt n = Some r"
  using assms(2)
proof (induction "unat (de_retry_attempts D) - unat attempt" arbitrary: attempt n rule: less_induct)
  case less
  have suc: "unat (attempt + 1) = Suc (unat attempt)" using less.prems assms(1) by (simp add: unat_Suc_u16)
  show ?case
  proof (cases "ping D n")
    case (Pair r n1)
    show ?thesis
    proof (cases r)
      case (Inl e)
      show ?thesis
      proof (cases "attempt + 1 > de_retry_attempts D")
        case True
        then show ?thesis by (subst wait_loop.simps) (simp add: Pair Inl)
      next
        case False
        then have "unat (attempt + 1) \<le> unat (de_retry_attempts D)" by (simp add: word_le_nat_alt not_less)
        with less.hyps [of "attempt + 1" n1] suc show ?thesis
          by (subst wait_loop.simps) (use False in \<open>simp add: Pair Inl\<close>)
      qed
    next
      case (Inr u)
      then show ?thesis by (subst wait_loop.simps) (simp add: Pair)
    qed
  qed
qed


lemma wait_loop_hangs:
  assumes "wait_loop D attempt n = Some r"
  shows "de_retry_attempts D = 65535 \<longrightarrow> (\<exists>n' n1. ping D n' = (Inr (), n1))" (is "?Q D")
proof (rule wait_loop.raw_induct [where P = "\<lambda>D _ _ _. ?Q D", OF _ assms])
  fix loop D attempt n r
  assume ih: "\<And>D' attempt' n' r'. loop D' attempt' n' = Some r' \<Longrightarrow> ?Q D'"
    and step: "(case ping D n of
        (Inr _, n1) \<Rightarrow> Some (Inr (), n1)
      | (Inl e, n1) \<Rightarrow>
          if attempt + 1 > de_retry_attempts D
          then Some (Inl (''Attempts limit exceeded. Can't connect to vm pool: '' @ e), n1)
          else loop D (attempt + 1) n1) = Some r"
  have "\<not> attempt + 1 > (65535 :: u16)"
    using unsigned_less [of "attempt + 1", where 'a = nat] by (simp add: word_less_nat_alt)
  then have "de_retry_attempts D = 65535 \<Longrightarrow> (\<exists>n1. ping D n = (Inr (), n1)) \<or> (\<exists>n1. loop D (attempt + 1) n1 = Some r)"
    using step by (auto split: prod.splits sum.splits if_splits)
  with ih show "?Q D" by blast
qed

text \<open>[deployment_can_hang]: With 65535 retries the attempt counter wraps around before it can exceed the limit: if the node
  never answers a ping, waiting for the runtime pool never returns.\<close>

theorem deployment_can_hang:
  assumes "de_retry_attempts D = 65535" and "\<forall>n. \<exists>e n1. ping D n = (Inl e, n1)"
  shows "wait_for_vm_pool D n = None"
proof (cases "wait_loop D 0 n")
  case (Some r)
  with wait_loop_hangs [OF this] assms show ?thesis by (metis Pair_inject sum.distinct(1))
qed (simp add: wait_for_vm_pool_def)

text \<open>[deployment_plan]: Among the builtins on disk, those not deployed under their name, or deployed from another
  blueprint, are created, and the others only started, both in the order on disk.\<close>

theorem deployment_plan:
  assumes "classify D local from_disk n = (Inr (create, start), n')"
  shows "create = filter (\<lambda>b. map_of local (bt_name b) \<noteq> Some (bt_blueprint_id b)) from_disk \<and>
    start = filter (\<lambda>b. map_of local (bt_name b) = Some (bt_blueprint_id b)) from_disk"
  using assms
proof (induction from_disk arbitrary: n create start)
  case (Cons b bs)
  from Cons.prems show ?case
    by (auto split: option.splits if_splits elim!: try_then_InrE dest: Cons.IH)
qed simp

definition alias_updates :: "string \<times> 'app service \<Rightarrow> (string \<times> string) list \<Rightarrow> (string \<times> string) list" where
  "alias_updates e m = fold (\<lambda>a. AList.update a (srv_blueprint_id (snd e))) (srv_aliases (snd e)) m"

lemma alias_strings_JString [simp]: "alias_strings (map JString ss) = Some ss"
  by (induction ss) auto

lemma collect_list_services:
  "collect_blueprints (list_services A st) m = Inr (fold alias_updates (as_services st) m)"
proof -
  have "collect_blueprints (map (\<lambda>(sid, s). JObject [(''id'', JString sid), (''blueprint_id'', JString (srv_blueprint_id s)),
      (''owner_id'', JString (sa_peer_to_string A (srv_owner_id s))), (''aliases'', JArray (map JString (srv_aliases s)))]) xs) m =
      Inr (fold alias_updates xs m)" for xs
    by (induction xs arbitrary: m) (auto simp: jfield_def alias_updates_def)
  then show ?thesis by (simp add: list_services_def)
qed

lemma map_of_alias_updates:
  "map_of (alias_updates e m) a = (if a \<in> set (srv_aliases (snd e)) then Some (srv_blueprint_id (snd e)) else map_of m a)"
proof -
  have "map_of (fold (\<lambda>a. AList.update a v) as m) a = (if a \<in> set as then Some v else map_of m a)" for as v
    by (induction as arbitrary: m) (auto simp: map_of_AList_update)
  then show ?thesis by (simp add: alias_updates_def)
qed

lemma fold_alias_updates_none:
  "\<forall>e\<in>set es. a \<notin> set (srv_aliases (snd e)) \<Longrightarrow> map_of (fold alias_updates es m) a = map_of m a"
  by (induction es arbitrary: m) (auto simp: map_of_alias_updates)

lemma fold_alias_updates_some:
  "\<forall>e\<in>set es. a \<in> set (srv_aliases (snd e)) \<longrightarrow> srv_blueprint_id (snd e) = b \<Longrightarrow>
   \<exists>e\<in>set es. a \<in> set (srv_aliases (snd e)) \<Longrightarrow> map_of (fold alias_updates es m) a = Some b"
proof (induction es rule: rev_induct)
  case (snoc e es)
  then show ?case by (auto simp: map_of_alias_updates)
qed simp

text \<open>[listed_blueprints]: What the deployer reads from the answer of \<^verbatim>\<open>srv.list\<close> is, for every alias, the blueprint of the
  service that the node resolves it to.\<close>

theorem listed_blueprints:
  assumes "aliases_agree st" and "distinct (map fst (as_services st))"
  shows "\<exists>m. collect_blueprints (list_services A st) [] = Inr m \<and>
    (\<forall>a. map_of m a = Option.bind (map_of (as_aliases st) a) (\<lambda>sid. map_option srv_blueprint_id (map_of (as_services st) sid)))"
proof -
  let ?m = "fold alias_updates (as_services st) []"
  have mem: "e \<in> set (as_services st) \<longleftrightarrow> map_of (as_services st) (fst e) = Some (snd e)" for e
    using assms(2) by (cases e) simp
  have held: "map_of (as_aliases st) a = Some sid \<longleftrightarrow> (\<exists>s. (sid, s) \<in> set (as_services st) \<and> a \<in> set (srv_aliases s))" for a sid
    using assms(1) unfolding aliases_agree_def mem by simp
  have "map_of ?m a = Option.bind (map_of (as_aliases st) a) (\<lambda>sid. map_option srv_blueprint_id (map_of (as_services st) sid))" for a
  proof (cases "map_of (as_aliases st) a")
    case None
    then have "\<forall>e\<in>set (as_services st). a \<notin> set (srv_aliases (snd e))"
      using held by (metis option.distinct(1) prod.collapse)
    with None show ?thesis by (simp add: fold_alias_updates_none)
  next
    case (Some sid)
    then obtain s where s: "(sid, s) \<in> set (as_services st)" "a \<in> set (srv_aliases s)" using held by blast
    have "e = (sid, s)" if "e \<in> set (as_services st)" "a \<in> set (srv_aliases (snd e))" for e
    proof -
      have "map_of (as_aliases st) a = Some (fst e)" unfolding held using that by (metis prod.collapse)
      with Some that(1) s(1) show ?thesis unfolding mem by (cases e) auto
    qed
    then have "map_of ?m a = Some (srv_blueprint_id s)" using s by (intro fold_alias_updates_some) force+
    with Some s mem [of "(sid, s)"] show ?thesis by simp
  qed
  then show ?thesis by (simp add: collect_list_services)
qed

text \<open>[deployed_blueprint_is_current]: When the modules of a builtin are what its dependencies resolve to on the node, the blueprint id
  that the node assigns is the one computed from disk, so that an unchanged builtin is not deployed
  again.\<close>

theorem deployed_blueprint_is_current:
  assumes "collect_results (map (resolve_hash (modules_by_name r)) (ab_dependencies ab)) = Inr (map (ma_hash A \<circ> bm_data) modules)"
    and "repo_add_blueprint A ab r = (Inr i, r')"
  shows "get_blueprint_id A modules name = Inr i"
  using assms(2) unfolding repo_add_blueprint_def assms(1)
  by (auto simp: get_blueprint_id_def Let_def split: if_splits sum.splits)

theorem deployed_blueprint_is_current_witness:
  "\<exists>i. fst (repo_add_blueprint sample_modules \<lparr>ab_name = ''a'', ab_dependencies = [HashDep [1], HashDep [2, 3]]\<rparr>
        sample_repository) = Inr i \<and>
     get_blueprint_id sample_modules [\<lparr>bm_data = [1], bm_config = big_config\<rparr>, \<lparr>bm_data = [2, 3], bm_config = big_config\<rparr>] ''a'' = Inr i"
proof -
  let ?ab = "\<lparr>ab_name = ''a'', ab_dependencies = [HashDep [1], HashDep [2, 3]]\<rparr>"
  let ?ms = "[\<lparr>bm_data = [1], bm_config = big_config\<rparr>, \<lparr>bm_data = [2, 3], bm_config = big_config\<rparr>]"
  have hashes: "collect_results (map (resolve_hash (modules_by_name sample_repository)) (ab_dependencies ?ab)) =
      Inr (map (ma_hash sample_modules \<circ> bm_data) ?ms)"
    by (simp add: sample_modules_def resolve_hash_def)
  then obtain i r' where add: "repo_add_blueprint sample_modules ?ab sample_repository = (Inr i, r')"
    by (auto simp: repo_add_blueprint_def Let_def files_add_blueprint_def sample_modules_def)
  from deployed_blueprint_is_current [OF hashes this] add show ?thesis by simp
qed

lemma add_call_shape:
  "i = NullI \<or> (\<exists>l r. i = SeqI l r) \<Longrightarrow> \<exists>j. add_call i c = Some j \<and> (\<exists>l r. j = SeqI l r)"
  by auto

lemma add_calls_total: "i = NullI \<or> (\<exists>l r. i = SeqI l r) \<Longrightarrow> add_calls cs i \<noteq> None"
proof (induction cs arbitrary: i)
  case (Cons c cs)
  from add_call_shape [OF Cons.prems, of c] Cons.IH show ?case by fastforce
qed simp

lemma wrap_script_Some: "\<exists>air. wrap_script script data relay generated executor = Some air"
proof -
  have "add_calls cs NullI \<noteq> None" for cs by (rule add_calls_total) simp
  then show ?thesis by (cases generated) (simp_all add: wrap_script_def Let_def)
qed

text \<open>[wrapping_never_panics]: Wrapping a script with the loading of its variables never runs into the panic on an unexpected
  instruction, whatever the variables.\<close>

theorem wrapping_never_panics: "wrap_script script data relay generated executor \<noteq> None"
  using wrap_script_Some [of script data relay generated executor] by auto

lemma deploy_closure_step:
  "snd (deploy_closure data a (outlet, rs)) =
     (case snd (client_functions data a) of
        None \<Rightarrow> (outlet, rs)
      | Some r \<Rightarrow> if outlet then (False, rs @ [r]) else (outlet, rs))"
  by (auto simp: deploy_closure_def Let_def split: prod.splits option.splits)

text \<open>[deployer_answered_once]: However often a particle calls back, at most one answer reaches the deployer, and it is the
  first value returned or error caught.\<close>

theorem deployer_answered_once:
  "snd (fold (\<lambda>a st. snd (deploy_closure data a st)) calls (True, [])) =
     (case List.map_filter (\<lambda>a. snd (client_functions data a)) calls of [] \<Rightarrow> [] | r # _ \<Rightarrow> [r])"
proof (induction calls)
  case (Cons a calls)
  have gone: "fold (\<lambda>a st. snd (deploy_closure data a st)) calls (False, rs) = (False, rs)" for rs
    by (induction calls) (auto simp: deploy_closure_step split: option.splits)
  from Cons gone show ?case by (cases "snd (client_functions data a)") (simp_all add: deploy_closure_step List.map_filter_simps)
qed (simp add: List.map_filter_simps)

lemma classify_unchanged:
  "\<forall>b\<in>set bs. map_of local (bt_name b) = Some (bt_blueprint_id b) \<Longrightarrow> classify D local bs n = (Inr ([], bs), n)"
  by (induction bs) (simp_all add: try_then_def)

text \<open>[unchanged_builtins_only_start]: When nothing has changed on disk and no redeployment is forced, deployment neither removes nor
  creates a service nor uploads a module: it only starts the builtins, in the order on disk.\<close>

theorem unchanged_builtins_only_start:
  assumes "\<not> de_force_redeploy D" and "get_service_blueprints D n = (Inr local, n1)"
    and "\<forall>b\<in>set from_disk. map_of local (bt_name b) = Some (bt_blueprint_id b)"
  shows "deploy_all D from_disk n = for_each (start_builtin D) from_disk n1"
  using assms classify_unchanged [OF assms(3), of D n1] by (simp add: deploy_all_def try_then_def)

lemma remove_deployed_local:
  "remove_deployed D bs local n = (Inr local', n') \<Longrightarrow>
   map_of local' x = (if x \<in> bt_name ` set bs then None else map_of local x)"
proof (induction bs arbitrary: local n)
  case (Cons b bs)
  from Cons.prems show ?case
    by (auto simp: map_of_AList_delete split: if_splits elim!: try_then_InrE dest!: Cons.IH)
qed simp

text \<open>[forced_redeploy_creates_all]: A forced redeployment that gets as far as classifying the builtins creates every one of them.\<close>

theorem forced_redeploy_creates_all:
  assumes "remove_deployed D from_disk local n = (Inr local', n1)" and "classify D local' from_disk n1 = (Inr (create, start), n2)"
  shows "create = from_disk \<and> start = []"
proof -
  have none: "map_of local' (bt_name b) = None" if "b \<in> set from_disk" for b
    using remove_deployed_local [OF assms(1), of "bt_name b"] that by simp
  have "classify D local' bs n = (Inr (bs, []), n)" if "set bs \<subseteq> set from_disk" for bs n
    using that none by (induction bs) (simp_all add: try_then_def)
  then show ?thesis using assms(2) by simp
qed

subsection \<open>Witnesses\<close>

definition sample_deployer :: "u16 \<Rightarrow> (nat \<Rightarrow> run_answer) \<Rightarrow> nat deployer_env" where
  "sample_deployer retries answer =
     \<lparr>de_startup_peer_id = 1, de_node_peer_id = ''node'', de_ttl_millis = 1000, de_force_redeploy = False,
      de_retry_attempts = retries, de_modules = sample_modules, de_utf8 = (\<lambda>_. Some []), de_base64 = (\<lambda>_. []),
      de_config_json = (\<lambda>_. JNull), de_blueprint_json = (\<lambda>_. JNull), de_json_map = (\<lambda>_. None),
      de_captures = (\<lambda>_ _. []), de_uppercase = (\<lambda>s. s), de_var = (\<lambda>_. None), de_uuid = (\<lambda>n. show_nat n),
      de_now_ms = word_of_nat, de_run = (\<lambda>_ _ n. (answer n, Suc n))\<rparr>"

definition sample_builtin :: builtin where
  "sample_builtin = \<lparr>bt_name = ''aqua-ipfs'', bt_modules = [], bt_blueprint = \<lparr>ab_name = ''x'', ab_dependencies = []\<rparr>,
     bt_blueprint_id = ''bp1'', bt_on_start_script = None, bt_on_start_data = None, bt_scheduled_scripts = []\<rparr>"

definition sample_list :: jvalue where
  "sample_list = JArray [JObject [(''blueprint_id'', JString ''bp1''), (''aliases'', JArray [JString ''aqua-ipfs''])]]"

lemma sample_send:
  "send_particle (sample_deployer r answer) script data n =
     ((case answer n of
         Answered (Inr vs) \<Rightarrow> Inr vs
       | NotAccepted _ \<Rightarrow> Inl ''not accepted''
       | InletCancelled \<Rightarrow> Inl ''error reading from inlet''
       | Answered (Inl _) \<Rightarrow> Inl ''AIR caught an error on args''), Suc n)"
proof -
  obtain air where "wrap_script script (AList.update ''relay'' (JString ''node'') (AList.update ''node'' (JString ''node'') data))
      None False (Some ''node'') = Some air"
    using wrap_script_Some by blast
  then show ?thesis
    by (auto simp: send_particle_def sample_deployer_def Let_def split: run_answer.splits sum.splits)
qed


theorem deployment_can_hang_witness:
  "wait_for_vm_pool (sample_deployer 65535 (\<lambda>_. InletCancelled)) 0 = None"
proof (rule deployment_can_hang)
  show "\<forall>n. \<exists>e n1. ping (sample_deployer 65535 (\<lambda>_. InletCancelled)) n = (Inl e, n1)"
    by (simp add: ping_def request_def try_then_def sample_send)
qed (simp add: sample_deployer_def)

theorem deployment_plan_witness:
  "classify (sample_deployer 5 (\<lambda>_. InletCancelled)) [] [sample_builtin] 0 = (Inr ([sample_builtin], []), 0)"
proof -
  obtain create start where c: "classify (sample_deployer 5 (\<lambda>_. InletCancelled)) [] [sample_builtin] 0 = (Inr (create, start), 0)"
    by (simp add: try_then_def)
  from deployment_plan [OF c] c show ?thesis by simp
qed

theorem unchanged_builtins_only_start_witness:
  "deploy_all (sample_deployer 5 (\<lambda>_. Answered (Inr [sample_list]))) [sample_builtin] 0 = (Inr (), 1)"
proof -
  let ?D = "sample_deployer 5 (\<lambda>_. Answered (Inr [sample_list]))"
  have "get_service_blueprints ?D 0 = (Inr [(''aqua-ipfs'', ''bp1'')], 1)"
    by (simp add: get_service_blueprints_def try_then_def sample_send sample_list_def jfield_def)
  from unchanged_builtins_only_start [OF _ this, of "[sample_builtin]"] show ?thesis
    by (simp add: sample_deployer_def sample_builtin_def start_builtin_def run_on_start_def run_scheduled_scripts_def try_then_def)
qed

theorem forced_redeploy_creates_all_witness:
  "classify (sample_deployer 5 (\<lambda>_. Answered (Inr [JBool True]))) [] [sample_builtin] 1 = (Inr ([sample_builtin], []), 1)"
proof -
  let ?D = "sample_deployer 5 (\<lambda>_. Answered (Inr [JBool True]))"
  have r: "remove_deployed ?D [sample_builtin] [(''aqua-ipfs'', ''bp0'')] 0 = (Inr [], 1)"
    by (simp add: try_then_def dp_remove_service_def request_def sample_send sample_builtin_def)
  obtain create start where c: "classify ?D [] [sample_builtin] 1 = (Inr (create, start), 1)"
    by (simp add: try_then_def)
  from forced_redeploy_creates_all [OF r c] c show ?thesis by simp
qed

theorem listed_blueprints_witness:
  "\<exists>m. collect_blueprints (list_services sample_services (sample_node\<lparr>as_services :=
        [(''s'', \<lparr>srv_service = 3, srv_blueprint_id = ''bp1'', srv_owner_id = 5, srv_aliases = [''al'']\<rparr>)],
        as_aliases := [(''al'', ''s'')]\<rparr>)) [] = Inr m \<and> map_of m ''al'' = Some ''bp1'' \<and> map_of m ''s'' = None"
proof -
  let ?st = "sample_node\<lparr>as_services :=
        [(''s'', \<lparr>srv_service = 3, srv_blueprint_id = ''bp1'', srv_owner_id = 5, srv_aliases = [''al'']\<rparr>)],
        as_aliases := [(''al'', ''s'')]\<rparr>"
  have "aliases_agree ?st" "distinct (map fst (as_services ?st))" by (auto simp: aliases_agree_def)
  from listed_blueprints [OF this, of sample_services] show ?thesis by auto
qed

text \<open>[env_names_clash]: Environment variables are substituted one after the other as plain text, so a variable whose name
  is a prefix of another one's is put into the longer name too: with \<^verbatim>\<open>A\<close> set to 1 and \<^verbatim>\<open>AB\<close> set to 2 the
  text that names both becomes \<^verbatim>\<open>1 1B\<close>.\<close>

theorem env_names_clash:
  "resolve_env_variables ((sample_deployer 5 answer)
       \<lparr>de_captures := (\<lambda>_ _. [''$FLUENCE_ENV_X_A'', ''$FLUENCE_ENV_X_AB'']),
        de_var := [''FLUENCE_ENV_X_A'' \<mapsto> ''1'', ''FLUENCE_ENV_X_AB'' \<mapsto> ''2'']\<rparr>)
     ''$FLUENCE_ENV_X_A $FLUENCE_ENV_X_AB'' ''X'' = Inr ''1 1B''"
  by (simp add: resolve_env_variables_def replace_all.simps)

end
