(* ===== verification/Math_Ops.thy ===== *)
theory Math_Ops
  imports Call_Args "HOL-Library.Signed_Division"
begin

section \<open>Built-in arithmetic, comparisons and sets\<close>

text \<open>
  \<^verbatim>\<open>particle-builtins/src/math.rs\<close>. An \<^verbatim>\<open>i64\<close> is an integer in its range, and the \<^verbatim>\<open>checked_\<close> methods of the
  standard library are written out with the overflow they report: \<^verbatim>\<open>checked_pow\<close> by repeated squaring and
  \<^verbatim>\<open>checked_ilog\<close> by repeated division, as the library computes them. An \<^verbatim>\<open>f64\<close> is decoded from its bit pattern, and
  a product is rounded to the nearest double with ties to even. A \<^verbatim>\<open>HashSet\<close> is the list of its elements in the order of
  its iteration, which is not specified: a parameter of the model.
\<close>

subsection \<open>Checked arithmetic\<close>

definition I64_MIN :: int where "I64_MIN = - 9223372036854775808"

definition I64_MAX :: int where "I64_MAX = 9223372036854775807"

definition i64_ok :: "int \<Rightarrow> bool" where
  "i64_ok n \<longleftrightarrow> I64_MIN \<le> n \<and> n \<le> I64_MAX"

definition i64_checked :: "int \<Rightarrow> int option" where
  "i64_checked n = (if i64_ok n then Some n else None)"

definition checked_div :: "int \<Rightarrow> int \<Rightarrow> int option" where
  "checked_div x y = (if y = 0 \<or> (x = I64_MIN \<and> y = - 1) then None else Some (x sdiv y))"

definition checked_rem :: "int \<Rightarrow> int \<Rightarrow> int option" where
  "checked_rem x y = (if y = 0 \<or> (x = I64_MIN \<and> y = - 1) then None else Some (x smod y))"

function pow_loop :: "int \<Rightarrow> int \<Rightarrow> nat \<Rightarrow> int option" where
  "pow_loop acc base e =
     (if e \<le> 1 then i64_checked (acc * base)
      else Option.bind (if odd e then i64_checked (acc * base) else Some acc)
        (\<lambda>acc'. Option.bind (i64_checked (base * base)) (\<lambda>base'. pow_loop acc' base' (e div 2))))"
  by pat_completeness auto
termination by (relation "measure (\<lambda>(acc, base, e). e)") auto

declare pow_loop.simps [simp del]

definition checked_pow :: "int \<Rightarrow> nat \<Rightarrow> int option" where
  "checked_pow x e = (if e = 0 then Some 1 else pow_loop 1 x e)"

function ilog_loop :: "int \<Rightarrow> int \<Rightarrow> nat \<Rightarrow> nat" where
  "ilog_loop base r n = (if 1 < base \<and> base \<le> r then ilog_loop base (r div base) (Suc n) else n)"
  by pat_completeness auto
termination
proof (relation "measure (\<lambda>(base, r, n). nat r)", goal_cases)
  case (2 base r n)
  then show ?case by (simp add: int_div_less_self)
qed auto

declare ilog_loop.simps [simp del]

definition checked_ilog :: "int \<Rightarrow> int \<Rightarrow> nat option" where
  "checked_ilog y base = (if y \<le> 0 \<or> base \<le> 1 then None else Some (ilog_loop base y 0))"

definition ok_or :: "string \<Rightarrow> 'a option \<Rightarrow> jerror + 'a" where
  "ok_or msg r = (case r of Some x \<Rightarrow> Inr x | None \<Rightarrow> Inl (JErrorText msg))"

lemma ok_or_simps [simp]: "ok_or msg (Some x) = Inr x" "ok_or msg None = Inl (JErrorText msg)"
  by (simp_all add: ok_or_def)

definition math_add :: "int \<Rightarrow> int \<Rightarrow> jerror + int" where
  "math_add x y = ok_or ''i64 add overflow'' (i64_checked (x + y))"

definition math_sub :: "int \<Rightarrow> int \<Rightarrow> jerror + int" where
  "math_sub x y =
     (case ok_or ''i64 neg overflow'' (i64_checked (- y)) of
        Inl e \<Rightarrow> Inl e
      | Inr y' \<Rightarrow> ok_or ''i64 add overflow'' (i64_checked (x + y')))"

definition math_mul :: "int \<Rightarrow> int \<Rightarrow> jerror + int" where
  "math_mul x y = ok_or ''i64 mul overflow'' (i64_checked (x * y))"

definition math_div :: "int \<Rightarrow> int \<Rightarrow> jerror + int" where
  "math_div x y = ok_or ''i64 div overflow'' (checked_div x y)"

definition math_rem :: "int \<Rightarrow> int \<Rightarrow> jerror + int" where
  "math_rem x y = ok_or ''i64 rem overflow'' (checked_rem x y)"

definition math_pow :: "int \<Rightarrow> nat \<Rightarrow> jerror + int" where
  "math_pow x y = ok_or ''i64 pow overflow'' (checked_pow x y)"

definition math_log :: "int \<Rightarrow> int \<Rightarrow> jerror + nat" where
  "math_log x y = ok_or ''i64 log overflow'' (checked_ilog y x)"

definition math_gt :: "int \<Rightarrow> int \<Rightarrow> jerror + bool" where "math_gt x y = Inr (x > y)"

definition math_gte :: "int \<Rightarrow> int \<Rightarrow> jerror + bool" where "math_gte x y = Inr (x \<ge> y)"

definition math_lt :: "int \<Rightarrow> int \<Rightarrow> jerror + bool" where "math_lt x y = Inr (x < y)"

definition math_lte :: "int \<Rightarrow> int \<Rightarrow> jerror + bool" where "math_lte x y = Inr (x \<le> y)"

definition math_cmp :: "int \<Rightarrow> int \<Rightarrow> jerror + int" where
  "math_cmp x y = Inr (if x < y then - 1 else if x = y then 0 else 1)"

fun sum_from :: "int \<Rightarrow> int list \<Rightarrow> int option" where
  "sum_from acc [] = Some acc"
| "sum_from acc (x # xs) = Option.bind (i64_checked (acc + x)) (\<lambda>s. sum_from s xs)"

definition array_sum :: "int list \<Rightarrow> jerror + int" where
  "array_sum xs = ok_or ''i64 add overflow'' (sum_from 0 xs)"

subsection \<open>Multiplication of floating-point numbers\<close>

text \<open>A finite number is a sign, a mantissa and a power of two.\<close>

datatype f64 = FNan | FInf bool | FFin bool nat int

definition f64_decode :: "u64 \<Rightarrow> f64" where
  "f64_decode w =
     (let b = unat w; s = (b div 2 ^ 63 = 1); e = b div 2 ^ 52 mod 2048; m = b mod 2 ^ 52 in
      if e = 2047 then (if m = 0 then FInf s else FNan)
      else if e = 0 then FFin s m (- 1074)
      else FFin s (2 ^ 52 + m) (int e - 1075))"

fun bit_length :: "nat \<Rightarrow> nat" where
  "bit_length n = (if n = 0 then 0 else Suc (bit_length (n div 2)))"

declare bit_length.simps [simp del]

definition round_half_even :: "nat \<Rightarrow> nat \<Rightarrow> nat" where
  "round_half_even m k =
     (let q = m div 2 ^ k; r = m mod 2 ^ k in
      if 2 * r > 2 ^ k \<or> (2 * r = 2 ^ k \<and> odd q) then Suc q else q)"

text \<open>The double nearest to \<open>m * 2 ^ e\<close>: at most 53 bits, no bit below \<open>2 ^ - 1074\<close>, infinite from \<open>2 ^ 1024\<close> on.\<close>

definition f64_round :: "bool \<Rightarrow> nat \<Rightarrow> int \<Rightarrow> f64" where
  "f64_round s m e =
     (let k = nat (max (int (bit_length m) - 53) (- 1074 - e)); m' = round_half_even m k in
      if m' \<noteq> 0 \<and> int (bit_length m') + e + int k > 1024 then FInf s else FFin s m' (e + int k))"

fun f64_mul :: "f64 \<Rightarrow> f64 \<Rightarrow> f64" where
  "f64_mul (FFin s m e) (FFin s' m' e') = f64_round (s \<noteq> s') (m * m') (e + e')"
| "f64_mul (FFin s m e) (FInf s') = (if m = 0 then FNan else FInf (s \<noteq> s'))"
| "f64_mul (FInf s) (FFin s' m e) = (if m = 0 then FNan else FInf (s \<noteq> s'))"
| "f64_mul (FInf s) (FInf s') = FInf (s \<noteq> s')"
| "f64_mul FNan _ = FNan"
| "f64_mul _ FNan = FNan"

text \<open>\<^verbatim>\<open>.floor() as i64\<close>: the cast saturates, and turns what is not a number into zero.\<close>

definition i64_saturate :: "int \<Rightarrow> int" where
  "i64_saturate n = max I64_MIN (min I64_MAX n)"

fun f64_floor_i64 :: "f64 \<Rightarrow> int" where
  "f64_floor_i64 FNan = 0"
| "f64_floor_i64 (FInf s) = (if s then I64_MIN else I64_MAX)"
| "f64_floor_i64 (FFin s m e) =
     (let n = (if s then - int m else int m) in
      i64_saturate (if 0 \<le> e then n * 2 ^ nat e else n div 2 ^ nat (- e)))"

definition fmul_floor :: "f64 \<Rightarrow> f64 \<Rightarrow> jerror + int" where
  "fmul_floor x y = Inr (f64_floor_i64 (f64_mul x y))"

text \<open>A JSON number read as \<^verbatim>\<open>f64\<close>: an integer is rounded.\<close>

fun de_f64 :: "jvalue \<Rightarrow> f64 option" where
  "de_f64 (JFloat w) = Some (f64_decode w)"
| "de_f64 (JInt n) = Some (f64_round (n < 0) (nat \<bar>n\<bar>) 0)"
| "de_f64 _ = None"

subsection \<open>Sets\<close>

fun unique_from :: "string list \<Rightarrow> string list \<Rightarrow> string list" where
  "unique_from seen [] = []"
| "unique_from seen (x # xs) = (if x \<in> set seen then unique_from seen xs else x # unique_from (x # seen) xs)"

definition math_dedup :: "string list \<Rightarrow> jerror + string list" where
  "math_dedup xs = Inr (unique_from [] xs)"

text \<open>\<^verbatim>\<open>intersection\<close> walks through the smaller set.\<close>

definition math_intersect :: "string list \<Rightarrow> string list \<Rightarrow> jerror + string list" where
  "math_intersect xs ys =
     Inr (if length xs \<le> length ys then filter (\<lambda>x. x \<in> set ys) xs else filter (\<lambda>y. y \<in> set xs) ys)"

definition math_diff :: "string list \<Rightarrow> string list \<Rightarrow> jerror + string list" where
  "math_diff xs ys = Inr (filter (\<lambda>x. x \<notin> set ys) xs)"

definition math_sdiff :: "string list \<Rightarrow> string list \<Rightarrow> jerror + string list" where
  "math_sdiff xs ys = Inr (filter (\<lambda>x. x \<notin> set ys) xs @ filter (\<lambda>y. y \<notin> set xs) ys)"

subsection \<open>Properties\<close>

lemmas i64_defs = i64_ok_def I64_MIN_def I64_MAX_def

lemma i64_checked_simps [simp]:
  "i64_ok n \<Longrightarrow> i64_checked n = Some n" "\<not> i64_ok n \<Longrightarrow> i64_checked n = None"
  by (simp_all add: i64_checked_def)

lemma i64_checked_SomeD: "i64_checked n = Some m \<Longrightarrow> m = n \<and> i64_ok n"
  by (simp add: i64_checked_def split: if_splits)

lemma i64_okI: "\<bar>n\<bar> \<le> I64_MAX \<Longrightarrow> i64_ok n"
  by (auto simp: i64_defs)

text \<open>A factor of a number in range whose cofactor is positive is in range, and so is every square that divides it.\<close>

lemma i64_ok_factor:
  assumes "i64_ok (a * k)" and "1 \<le> k"
  shows "i64_ok a"
proof (cases "0 \<le> a")
  case True
  then have "a \<le> a * k" using assms(2) by (simp add: mult_le_cancel_left1)
  then show ?thesis using True assms(1) unfolding i64_defs by linarith
next
  case False
  then have "a * k \<le> a" using assms(2) by (simp add: mult_le_cancel_left2)
  then show ?thesis using False assms(1) unfolding i64_defs by linarith
qed

lemma square_neq_2_63: "(b::int) * b \<noteq> 9223372036854775808"
proof
  assume sq: "b * b = 9223372036854775808"
  have "\<bar>b\<bar> * \<bar>b\<bar> = 9223372036854775808" using sq by (simp add: abs_mult [symmetric])
  moreover have "\<bar>b\<bar> * \<bar>b\<bar> \<le> 3037000499 * 3037000499" if "\<bar>b\<bar> \<le> 3037000499" using that by (intro mult_mono) auto
  moreover have "3037000500 * 3037000500 \<le> \<bar>b\<bar> * \<bar>b\<bar>" if "3037000500 \<le> \<bar>b\<bar>" using that by (intro mult_mono) auto
  ultimately show False by linarith
qed

lemma i64_ok_square:
  assumes "i64_ok (b * b * k)" and "k \<noteq> 0"
  shows "i64_ok (b * b)"
proof -
  have "1 \<le> \<bar>k\<bar>" using assms(2) by linarith
  then have "b * b \<le> \<bar>b * b * k\<bar>" by (simp add: abs_mult mult_le_cancel_left1)
  then have "b * b \<le> 9223372036854775808" using assms(1) unfolding i64_defs by linarith
  with square_neq_2_63 [of b] have "b * b \<le> I64_MAX" by (simp add: I64_MAX_def)
  then show ?thesis by (intro i64_okI) simp
qed

lemma power_double: "(b::int) ^ e = (if odd e then b else 1) * (b * b) ^ (e div 2)"
proof -
  have "b ^ e = b ^ (2 * (e div 2) + e mod 2)" by simp
  also have "\<dots> = (b * b) ^ (e div 2) * b ^ (e mod 2)" by (simp only: power_add power_mult power2_eq_square)
  finally show ?thesis by (simp add: odd_iff_mod_2_eq_one even_iff_mod_2_eq_zero)
qed

lemma pow_loop_exact:
  "1 \<le> e \<Longrightarrow> acc \<noteq> 0 \<Longrightarrow> base \<noteq> 0 \<Longrightarrow> pow_loop acc base e = i64_checked (acc * base ^ e)"
proof (induction acc base e rule: pow_loop.induct)
  case (1 acc base e)
  show ?case
  proof (cases "e \<le> 1")
    case True
    with 1 show ?thesis by (simp add: pow_loop.simps le_Suc_eq)
  next
    case False
    let ?acc = "if odd e then acc * base else acc"
    have total: "acc * base ^ e = ?acc * (base * base) ^ (e div 2)" using power_double [of base e] by simp
    have pos: "1 \<le> (base * base) ^ (e div 2)"
      using 1(4) by (intro one_le_power) (metis int_one_le_iff_zero_less not_square_less_zero linorder_neqE_linordered_idom mult_eq_0_iff)
    have split: "(base * base) ^ (e div 2) = base * base * (base * base) ^ (e div 2 - 1)"
      using False by (cases "e div 2") auto
    have loop: "pow_loop acc base e = Option.bind (if odd e then i64_checked (acc * base) else Some acc)
        (\<lambda>acc'. Option.bind (i64_checked (base * base)) (\<lambda>base'. pow_loop acc' base' (e div 2)))"
      using False by (subst pow_loop.simps) simp
    show ?thesis
    proof (cases "i64_ok (acc * base ^ e)")
      case True
      have "i64_ok ?acc" using i64_ok_factor [OF True [unfolded total] pos] .
      moreover have "i64_ok (base * base)"
        using True 1(3,4) unfolding total split
        by (intro i64_ok_square [where k = "?acc * (base * base) ^ (e div 2 - 1)"]) (auto simp: ac_simps)
      ultimately show ?thesis
        using 1(1)[of ?acc "base * base"] 1(3,4) False True total by (auto simp: loop)
    next
      case over: False
      show ?thesis
        using 1(1)[of ?acc "base * base"] 1(3,4) False over total
        by (cases "i64_ok (base * base)"; cases "i64_ok (acc * base)") (auto simp: loop bind_eq_None_conv dest!: i64_checked_SomeD)
    qed
  qed
qed

lemma pow_loop_zero: "1 \<le> e \<Longrightarrow> i64_ok acc \<Longrightarrow> pow_loop acc 0 e = Some 0"
proof (induction acc "0::int" e rule: pow_loop.induct)
  case (1 acc e)
  have z: "i64_ok 0" by (simp add: i64_defs)
  show ?case using 1 z by (subst pow_loop.simps) auto
qed

text \<open>C23 [pow_is_exact]: Raising an \<^verbatim>\<open>i64\<close> to a power by checked repeated squaring is exact: the result is the power
  whenever it fits into an \<^verbatim>\<open>i64\<close>, and an overflow is reported only when it does not.\<close>

theorem pow_is_exact:
  "math_pow x e = (if i64_ok (x ^ e) then Inr (x ^ e) else Inl (JErrorText ''i64 pow overflow''))"
proof -
  have ok: "i64_ok 0" "i64_ok 1" by (simp_all add: i64_defs)
  have "checked_pow x e = i64_checked (x ^ e)"
  proof (cases "e = 0")
    case True
    with ok show ?thesis by (simp add: checked_pow_def)
  next
    case False
    then show ?thesis using pow_loop_exact [of e 1 x] pow_loop_zero [of e 1] ok
      by (cases "x = 0") (simp_all add: checked_pow_def power_0_left)
  qed
  then show ?thesis by (simp add: math_pow_def)
qed

lemma smod_bounds:
  assumes "(y::int) \<noteq> 0"
  shows "\<bar>x smod y\<bar> < \<bar>y\<bar>" and "x smod y = 0 \<or> sgn (x smod y) = sgn x"
proof -
  note r = smod_int_alt_def [of x y]
  have m: "0 \<le> \<bar>x\<bar> mod \<bar>y\<bar>" "\<bar>x\<bar> mod \<bar>y\<bar> < \<bar>y\<bar>" using assms by simp_all
  show "\<bar>x smod y\<bar> < \<bar>y\<bar>" using m assms by (cases "x = 0") (simp_all add: r abs_mult)
  show "x smod y = 0 \<or> sgn (x smod y) = sgn x" using m by (auto simp: r sgn_mult)
qed

lemma sdiv_smod_ok:
  assumes "i64_ok x" and "i64_ok y" and "y \<noteq> 0" and "\<not> (x = I64_MIN \<and> y = - 1)"
  shows "i64_ok (x sdiv y)" and "i64_ok (x smod y)"
proof -
  have eq: "x = (x sdiv y) * y + x smod y" by (simp add: sdiv_mult_smod_eq)
  have le: "\<bar>x sdiv y\<bar> \<le> \<bar>x\<bar>" using sdiv_int_range [of x y] by auto
  have "x sdiv y \<noteq> 9223372036854775808"
  proof
    assume q: "x sdiv y = 9223372036854775808"
    then have "x = I64_MIN" using le assms(1) unfolding i64_defs by linarith
    moreover from this have "y \<le> - 2 \<or> 1 \<le> y" using assms(3,4) by auto
    ultimately show False using q eq smod_bounds(1) [of y x] assms(2,3) unfolding i64_defs by auto
  qed
  then show "i64_ok (x sdiv y)" using le assms(1) unfolding i64_defs by linarith
  show "i64_ok (x smod y)" using smod_bounds(1) [of y x] assms(2,3) unfolding i64_defs by linarith
qed

text \<open>[division_truncates]: Division and remainder fail exactly for a zero divisor and for the one quotient that does not
  fit; otherwise the quotient is an \<^verbatim>\<open>i64\<close>, dividend = quotient * divisor + remainder, and the remainder is smaller than
  the divisor and has the sign of the dividend.\<close>

theorem division_truncates:
  assumes "i64_ok x" and "i64_ok y"
  shows "if y = 0 \<or> (x = I64_MIN \<and> y = - 1)
         then math_div x y = Inl (JErrorText ''i64 div overflow'') \<and> math_rem x y = Inl (JErrorText ''i64 rem overflow'')
         else \<exists>q r. math_div x y = Inr q \<and> math_rem x y = Inr r \<and> i64_ok q \<and> i64_ok r \<and> x = q * y + r \<and>
           \<bar>r\<bar> < \<bar>y\<bar> \<and> (r = 0 \<or> sgn r = sgn x)"
proof (cases "y = 0 \<or> (x = I64_MIN \<and> y = - 1)")
  case True
  then show ?thesis by (simp add: math_div_def math_rem_def checked_div_def checked_rem_def)
next
  case False
  then show ?thesis
    using sdiv_smod_ok [OF assms] smod_bounds [of y x] sdiv_mult_smod_eq [of x y]
    by (auto simp: math_div_def math_rem_def checked_div_def checked_rem_def)
qed

theorem division_truncates_witness:
  "i64_ok (- 7) \<and> (\<exists>q r. math_div (- 7) 2 = Inr q \<and> math_rem (- 7) 2 = Inr r \<and> - 7 = q * 2 + r \<and> \<bar>r\<bar> < 2 \<and> r < 0)"
proof -
  have "i64_ok (- 7)" "i64_ok 2" by (simp_all add: i64_defs)
  note q = division_truncates [OF this]
  then obtain q r where "math_div (- 7) 2 = Inr q" "math_rem (- 7) 2 = Inr r" "- 7 = q * 2 + r" "\<bar>r\<bar> < 2" "r = 0 \<or> sgn r = - 1"
    by (auto simp: I64_MIN_def)
  moreover from this(3,5) have "r < 0" by (cases "r = 0") (presburger, simp add: sgn_1_neg)
  ultimately show ?thesis using \<open>i64_ok (- 7)\<close> by blast
qed

lemma ilog_loop_bounds:
  "1 < base \<Longrightarrow> 1 \<le> r \<Longrightarrow>
   n \<le> ilog_loop base r n \<and> base ^ (ilog_loop base r n - n) \<le> r \<and> r < base ^ Suc (ilog_loop base r n - n)"
proof (induction base r n rule: ilog_loop.induct)
  case (1 base r n)
  show ?case
  proof (cases "base \<le> r")
    case True
    let ?m = "ilog_loop base (r div base) (Suc n)"
    have "1 \<le> r div base" using True 1(2) by (simp add: pos_imp_zdiv_pos_iff int_one_le_iff_zero_less)
    then have ih: "Suc n \<le> ?m" "base ^ (?m - Suc n) \<le> r div base" "r div base < base ^ Suc (?m - Suc n)"
      using 1(1) True 1(2) by blast+
    have step: "?m - n = Suc (?m - Suc n)" using ih(1) by simp
    have "base * base ^ (?m - Suc n) \<le> base * (r div base)" using ih(2) 1(2) by (intro mult_left_mono) auto
    also have "\<dots> \<le> r" using 1(2) by (metis mult_div_mod_eq le_add_same_cancel1 pos_mod_sign less_trans zero_less_one)
    finally have low: "base ^ (?m - n) \<le> r" by (simp add: step)
    have "r < base ^ Suc (?m - Suc n) * base"
      using ih(3) 1(2) by (metis less_trans mult.commute zdiv_mono1 not_le nonzero_mult_div_cancel_right zero_less_one order_less_irrefl)
    then have "r < base ^ Suc (?m - n)" by (simp add: step mult_ac)
    with low ih(1) True 1(2) show ?thesis by (subst (1 2 3) ilog_loop.simps) simp
  next
    case False
    with 1(3) show ?thesis by (subst (1 2 3) ilog_loop.simps) simp
  qed
qed

text \<open>[log_is_floor]: The logarithm of a positive number to a base above one is the largest exponent whose power does not
  exceed the number, below 63; every other logarithm is reported as an overflow.\<close>

theorem log_is_floor:
  assumes "i64_ok y"
  shows "if 0 < y \<and> 1 < x then \<exists>n<63. math_log x y = Inr n \<and> x ^ n \<le> y \<and> y < x ^ Suc n
         else math_log x y = Inl (JErrorText ''i64 log overflow'')"
proof (cases "0 < y \<and> 1 < x")
  case True
  let ?n = "ilog_loop x y 0"
  from True have n: "x ^ ?n \<le> y" "y < x ^ Suc ?n" using ilog_loop_bounds [of x y 0] by auto
  have "(2::int) ^ ?n \<le> x ^ ?n" using True by (intro power_mono) auto
  then have "(2::int) ^ ?n < 2 ^ 63" using n(1) assms unfolding i64_defs by simp
  then have "?n < 63" by (rule power_less_imp_less_exp [rotated]) simp
  with n True show ?thesis by (auto simp: math_log_def checked_ilog_def)
next
  case False
  then show ?thesis by (auto simp: math_log_def checked_ilog_def)
qed

theorem log_is_floor_witness: "\<exists>n<63. math_log 10 12345 = Inr n \<and> (10::int) ^ n \<le> 12345 \<and> (12345::int) < 10 ^ Suc n"
  using log_is_floor [of 12345 10] by (simp add: i64_defs)

text \<open>[sub_refuses_minimum]: Subtraction is exact and reports exactly the overflows, unless the subtrahend is the least
  \<^verbatim>\<open>i64\<close>: then it reports an overflow whatever the minuend is, also for all negative minuends, where the difference
  fits.\<close>

theorem sub_refuses_minimum:
  assumes "i64_ok x" and "i64_ok y"
  shows "if y = I64_MIN
         then math_sub x y = Inl (JErrorText ''i64 neg overflow'') \<and> (i64_ok (x - y) \<longleftrightarrow> x < 0)
         else math_sub x y = (if i64_ok (x - y) then Inr (x - y) else Inl (JErrorText ''i64 add overflow''))"
proof (cases "y = I64_MIN")
  case True
  have "\<not> i64_ok (- I64_MIN)" by (simp add: i64_defs)
  moreover have "i64_ok (x - I64_MIN) \<longleftrightarrow> x < 0" using assms(1) unfolding i64_defs by linarith
  ultimately show ?thesis by (simp add: True math_sub_def)
next
  case False
  then have "i64_ok (- y)" using assms(2) unfolding i64_defs by linarith
  with False show ?thesis by (simp add: math_sub_def)
qed

theorem sub_refuses_minimum_witness:
  "math_sub 5 8 = Inr (- 3) \<and> i64_ok (- 1 - I64_MIN) \<and> math_sub (- 1) I64_MIN = Inl (JErrorText ''i64 neg overflow'')"
proof -
  have "i64_ok 5" "i64_ok 8" "i64_ok (- 3)" "8 \<noteq> I64_MIN" "i64_ok (- 1)" "i64_ok I64_MIN" by (simp_all add: i64_defs)
  with sub_refuses_minimum [of 5 8] sub_refuses_minimum [of "- 1" I64_MIN] show ?thesis by simp
qed

text \<open>The sum of an array is taken from the left: it fails as soon as a partial sum leaves the range.\<close>

lemma sum_from_Some_iff:
  "sum_from acc xs = Some s \<longleftrightarrow> s = acc + sum_list xs \<and> (\<forall>k<length xs. i64_ok (acc + sum_list (take (Suc k) xs)))"
proof (induction xs arbitrary: acc)
  case (Cons x xs)
  have "(\<forall>k<length (x # xs). P k) \<longleftrightarrow> P 0 \<and> (\<forall>k<length xs. P (Suc k))" for P by (auto simp: less_Suc_eq_0_disj)
  then show ?case
    by (cases "i64_ok (acc + x)") (simp_all add: Cons.IH add.assoc)
qed auto

lemma bit_length_le: "n < 2 ^ k \<Longrightarrow> bit_length n \<le> k"
proof (induction n arbitrary: k rule: bit_length.induct)
  case (1 n)
  show ?case
  proof (cases "n = 0")
    case False
    with 1(2) obtain k' where k: "k = Suc k'" by (cases k) auto
    with 1(2) have "n div 2 < 2 ^ k'" by simp
    with 1(1) False k show ?thesis by (subst bit_length.simps) simp
  qed (simp add: bit_length.simps)
qed

lemma f64_round_exact: "m < 2 ^ 53 \<Longrightarrow> f64_round s m 0 = FFin s m 0"
  using bit_length_le [of m 53] by (simp add: f64_round_def round_half_even_def)

lemma f64_floor_i64_ok: "i64_ok (f64_floor_i64 x)"
  by (cases x) (auto simp: i64_defs i64_saturate_def Let_def)

text \<open>[fmul_floor_exact]: The floor of a product of floating-point numbers is always an \<^verbatim>\<open>i64\<close>; for integers whose
  product has at most 53 bits it is the product.\<close>

theorem fmul_floor_exact:
  assumes "\<bar>n\<bar> < 2 ^ 53" and "\<bar>m\<bar> < 2 ^ 53" and "\<bar>n * m\<bar> < 2 ^ 53"
    and "de_f64 (JInt n) = Some x" and "de_f64 (JInt m) = Some y"
  shows "fmul_floor x y = Inr (n * m) \<and> (\<forall>v w. \<exists>i. fmul_floor v w = Inr i \<and> i64_ok i)"
proof -
  have x: "x = FFin (n < 0) (nat \<bar>n\<bar>) 0" "y = FFin (m < 0) (nat \<bar>m\<bar>) 0"
    using assms f64_round_exact [of "nat \<bar>n\<bar>"] f64_round_exact [of "nat \<bar>m\<bar>"] by auto
  have "nat \<bar>n\<bar> * nat \<bar>m\<bar> = nat \<bar>n * m\<bar>" by (simp add: nat_mult_distrib abs_mult)
  moreover have "nat \<bar>n * m\<bar> < 2 ^ 53" using assms(3) by auto
  ultimately have mul: "f64_mul x y = FFin ((n < 0) \<noteq> (m < 0)) (nat \<bar>n * m\<bar>) 0"
    using f64_round_exact by (simp add: x)
  have "(if (n < 0) \<noteq> (m < 0) then - int (nat \<bar>n * m\<bar>) else int (nat \<bar>n * m\<bar>)) = n * m"
    by (cases "n < 0"; cases "m < 0") (auto simp: mult_nonneg_nonneg mult_nonpos_nonpos mult_nonpos_nonneg mult_nonneg_nonpos)
  then have "f64_floor_i64 (f64_mul x y) = i64_saturate (n * m)"
    by (simp only: mul f64_floor_i64.simps Let_def) simp
  moreover have "i64_saturate (n * m) = n * m" using assms(3) by (auto simp: i64_saturate_def i64_defs)
  ultimately show ?thesis using f64_floor_i64_ok by (simp add: fmul_floor_def)
qed

theorem fmul_floor_exact_witness:
  "\<exists>x y. de_f64 (JInt (- 3)) = Some x \<and> de_f64 (JInt 1000) = Some y \<and> fmul_floor x y = Inr (- 3000)"
  using fmul_floor_exact [of "- 3" 1000] by simp

lemma unique_from_spec:
  "distinct (unique_from seen xs) \<and> set (unique_from seen xs) = set xs - set seen"
  by (induction seen xs rule: unique_from.induct) auto

text \<open>[set_operations]: On the elements of two hash sets, in any order of iteration, the array functions return without
  duplicates exactly the intersection, the difference and the symmetric difference, and deduplication returns the
  elements of the array once each.\<close>

theorem set_operations:
  assumes "distinct xs" and "distinct ys"
  shows "\<exists>is ds ss us. math_intersect xs ys = Inr is \<and> distinct is \<and> set is = set xs \<inter> set ys \<and>
     math_diff xs ys = Inr ds \<and> distinct ds \<and> set ds = set xs - set ys \<and>
     math_sdiff xs ys = Inr ss \<and> distinct ss \<and> set ss = (set xs - set ys) \<union> (set ys - set xs) \<and>
     math_dedup zs = Inr us \<and> distinct us \<and> set us = set zs"
  using assms unique_from_spec [of "[]" zs]
  by (auto simp: math_intersect_def math_diff_def math_sdiff_def math_dedup_def)

theorem set_operations_witness:
  "\<exists>ds. math_diff [''a'', ''b''] [''b''] = Inr ds \<and> distinct ds \<and> set ds = {''a''}"
  using set_operations [of "[''a'', ''b'']" "[''b'']" "[]"] by auto

end
