(* ===== verification/Builtin_Ops.thy ===== *)
theory Builtin_Ops
  imports Math_Ops Data_Store Functions
begin

section \<open>Built-in functions without state\<close>

text \<open>
  \<^verbatim>\<open>particle-builtins/src/json.rs\<close> and the functions of \<^verbatim>\<open>particle-builtins/src/builtins.rs\<close> that only compute: arrays,
  strings, base58, hashes, merging of Kademlia neighborhoods, signatures, and paths in the vault of a particle.

  \<^item> Base58, SHA-256, multihashes, Kademlia keys and their distance, serde's texts and the parsing of JSON come from
    third-party crates: fields of the record \<open>codec\<close>. Strings are the bytes of their UTF-8 form, whose validity is
    written out.
  \<^item> JSON objects are association lists; inserting a key replaces its value.
\<close>

record codec =
  cd_show_json :: "jvalue \<Rightarrow> string"
  cd_parse_json :: "string \<Rightarrow> jvalue option"
  cd_b58_encode :: "bytes \<Rightarrow> string"
  cd_b58_decode :: "string \<Rightarrow> bytes option"
  cd_sha256 :: "bytes \<Rightarrow> bytes" \<comment> \<open>the digest\<close>
  cd_multihash :: "bytes \<Rightarrow> bytes" \<comment> \<open>a digest with its code and length\<close>
  cd_multihash_ok :: "bytes \<Rightarrow> bool"
  cd_key :: "bytes \<Rightarrow> bytes" \<comment> \<open>the Kademlia key of some bytes\<close>
  cd_distance :: "bytes \<Rightarrow> bytes \<Rightarrow> nat" \<comment> \<open>of two Kademlia keys\<close>
  cd_k_value :: nat \<comment> \<open>the constant of the Kademlia protocol\<close>
  cd_hash_order :: "string list \<Rightarrow> string list" \<comment> \<open>the order of iteration of a hash set\<close>
  cd_render :: render
  cd_debug_tetraplet :: "security_tetraplet list option \<Rightarrow> string"

subsection \<open>JSON objects\<close>

fun insert_pairs ::
    "codec \<Rightarrow> (string \<times> jvalue) list \<Rightarrow> jvalue list \<Rightarrow> jerror + (string \<times> jvalue) list" where
  "insert_pairs D obj [] = Inr obj"
| "insert_pairs D obj [k] =
     Inl (JErrorText (''Expected odd number of arguments, got even. No value for key '' @ [CHR 0x27] @ cd_show_json D k @ [CHR 0x27]))"
| "insert_pairs D obj (k # v # rest) =
     (case k of
        JString name \<Rightarrow> insert_pairs D (AList.update name v obj) rest
      | _ \<Rightarrow> Inl (JErrorText (''All keys must be of type string. Key of the following pair is of invalid type: ('' @
               cd_show_json D k @ '', '' @ cd_show_json D v @ '')'')))"

definition json_obj :: "codec \<Rightarrow> args \<Rightarrow> jerror + jvalue" where
  "json_obj D a = map_sum id JObject (insert_pairs D [] (function_args a))"

definition json_put :: "args \<Rightarrow> jerror + jvalue" where
  "json_put a =
     arg_then (args_next de_map ''object'' (function_args a)) (\<lambda>obj it.
     arg_then (args_next de_string ''key'' it) (\<lambda>key it.
     arg_then (args_next de_value ''value'' it) (\<lambda>v _. Inr (JObject (AList.update key v obj)))))"

definition json_puts :: "codec \<Rightarrow> args \<Rightarrow> jerror + jvalue" where
  "json_puts D a =
     arg_then (args_next de_map ''object'' (function_args a)) (\<lambda>obj it.
     map_sum id JObject (insert_pairs D obj it))"

definition json_parse :: "codec \<Rightarrow> string \<Rightarrow> jerror + jvalue" where
  "json_parse D s = (case cd_parse_json D s of Some v \<Rightarrow> Inr v | None \<Rightarrow> Inl (JErrorFrom ''serde_json::Error'' [s]))"

definition json_stringify :: "codec \<Rightarrow> jvalue \<Rightarrow> string" where
  "json_stringify D v = cd_show_json D v"

subsection \<open>Arrays and strings\<close>

fun concat_from :: "nat \<Rightarrow> jvalue list \<Rightarrow> jvalue list \<Rightarrow> jerror + jvalue list" where
  "concat_from i acc [] = Inr acc"
| "concat_from i acc (v # vs) =
     (case v of
        JArray xs \<Rightarrow> concat_from (Suc i) (acc @ xs) vs
      | _ \<Rightarrow> Inl (JErrorText (''all arguments of 'concat' must be arrays: argument #'' @ show_nat i @ '' is not'')))"

definition op_concat :: "jvalue list \<Rightarrow> jerror + jvalue" where
  "op_concat vs = map_sum id JArray (concat_from 0 [] vs)"

fun concat_strings_from :: "nat \<Rightarrow> string \<Rightarrow> jvalue list \<Rightarrow> jerror + string" where
  "concat_strings_from i acc [] = Inr acc"
| "concat_strings_from i acc (v # vs) =
     (case v of
        JString s \<Rightarrow> concat_strings_from (Suc i) (acc @ s) vs
      | _ \<Rightarrow> Inl (JErrorText (''all arguments of 'concat_strings' must be strings: argument #'' @ show_nat i @ '' is not'')))"

definition concat_strings :: "jvalue list \<Rightarrow> jerror + jvalue" where
  "concat_strings vs = map_sum id JString (concat_strings_from 0 [] vs)"

definition array_length :: "jvalue list \<Rightarrow> jerror + jvalue" where
  "array_length vs =
     (case vs of
        [v] \<Rightarrow> (case v of JArray xs \<Rightarrow> Inr (JInt (int (length xs)))
                        | _ \<Rightarrow> Inl (JErrorText ''op array_length's argument must be an array''))
      | _ \<Rightarrow> Inl (JErrorText (''op array_length accepts exactly 1 argument: '' @ show_nat (length vs) @ '' found'')))"

text \<open>The last step indexes the array; out of bounds it would panic, which is \<open>None\<close>.\<close>

definition slice_index :: "'a list \<Rightarrow> nat \<Rightarrow> nat \<Rightarrow> 'a list option" where
  "slice_index xs start stop = (if start \<le> stop \<and> stop \<le> length xs then Some (take (stop - start) (drop start xs)) else None)"

definition array_slice :: "codec \<Rightarrow> jvalue list \<Rightarrow> (jerror + jvalue) option" where
  "array_slice D vs =
     (case vs of
        [array, start, stop] \<Rightarrow>
          (case array of
             JArray [] \<Rightarrow> Some (Inr (JArray []))
           | JArray xs \<Rightarrow>
               (case de_u64 start of
                  None \<Rightarrow> Some (Inl (JErrorText (''second argument (start index) must be an unsigned integer, was '' @ cd_show_json D start)))
                | Some i \<Rightarrow>
                    (case de_u64 stop of
                       None \<Rightarrow> Some (Inl (JErrorText (''third argument (end index) must be an unsigned integer, was '' @ cd_show_json D stop)))
                     | Some j \<Rightarrow>
                         if i > j \<or> j > length xs
                         then Some (Inl (JErrorText (''slice indexes out of bounds. start index: '' @ show_nat i @ '', end index: '' @
                                show_nat j @ '', array length: '' @ show_nat (length xs))))
                         else map_option (\<lambda>ys. Inr (JArray ys)) (slice_index xs i j)))
           | e \<Rightarrow> Some (Inl (JErrorText (''first argument must be an array, was '' @ cd_show_json D e))))
      | _ \<Rightarrow> Some (Inl (JErrorText ''invalid number of parameters. need array, start index and end index'')))"

definition op_identity :: "jvalue list \<Rightarrow> function_outcome" where
  "op_identity vs =
     (if length vs > 1
      then OutcomeErr (JErrorText (''identity accepts up to 1 arguments, received '' @ show_nat (length vs) @ '' arguments''))
      else outcome_from_output (case vs of [] \<Rightarrow> None | v # _ \<Rightarrow> Some v))"

definition debug_stringify :: "codec \<Rightarrow> jvalue list \<Rightarrow> function_outcome" where
  "debug_stringify D vs =
     OutcomeOk (JString
       (case vs of
          [] \<Rightarrow> ''\"<empty argument list>\"''
        | [v] \<Rightarrow> cd_show_json D v
        | _ \<Rightarrow> cd_show_json D (JArray vs)))"

subsection \<open>Bytes, base58 and hashes\<close>

fun de_bytes :: "jvalue \<Rightarrow> bytes option" where
  "de_bytes (JArray vs) =
     those (map (\<lambda>v. case v of JInt n \<Rightarrow> if 0 \<le> n \<and> n < 256 then Some (word_of_int n) else None | _ \<Rightarrow> None) vs)"
| "de_bytes _ = None"

definition json_bytes :: "bytes \<Rightarrow> jvalue" where
  "json_bytes b = JArray (map (\<lambda>x. JInt (uint x)) b)"

definition bytes_string :: "bytes \<Rightarrow> string" where
  "bytes_string b = map (\<lambda>x. char_of (unat x)) b"

definition utf8_tail :: "nat \<Rightarrow> bool" where
  "utf8_tail b \<longleftrightarrow> 0x80 \<le> b \<and> b \<le> 0xBF"

text \<open>The byte sequences that are UTF-8: no overlong forms, no surrogates, nothing above the last code point.\<close>

fun utf8_valid :: "nat list \<Rightarrow> bool" where
  "utf8_valid [] = True"
| "utf8_valid (a # bs) =
     (if a < 0x80 then utf8_valid bs
      else case bs of
        [] \<Rightarrow> False
      | b # cs \<Rightarrow>
          if 0xC2 \<le> a \<and> a \<le> 0xDF then utf8_tail b \<and> utf8_valid cs
          else (case cs of
             [] \<Rightarrow> False
           | c # ds \<Rightarrow>
               if a = 0xE0 then 0xA0 \<le> b \<and> b \<le> 0xBF \<and> utf8_tail c \<and> utf8_valid ds
               else if a = 0xED then 0x80 \<le> b \<and> b \<le> 0x9F \<and> utf8_tail c \<and> utf8_valid ds
               else if 0xE1 \<le> a \<and> a \<le> 0xEF then utf8_tail b \<and> utf8_tail c \<and> utf8_valid ds
               else (case ds of
                  [] \<Rightarrow> False
                | d # es \<Rightarrow>
                    utf8_tail c \<and> utf8_tail d \<and> utf8_valid es \<and>
                    (if a = 0xF0 then 0x90 \<le> b \<and> b \<le> 0xBF
                     else if a = 0xF4 then 0x80 \<le> b \<and> b \<le> 0x8F
                     else 0xF1 \<le> a \<and> a \<le> 0xF3 \<and> utf8_tail b))))"

definition string_from_utf8 :: "bytes \<Rightarrow> string option" where
  "string_from_utf8 b = (if utf8_valid (map unat b) then Some (bytes_string b) else None)"

definition decode_b58 :: "codec \<Rightarrow> string \<Rightarrow> jerror + bytes" where
  "decode_b58 D s = (case cd_b58_decode D s of Some b \<Rightarrow> Inr b | None \<Rightarrow> Inl (JErrorFrom ''DecodeBase58'' []))"

definition and_then :: "'e + 'a \<Rightarrow> ('a \<Rightarrow> 'e + 'b) \<Rightarrow> 'e + 'b" where
  "and_then r f = (case r of Inl e \<Rightarrow> Inl e | Inr x \<Rightarrow> f x)"

lemma and_then_simps [simp]: "and_then (Inl e) f = Inl e" "and_then (Inr x) f = f x"
  by (simp_all add: and_then_def)

definition string_to_b58 :: "codec \<Rightarrow> jvalue list \<Rightarrow> jerror + jvalue" where
  "string_to_b58 D vs =
     arg_then (args_next de_string ''string'' vs) (\<lambda>s _. Inr (JString (cd_b58_encode D (string_bytes s))))"

definition string_from_b58 :: "codec \<Rightarrow> jvalue list \<Rightarrow> jerror + jvalue" where
  "string_from_b58 D vs =
     arg_then (args_next de_string ''b58_string'' vs) (\<lambda>s _.
     and_then (decode_b58 D s) (\<lambda>b.
     case string_from_utf8 b of Some t \<Rightarrow> Inr (JString t) | None \<Rightarrow> Inl (JErrorFrom ''DecodeUTF8'' [])))"

definition bytes_from_b58 :: "codec \<Rightarrow> jvalue list \<Rightarrow> jerror + jvalue" where
  "bytes_from_b58 D vs =
     arg_then (args_next de_string ''b58_string'' vs) (\<lambda>s _. map_sum id json_bytes (decode_b58 D s))"

definition bytes_to_b58 :: "codec \<Rightarrow> jvalue list \<Rightarrow> jerror + jvalue" where
  "bytes_to_b58 D vs = arg_then (args_next de_bytes ''bytes'' vs) (\<lambda>b _. Inr (JString (cd_b58_encode D b)))"

definition sha256_string :: "codec \<Rightarrow> jvalue list \<Rightarrow> jerror + jvalue" where
  "sha256_string D vs =
     arg_then (args_next de_string ''string'' vs) (\<lambda>s it.
     arg_then (args_next_opt de_bool ''digest_only'' it) (\<lambda>digest_only it.
     arg_then (args_next_opt de_bool ''as_bytes'' it) (\<lambda>as_bytes _.
       let digest = cd_sha256 D (string_bytes s);
           result = (if digest_only = Some True then digest else cd_multihash D digest)
       in if as_bytes = Some True then Inr (json_bytes result) else Inr (JString (cd_b58_encode D result)))))"

subsection \<open>Merging neighborhoods\<close>

text \<open>\<^verbatim>\<open>Vec::dedup\<close> drops an element equal to the one kept before it; keys are equal if their hashes are.\<close>

fun dedup_keys :: "(bytes \<Rightarrow> bytes) \<Rightarrow> bytes list \<Rightarrow> bytes list" where
  "dedup_keys key (x # y # xs) =
     (if key x = key y then dedup_keys key (x # xs) else x # dedup_keys key (y # xs))"
| "dedup_keys key xs = xs"

definition merge_keys :: "codec \<Rightarrow> bytes \<Rightarrow> bytes list \<Rightarrow> bytes list" where
  "merge_keys D target keys = dedup_keys (cd_key D) (sort_key (\<lambda>k. cd_distance D (cd_key D target) (cd_key D k)) keys)"

definition kad_merge :: "codec \<Rightarrow> jvalue list \<Rightarrow> jerror + jvalue" where
  "kad_merge D vs =
     arg_then (args_next de_string ''target'' vs) (\<lambda>target it.
     arg_then (args_next (de_vec de_string) ''left'' it) (\<lambda>left it.
     arg_then (args_next (de_vec de_string) ''right'' it) (\<lambda>right it.
     arg_then (args_next_opt de_u64 ''count'' it) (\<lambda>count _.
       let n = (case count of Some c \<Rightarrow> c | None \<Rightarrow> cd_k_value D) in
       and_then (decode_b58 D target) (\<lambda>target.
       and_then (collect_results (map (decode_b58 D) (left @ right))) (\<lambda>keys.
       Inr (JArray (take n (map (\<lambda>k. JString (cd_b58_encode D k)) (merge_keys D target keys))))))))))"

subsection \<open>Signatures\<close>

text \<open>The caller may sign only what the registry service of this peer produced: the tetraplet of the data says where
  it comes from. A refusal by tetraplet returns from the function; a failure to read or to sign is part of the answer.\<close>

definition sign_allowed :: "codec \<Rightarrow> string \<Rightarrow> security_tetraplet list list \<Rightarrow> jerror option" where
  "sign_allowed D local tss =
     (case tss of
        [t] # _ \<Rightarrow>
          if st_peer_pk t \<noteq> local
          then Some (JErrorText (''data is expected to be produced by service 'registry' on peer '' @ [CHR 0x27] @ local @ [CHR 0x27] @
                 '', was from peer '' @ [CHR 0x27] @ st_peer_pk t @ [CHR 0x27]))
          else if (st_service_id t, st_function_name t) \<noteq> (''registry'', ''get_record_bytes'')
          then Some (JErrorText (''data is expected to result from a call to 'registry.get_record_bytes', was from '' @ [CHR 0x27] @
                 st_service_id t @ ''.'' @ st_function_name t @ [CHR 0x27]))
          else if st_json_path t \<noteq> [] then Some (JErrorText ''json_path for data tetraplet is expected to be empty'')
          else None
      | _ \<Rightarrow> Some (JErrorText (''expected tetraplet for a scalar argument, got tetraplet for an array: '' @
               cd_debug_tetraplet D (case tss of [] \<Rightarrow> None | ts # _ \<Rightarrow> Some ts) @ '', tetraplets'')))"

definition sig_answer :: "bool \<Rightarrow> jvalue list \<Rightarrow> jvalue list \<Rightarrow> jvalue" where
  "sig_answer ok err sig =
     JObject [(''success'', JBool ok), (''error'', JArray err), (''signature'', JArray sig)]"

definition sig_sign ::
    "codec \<Rightarrow> ('kp, 'pk, 'err) crypto \<Rightarrow> ('err \<Rightarrow> jerror) \<Rightarrow> peer_id \<Rightarrow> 'kp \<Rightarrow> args \<Rightarrow> jerror + jvalue" where
  "sig_sign D C sign_error local kp a =
     (case fst (args_next de_bytes ''data'' (function_args a)) of
        Inl e \<Rightarrow> Inr (sig_answer False [jerror_value (cd_render D) (args_jerror e)] [])
      | Inr content \<Rightarrow>
          (case sign_allowed D (to_base58 C local) (tetraplets a) of
             Some e \<Rightarrow> Inl e
           | None \<Rightarrow>
               (case kp_sign C kp content of
                  Inl e \<Rightarrow> Inr (sig_answer False [jerror_value (cd_render D) (sign_error e)] [])
                | Inr sig \<Rightarrow> Inr (sig_answer True [] [json_bytes sig]))))"

definition sig_verify ::
    "('kp, 'pk, 'err) crypto \<Rightarrow> ('kp \<Rightarrow> 'pk) \<Rightarrow> 'kp \<Rightarrow> args \<Rightarrow> jerror + jvalue" where
  "sig_verify C public kp a =
     arg_then (args_next de_bytes ''signature'' (function_args a)) (\<lambda>sig it.
     arg_then (args_next de_bytes ''data'' it) (\<lambda>content _.
     Inr (JBool (case pk_verify C (public kp) content sig of Inr _ \<Rightarrow> True | Inl _ \<Rightarrow> False))))"

definition sig_get_peer_id :: "('kp, 'pk, 'err) crypto \<Rightarrow> 'kp \<Rightarrow> jerror + jvalue" where
  "sig_get_peer_id C kp = Inr (JString (to_base58 C (kp_peer_id C kp)))"

subsection \<open>Optional numbers, delays and vault paths\<close>

text \<open>\<^verbatim>\<open>u64::from_str\<close>: decimal digits, after an optional plus sign.\<close>

definition parse_u64 :: "string \<Rightarrow> nat option" where
  "parse_u64 s =
     (let digits = (case s of c # cs \<Rightarrow> if c = CHR ''+'' then cs else s | [] \<Rightarrow> s) in
      if digits \<noteq> [] \<and> list_all (\<lambda>c. 48 \<le> (of_char c :: nat) \<and> of_char c \<le> (57 :: nat)) digits \<and> read_nat digits < 2 ^ 64
      then Some (read_nat digits) else None)"

datatype either_number = EitherString string | EitherTarget nat

definition de_either :: "jvalue \<Rightarrow> either_number option" where
  "de_either v =
     (case de_string v of Some s \<Rightarrow> Some (EitherString s) | None \<Rightarrow> map_option EitherTarget (de_u64 v))"

definition parse_from_str :: "string \<Rightarrow> jvalue list \<Rightarrow> (jerror + nat option) \<times> jvalue list" where
  "parse_from_str field it =
     (case args_next_opt de_either field it of
        (Inl e, it1) \<Rightarrow> (Inl (args_jerror e), it1)
      | (Inr None, it1) \<Rightarrow> (Inr None, it1)
      | (Inr (Some (EitherTarget n)), it1) \<Rightarrow> (Inr (Some n), it1)
      | (Inr (Some (EitherString s)), it1) \<Rightarrow>
          (case parse_u64 s of
             Some n \<Rightarrow> (Inr (Some n), it1)
           | None \<Rightarrow> (Inl (JErrorFrom ''Error'' [field]), it1)))"

text \<open>The random delay is drawn from the seconds of the interval.\<close>

definition get_delay :: "(nat \<Rightarrow> nat) \<Rightarrow> duration option \<Rightarrow> duration option \<Rightarrow> duration" where
  "get_delay random delay interval =
     (case (delay, interval) of
        (Some d, _) \<Rightarrow> d
      | (None, Some i) \<Rightarrow> random (i div 10 ^ 9) * 10 ^ 9
      | (None, None) \<Rightarrow> 0)"

datatype resolve_vault_error = WrongVault path path | VaultPathNotFound path

definition resolve_vault_path ::
    "os \<Rightarrow> file_system \<Rightarrow> string \<Rightarrow> path \<Rightarrow> path \<Rightarrow> string \<Rightarrow> resolve_vault_error + path" where
  "resolve_vault_path S fs virtual vaults p particle_id =
     (let virtual_prefix = path_join (path_of virtual) (path_of particle_id);
          real_prefix = path_join vaults (path_of particle_id) in
      case strip_prefix virtual_prefix p of
        None \<Rightarrow> Inl (WrongVault p virtual_prefix)
      | Some rest \<Rightarrow>
          (case canonicalize S (path_join real_prefix rest) fs of
             Inl _ \<Rightarrow> Inl (VaultPathNotFound p)
           | Inr resolved \<Rightarrow>
               if path_starts_with real_prefix resolved then Inr resolved
               else Inl (WrongVault resolved real_prefix)))"

subsection \<open>Properties\<close>

lemma dedup_keys_spec:
  fixes dist :: "bytes \<Rightarrow> nat"
  shows "(\<forall>a b. dist a = dist b \<longleftrightarrow> key a = key b) \<Longrightarrow> sorted (map dist xs) \<Longrightarrow>
    set (dedup_keys key xs) \<subseteq> set xs \<and> key ` set (dedup_keys key xs) = key ` set xs \<and> sorted (map dist (dedup_keys key xs)) \<and>
    distinct (map key (dedup_keys key xs))"
proof (induction key xs rule: dedup_keys.induct)
  case (1 key x y xs)
  show ?case
  proof (cases "key x = key y")
    case True
    moreover have "sorted (map dist (x # xs))" using 1(4) by simp
    ultimately show ?thesis using 1(1,3) by auto
  next
    case False
    then have lt: "dist x < dist y" using 1(3,4) by (simp add: order.strict_iff_order)
    have ih: "set (dedup_keys key (y # xs)) \<subseteq> set (y # xs)" "key ` set (dedup_keys key (y # xs)) = key ` set (y # xs)"
      "sorted (map dist (dedup_keys key (y # xs)))" "distinct (map key (dedup_keys key (y # xs)))"
      using 1(2) [OF False 1(3)] 1(4) by auto
    have above: "dist x < dist z" if "z \<in> set (y # xs)" for z using that lt 1(4) by auto
    then have "key x \<notin> key ` set (y # xs)" using 1(3) by force
    with ih False above show ?thesis by (auto simp: less_imp_le subset_iff)
  qed
qed auto

lemma args_next_Cons [simp]: "args_next de f (v # it) = ((case de v of Some x \<Rightarrow> Inr x | None \<Rightarrow> Inl (DeserializeError f v)), it)"
  by (simp add: args_next_def args_deserialize_def split: option.splits)

lemma de_vec_strings [simp]: "de_vec de_string (JArray (map JString xs)) = Some xs"
  by (simp add: those_Some_iff comp_def)

lemma args_next_opt_Nil [simp]: "args_next_opt de f [] = (Inr None, [])"
  by (simp add: args_next_opt_def)

lemma map_decode_b58: "map (cd_b58_decode D) ss = map Some bs \<Longrightarrow> map (decode_b58 D) ss = map Inr bs"
  by (induction ss arbitrary: bs) (auto simp: decode_b58_def)

lemma sorted_prefix_closest:
  assumes "sorted (map dist ms)" and "x \<in> set (take n ms)" and "y \<in> set (drop n ms)"
  shows "dist x \<le> dist y"
proof -
  have "sorted (map dist (take n ms) @ map dist (drop n ms))" using assms(1) by (metis append_take_drop_id map_append)
  with assms(2,3) show ?thesis by (auto simp: sorted_append)
qed


definition sample_codec :: codec where
  "sample_codec = \<lparr>cd_show_json = (\<lambda>_. ''?''), cd_parse_json = (\<lambda>_. None), cd_b58_encode = bytes_string,
     cd_b58_decode = (\<lambda>s. Some (string_bytes s)), cd_sha256 = (\<lambda>b. b), cd_multihash = (\<lambda>b. 18 # b), cd_multihash_ok = (\<lambda>_. True),
     cd_key = (\<lambda>b. [sum_list b]), cd_distance = (\<lambda>a b. unat (hd b - hd a)), cd_k_value = 2, cd_hash_order = remdups,
     cd_render = (\<lambda>c fs. c), cd_debug_tetraplet = (\<lambda>_. ''?'')\<rparr>"


lemma array_slice_total: "array_slice D vs \<noteq> None"
  unfolding array_slice_def slice_index_def by (auto split: list.splits jvalue.splits option.splits)

text \<open>[array_slice_in_bounds]: Taking a slice never indexes the array out of bounds. Of an empty array it is empty whatever
  the indexes are; otherwise it has the requested elements exactly if the indexes are unsigned integers in order and within
  the array, and is an error in every other case.\<close>

theorem array_slice_in_bounds:
  "\<exists>r. array_slice D vs = Some r \<and>
     (\<forall>v. r = Inr v \<longleftrightarrow>
        (\<exists>xs s e. vs = [JArray xs, s, e] \<and>
           (xs = [] \<and> v = JArray [] \<or>
            xs \<noteq> [] \<and> (\<exists>i j. de_u64 s = Some i \<and> de_u64 e = Some j \<and> i \<le> j \<and> j \<le> length xs \<and>
               v = JArray (map (\<lambda>k. xs ! k) [i..<j])))))"
proof -
  have slice: "take (j - i) (drop i xs) = map (\<lambda>k. xs ! k) [i..<j]" if "i \<le> j" "j \<le> length xs" for i j and xs :: "jvalue list"
    using that by (intro nth_equalityI) auto
  show ?thesis
    unfolding array_slice_def slice_index_def
    by (auto split: list.splits jvalue.splits option.splits simp: slice not_less)
qed

theorem array_slice_in_bounds_witness:
  "\<exists>r. array_slice sample_codec [JArray [JNull, JBool True, JNull], JInt 1, JInt 2] = Some r \<and> r = Inr (JArray [JBool True])"
proof -
  obtain r where r: "array_slice sample_codec [JArray [JNull, JBool True, JNull], JInt 1, JInt 2] = Some r"
      "\<And>v. r = Inr v \<longleftrightarrow> (\<exists>xs s e. [JArray [JNull, JBool True, JNull], JInt 1, JInt 2] = [JArray xs, s, e] \<and>
           (xs = [] \<and> v = JArray [] \<or>
            xs \<noteq> [] \<and> (\<exists>i j. de_u64 s = Some i \<and> de_u64 e = Some j \<and> i \<le> j \<and> j \<le> length xs \<and>
               v = JArray (map (\<lambda>k. xs ! k) [i..<j]))))"
    using array_slice_in_bounds [of sample_codec "[JArray [JNull, JBool True, JNull], JInt 1, JInt 2]"] by blast
  have "r = Inr (JArray [JBool True])" unfolding r(2) by (simp add: numeral_2_eq_2)
  with r(1) show ?thesis by blast
qed

lemma path_starts_withE:
  assumes "path_starts_with (True, d) p"
  obtains rest where "p = (True, d @ rest)"
  using assms by (cases p) (auto simp: path_starts_with_def strip_prefix_def prefix_def split: if_splits)

lemma canonicalize_InrD: "canonicalize S p fs = Inr q \<Longrightarrow> fst q \<and> fs (snd q) \<noteq> None"
  by (auto simp: canonicalize_def split: sum.splits if_splits)

text \<open>[vault_path_confined]: For a particle whose id is a plain name, a path that resolves leads to an existing file or
  directory in the vault of this particle, whatever the given path is.\<close>

theorem vault_path_confined:
  assumes "resolve_vault_path S fs virtual (True, vaults) p particle_id = Inr q" and "plain_name particle_id"
  shows "\<exists>rest. q = (True, vaults @ particle_id # rest) \<and> fs (vaults @ particle_id # rest) \<noteq> None"
proof -
  have "path_join (True, vaults) (path_of particle_id) = (True, vaults @ [particle_id])"
    using assms(2) by (simp add: path_join_def path_of_plain) (simp add: plain_name_def)
  with assms(1) have "path_starts_with (True, vaults @ [particle_id]) q" "fst q \<and> fs (snd q) \<noteq> None"
    by (auto simp: resolve_vault_path_def Let_def dest!: canonicalize_InrD split: option.splits sum.splits if_splits)
  then show ?thesis by (auto elim!: path_starts_withE)
qed

definition vault_fs :: file_system where
  "vault_fs = sample_fs([''v'', ''p''] \<mapsto> DirNode, [''v'', ''p'', ''f''] \<mapsto> FileNode [1])"

theorem vault_path_confined_witness:
  "\<exists>q rest. resolve_vault_path sample_os vault_fs ''/tmp/vault'' (True, [''v'']) (path_of ''/tmp/vault/p/f'') ''p'' = Inr q \<and>
     q = (True, ''v'' # ''p'' # rest)"
proof -
  have "resolve_vault_path sample_os vault_fs ''/tmp/vault'' (True, [''v'']) (path_of ''/tmp/vault/p/f'') ''p'' =
      Inr (True, [''v'', ''p'', ''f''])"
    by (simp add: resolve_vault_path_def path_of_def path_join_def strip_prefix_def canonicalize_def path_target_def
        path_starts_with_def sample_os_def sample_fs_def vault_fs_def)
  from this vault_path_confined [OF this] show ?thesis by (auto simp: plain_name_def)
qed

text \<open>[particle_id_escapes_vault]: The check does not confine a particle whose id is not a plain name. With an absolute path
  as its id, every path below that directory resolves to itself, outside of all vaults; with the empty id, the paths
  of every other particle's vault resolve.\<close>

theorem particle_id_escapes_vault:
  assumes "path_of virtual = (True, vp)" and "path_of particle_id = (True, d)" and "''.'' \<notin> set rest"
    and "canonicalize S (True, d @ rest) fs = Inr (True, d @ rest)"
    and "canonicalize S (True, vaults @ rest) fs' = Inr (True, vaults @ rest)"
  shows "resolve_vault_path S fs virtual (True, vaults) (True, d @ rest) particle_id = Inr (True, d @ rest) \<and>
     resolve_vault_path S fs' virtual (True, vaults) (True, vp @ rest) [] = Inr (True, vaults @ rest)"
proof -
  have rest: "filter (\<lambda>c. c \<noteq> ''.'') rest = rest" using assms(3) by (auto simp: filter_id_conv)
  have "path_of [] = (False, [])" by (simp add: path_of_def)
  with rest assms show ?thesis
    by (simp add: resolve_vault_path_def path_join_def strip_prefix_def path_starts_with_def)
qed

theorem particle_id_escapes_vault_witness:
  "resolve_vault_path sample_os sample_fs ''/tmp/vault'' (True, [''v'']) (True, [''etc'', ''passwd'']) ''/etc'' = Inr (True, [''etc'', ''passwd''])"
proof -
  let ?fs = "vault_fs([''v'', ''passwd''] \<mapsto> DirNode)"
  have "path_of ''/tmp/vault'' = (True, [''tmp'', ''vault''])" "path_of ''/etc'' = (True, [''etc''])" by (simp_all add: path_of_def)
  moreover have "canonicalize sample_os (True, [''etc''] @ [''passwd'']) sample_fs = Inr (True, [''etc''] @ [''passwd''])"
    "canonicalize sample_os (True, [''v''] @ [''passwd'']) ?fs = Inr (True, [''v''] @ [''passwd''])"
    by (simp_all add: canonicalize_def path_target_def sample_os_def sample_fs_def vault_fs_def)
  ultimately show ?thesis
    using particle_id_escapes_vault [where rest = "[''passwd'']" and fs' = ?fs] by fastforce
qed

lemma de_bytes_json_bytes [simp]: "de_bytes (json_bytes b) = Some b"
proof -
  have "uint x < 256" for x :: "8 word" using uint_bounded [of x] by simp
  then have "map (\<lambda>v. case v of JInt n \<Rightarrow> if 0 \<le> n \<and> n < 256 then Some (word_of_int n) else None | _ \<Rightarrow> None)
      (map (\<lambda>x. JInt (uint x)) b) = map Some b" by (induction b) simp_all
  then show ?thesis by (simp add: json_bytes_def those_Some_iff)
qed

text \<open>C25 [sign_only_registry_records]: A signature is given only for bytes that, by their tetraplet, are the whole result of a call of
  \<^verbatim>\<open>registry.get_record_bytes\<close> on this peer, and it is accepted by \<^verbatim>\<open>sig.verify\<close> for these bytes.\<close>

theorem sign_only_registry_records:
  assumes "sig_sign D C sign_error local kp a = Inr (sig_answer True errs [sig])"
    and "\<And>b s. kp_sign C kp b = Inr s \<Longrightarrow> pk_verify C (public kp) b s = Inr ()"
  shows "(\<exists>t ts. tetraplets a = [t] # ts \<and> st_peer_pk t = to_base58 C local \<and> st_service_id t = ''registry'' \<and>
      st_function_name t = ''get_record_bytes'' \<and> st_json_path t = []) \<and>
    sig_verify C public kp (a\<lparr>function_args := [sig, hd (function_args a)]\<rparr>) = Inr (JBool True)"
proof -
  obtain content s where content: "fst (args_next de_bytes ''data'' (function_args a)) = Inr content"
      and allowed: "sign_allowed D (to_base58 C local) (tetraplets a) = None" and s: "kp_sign C kp content = Inr s" "sig = json_bytes s"
    using assms(1) by (auto simp: sig_sign_def sig_answer_def split: sum.splits option.splits)
  have "\<exists>t ts. tetraplets a = [t] # ts \<and> st_peer_pk t = to_base58 C local \<and> st_service_id t = ''registry'' \<and>
      st_function_name t = ''get_record_bytes'' \<and> st_json_path t = []"
    using allowed by (auto simp: sign_allowed_def split: list.splits if_splits)
  moreover have "de_bytes (hd (function_args a)) = Some content"
    using content by (cases "function_args a") (auto simp: args_next_def args_deserialize_def split: option.splits)
  ultimately show ?thesis using assms(2) [OF s(1)] s(2) by (simp add: sig_verify_def)
qed

definition registry_call :: args where
  "registry_call = \<lparr>service_id = ''sig'', function_name = ''sign'', function_args = [json_bytes [1, 2]],
     tetraplets = [[\<lparr>st_peer_pk = ''Qm'', st_service_id = ''registry'', st_function_name = ''get_record_bytes'', st_json_path = []\<rparr>]]\<rparr>"

theorem sign_only_registry_records_witness:
  "\<exists>sig. sig_sign sample_codec sample_crypto JErrorText 3 7 registry_call = Inr (sig_answer True [] [sig]) \<and>
     sig_verify sample_crypto (\<lambda>k. k) 7 (registry_call\<lparr>function_args := [sig, json_bytes [1, 2]]\<rparr>) = Inr (JBool True)"
proof -
  have "sig_sign sample_codec sample_crypto JErrorText 3 7 registry_call = Inr (sig_answer True [] [json_bytes [7, 1, 2]])"
    by (simp add: sig_sign_def registry_call_def sign_allowed_def sample_crypto_def)
  from this sign_only_registry_records [OF this, of "\<lambda>k. k"] show ?thesis
    by (auto simp: sample_crypto_def registry_call_def)
qed

definition pair_args :: "(string \<times> jvalue) list \<Rightarrow> jvalue list" where
  "pair_args ps = concat (map (\<lambda>(k, v). [JString k, v]) ps)"

lemma insert_pairs_Inr_iff:
  "insert_pairs D obj vs = Inr obj' \<longleftrightarrow> (\<exists>ps. vs = pair_args ps \<and> obj' = fold (\<lambda>(k, v). AList.update k v) ps obj)"
proof (induction D obj vs rule: insert_pairs.induct)
  case (1 D obj)
  have nil: "[] = pair_args ps \<longleftrightarrow> ps = []" for ps by (cases ps) (auto simp: pair_args_def)
  show ?case unfolding nil by auto
next
  case (2 D obj k)
  have single: "[k] = pair_args ps \<longleftrightarrow> False" for ps by (cases ps) (auto simp: pair_args_def)
  show ?case unfolding single by simp
next
  case (3 D obj k v rest)
  have split: "k # v # rest = pair_args ps \<longleftrightarrow> (\<exists>n qs. k = JString n \<and> ps = (n, v) # qs \<and> rest = pair_args qs)" for ps
    by (cases ps) (auto simp: pair_args_def)
  show ?case
  proof (cases "\<exists>n. k = JString n")
    case True
    then obtain n where k: "k = JString n" by blast
    show ?thesis unfolding split using 3 [OF k] by (simp add: k) (metis (no_types, lifting) fold_simps(2) case_prod_conv)
  next
    case False
    then show ?thesis unfolding split by (cases k) simp_all
  qed
qed

text \<open>[json_pairs_compose]: Constructing an object from pairs succeeds exactly for an even number of arguments with strings at the
  keys; a later value for a key replaces an earlier one; inserting further pairs into the object is the same as constructing it from
  all pairs at once, and inserting one pair is \<^verbatim>\<open>json.put\<close>.\<close>

theorem json_pairs_compose:
  "((\<exists>v. json_obj D (a\<lparr>function_args := vs\<rparr>) = Inr v) \<longleftrightarrow> (\<exists>ps. vs = pair_args ps)) \<and>
   (\<exists>obj. json_obj D (a\<lparr>function_args := pair_args ps\<rparr>) = Inr (JObject obj) \<and> map_of obj = map_of (rev ps) \<and>
     json_puts D (a\<lparr>function_args := JObject obj # pair_args qs\<rparr>) = json_obj D (a\<lparr>function_args := pair_args (ps @ qs)\<rparr>) \<and>
     json_put (a\<lparr>function_args := [JObject obj, JString k, v]\<rparr>) = json_obj D (a\<lparr>function_args := pair_args (ps @ [(k, v)])\<rparr>))"
proof -
  have ok: "insert_pairs D obj (pair_args ps) = Inr (fold (\<lambda>(k, v). AList.update k v) ps obj)" for obj ps
    using insert_pairs_Inr_iff by fast
  have view: "map_of (fold (\<lambda>(k, v). AList.update k v) ps obj) = map_of obj ++ map_of (rev ps)" for obj and ps :: "(string \<times> jvalue) list"
    by (induction ps arbitrary: obj) (auto simp: update_conv' map_add_def fun_eq_iff split: option.splits)
  show ?thesis
    using insert_pairs_Inr_iff [of D "[]" vs] view [of ps "[]"]
    by (cases "insert_pairs D [] vs") (auto simp: json_obj_def json_puts_def json_put_def ok map_sum_Inr_iff de_value_def)
qed

end
