(* ===== verification/Connection_Pool.thy ===== *)
theory Connection_Pool
  imports Particle
begin

section \<open>The connection pool\<close>

text \<open>
  \<^verbatim>\<open>connection-pool/src/{behaviour,api,connection_pool}.rs\<close>. A hash set of addresses is a list without
  repetitions whose order stands for the iteration order. What is sent on oneshot channels is
  appended to \<open>cp_replies\<close>, what subscribers receive to \<open>cp_notified\<close>, particles handed to the
  execution outlet to \<open>cp_sent\<close>. Which subscriber channels are still open and what the outlet
  answers is decided by the environment. Metrics and wakers are not modelled.
\<close>

subsection \<open>State\<close>

record pool_peer =
  connected :: "multiaddr list"
  discovered :: "multiaddr list"
  dialing :: "multiaddr list"
  dial_promises :: "outlet list"

definition peer_default :: pool_peer where
  "peer_default = \<lparr>connected = [], discovered = [], dialing = [], dial_promises = []\<rparr>"

definition peer_addresses :: "pool_peer \<Rightarrow> multiaddr list" where
  "peer_addresses p = remdups (connected p @ discovered p @ dialing p)"

definition peer_connected :: "multiaddr list \<Rightarrow> pool_peer" where
  "peer_connected addrs = peer_default\<lparr>connected := remdups addrs\<rparr>"

definition peer_dialing :: "multiaddr list \<Rightarrow> outlet \<Rightarrow> pool_peer" where
  "peer_dialing addrs out = peer_default\<lparr>dialing := remdups addrs, dial_promises := [out]\<rparr>"

datatype lifecycle_event = Connected contact | Disconnected contact

datatype swarm_event =
    DialUnknown multiaddr
  | DialPeer peer_id "multiaddr list"
  | NotifyHandler peer_id particle completion_channel

datatype reply =
    ReplyBool outlet bool
  | ReplyContact outlet "contact option"
  | ReplyStatus outlet send_status
  | ReplyCount outlet nat

record conn_pool =
  cp_peer_id :: peer_id
  cp_subscribers :: "outlet list"
  cp_queue :: "particle list"
  cp_contacts :: "(peer_id \<times> pool_peer) list"
  cp_dialing :: "(multiaddr \<times> outlet list) list"
  cp_events :: "swarm_event list"
  cp_replies :: "reply list"
  cp_notified :: "(outlet \<times> lifecycle_event) list"
  cp_sent :: "particle list"

definition conn_pool_new :: "peer_id \<Rightarrow> conn_pool" where
  "conn_pool_new p = \<lparr>cp_peer_id = p, cp_subscribers = [], cp_queue = [], cp_contacts = [],
     cp_dialing = [], cp_events = [], cp_replies = [], cp_notified = [], cp_sent = []\<rparr>"

definition reply_all :: "reply list \<Rightarrow> conn_pool \<Rightarrow> conn_pool" where
  "reply_all rs st = st\<lparr>cp_replies := cp_replies st @ rs\<rparr>"

definition push_event :: "swarm_event \<Rightarrow> conn_pool \<Rightarrow> conn_pool" where
  "push_event e st = st\<lparr>cp_events := cp_events st @ [e]\<rparr>"

definition cp_lifecycle_event :: "(outlet \<Rightarrow> bool) \<Rightarrow> lifecycle_event \<Rightarrow> conn_pool \<Rightarrow> conn_pool" where
  "cp_lifecycle_event alive ev st =
     st\<lparr>cp_subscribers := filter alive (cp_subscribers st),
        cp_notified := cp_notified st @ map (\<lambda>out. (out, ev)) (filter alive (cp_subscribers st))\<rparr>"

definition get_contact_impl :: "peer_id \<Rightarrow> conn_pool \<Rightarrow> contact option" where
  "get_contact_impl p st =
     map_option (\<lambda>c. \<lparr>ct_peer_id = p, ct_addresses = peer_addresses c\<rparr>) (map_of (cp_contacts st) p)"

subsection \<open>Commands\<close>

datatype pool_command =
    ConnectCmd contact outlet
  | SendCmd contact particle outlet
  | DialCmd multiaddr outlet
  | DisconnectCmd contact outlet
  | IsConnectedCmd peer_id outlet
  | GetContactCmd peer_id outlet
  | CountConnectionsCmd outlet
  | LifecycleEventsCmd outlet

definition cp_dial :: "multiaddr \<Rightarrow> outlet \<Rightarrow> conn_pool \<Rightarrow> conn_pool" where
  "cp_dial addr out st =
     push_event (DialUnknown addr)
       (st\<lparr>cp_dialing := AList.update addr
             ((case map_of (cp_dialing st) addr of None \<Rightarrow> [] | Some outs \<Rightarrow> outs) @ [out])
             (cp_dialing st)\<rparr>)"

definition cp_connect :: "contact \<Rightarrow> outlet \<Rightarrow> conn_pool \<Rightarrow> conn_pool" where
  "cp_connect new_contact out st =
     (let p = ct_peer_id new_contact;
          (addresses, st') =
            (case map_of (cp_contacts st) p of
               Some known \<Rightarrow>
                 (let new_addrs = remdups (filter (\<lambda>m. m \<notin> set (dialing known)) (ct_addresses new_contact));
                      not_connected = list_ex (\<lambda>m. m \<notin> set (connected known)) (ct_addresses new_contact)
                  in (new_addrs,
                      if not_connected then
                        st\<lparr>cp_contacts := AList.update p
                             (known\<lparr>dial_promises := dial_promises known @ [out]\<rparr>) (cp_contacts st)\<rparr>
                      else reply_all [ReplyBool out True] st))
             | None \<Rightarrow>
                 (ct_addresses new_contact,
                  st\<lparr>cp_contacts := AList.update p (peer_dialing (ct_addresses new_contact) out)
                       (cp_contacts st)\<rparr>))
      in if addresses \<noteq> [] then push_event (DialPeer p addresses) st' else st')"

definition cp_is_connected :: "peer_id \<Rightarrow> outlet \<Rightarrow> conn_pool \<Rightarrow> conn_pool" where
  "cp_is_connected p out st = reply_all [ReplyBool out (map_of (cp_contacts st) p \<noteq> None)] st"

definition cp_get_contact :: "peer_id \<Rightarrow> outlet \<Rightarrow> conn_pool \<Rightarrow> conn_pool" where
  "cp_get_contact p out st = reply_all [ReplyContact out (get_contact_impl p st)] st"

definition cp_send :: "contact \<Rightarrow> particle \<Rightarrow> outlet \<Rightarrow> conn_pool \<Rightarrow> conn_pool" where
  "cp_send to p out st =
     (if ct_peer_id to = cp_peer_id st then
        reply_all [ReplyStatus out SendOk] (st\<lparr>cp_queue := cp_queue st @ [p]\<rparr>)
      else if map_of (cp_contacts st) (ct_peer_id to) \<noteq> None then
        push_event (NotifyHandler (ct_peer_id to) p (Oneshot out)) st
      else reply_all [ReplyStatus out NotConnected] st)"

definition cp_count_connections :: "outlet \<Rightarrow> conn_pool \<Rightarrow> conn_pool" where
  "cp_count_connections out st = reply_all [ReplyCount out (length (cp_contacts st))] st"

definition cp_add_subscriber :: "outlet \<Rightarrow> conn_pool \<Rightarrow> conn_pool" where
  "cp_add_subscriber out st = st\<lparr>cp_subscribers := cp_subscribers st @ [out]\<rparr>"

definition cp_add_discovered_addresses :: "peer_id \<Rightarrow> multiaddr list \<Rightarrow> conn_pool \<Rightarrow> conn_pool" where
  "cp_add_discovered_addresses p addrs st =
     (let c = (case map_of (cp_contacts st) p of None \<Rightarrow> peer_default | Some c \<Rightarrow> c)
      in st\<lparr>cp_contacts := AList.update p (c\<lparr>discovered := fold List.insert addrs (discovered c)\<rparr>)
                            (cp_contacts st)\<rparr>)"

text \<open>\<^verbatim>\<open>disconnect\<close> is \<^verbatim>\<open>todo!\<close>: a panic, the result \<open>None\<close>.\<close>

fun cp_execute :: "pool_command \<Rightarrow> conn_pool \<Rightarrow> conn_pool option" where
  "cp_execute (DialCmd addr out) st = Some (cp_dial addr out st)"
| "cp_execute (ConnectCmd c out) st = Some (cp_connect c out st)"
| "cp_execute (DisconnectCmd c out) st = None"
| "cp_execute (IsConnectedCmd p out) st = Some (cp_is_connected p out st)"
| "cp_execute (GetContactCmd p out) st = Some (cp_get_contact p out st)"
| "cp_execute (SendCmd to p out) st = Some (cp_send to p out st)"
| "cp_execute (CountConnectionsCmd out) st = Some (cp_count_connections out st)"
| "cp_execute (LifecycleEventsCmd out) st = Some (cp_add_subscriber out st)"

subsection \<open>Events of the swarm\<close>

definition add_connected_address :: "peer_id \<Rightarrow> multiaddr \<Rightarrow> conn_pool \<Rightarrow> conn_pool" where
  "add_connected_address p maddr st =
     (let st1 =
        (case map_of (cp_contacts st) p of
           Some peer \<Rightarrow>
             reply_all (map (\<lambda>out. ReplyBool out True) (dial_promises peer))
               (st\<lparr>cp_contacts := AList.update p
                     \<lparr>connected = List.insert maddr (connected peer),
                      discovered = removeAll maddr (discovered peer),
                      dialing = removeAll maddr (dialing peer), dial_promises = []\<rparr> (cp_contacts st)\<rparr>)
         | None \<Rightarrow> st\<lparr>cp_contacts := AList.update p (peer_connected [maddr]) (cp_contacts st)\<rparr>)
      in case map_of (cp_dialing st1) maddr of
           None \<Rightarrow> st1
         | Some outs \<Rightarrow>
             reply_all (map (\<lambda>out. ReplyContact out (get_contact_impl p st1)) outs)
               (st1\<lparr>cp_dialing := AList.delete maddr (cp_dialing st1)\<rparr>))"

definition remove_contact :: "(outlet \<Rightarrow> bool) \<Rightarrow> peer_id \<Rightarrow> conn_pool \<Rightarrow> conn_pool" where
  "remove_contact alive p st =
     (case map_of (cp_contacts st) p of
        None \<Rightarrow> st
      | Some c \<Rightarrow>
          reply_all (map (\<lambda>out. ReplyBool out False) (dial_promises c))
            (cp_lifecycle_event alive (Disconnected (contact_new p (peer_addresses c)))
              (st\<lparr>cp_contacts := AList.delete p (cp_contacts st)\<rparr>)))"

text \<open>\<open>fail_address\<close> is the notification of the address's waiters followed by the update of the
  contact.\<close>

definition notify_failed_dial :: "multiaddr \<Rightarrow> conn_pool \<Rightarrow> conn_pool" where
  "notify_failed_dial addr st =
     (case map_of (cp_dialing st) addr of
        None \<Rightarrow> st
      | Some outs \<Rightarrow> reply_all (map (\<lambda>out. ReplyContact out None) outs)
                       (st\<lparr>cp_dialing := AList.delete addr (cp_dialing st)\<rparr>))"

definition contact_after_failure :: "multiaddr \<Rightarrow> pool_peer \<Rightarrow> pool_peer" where
  "contact_after_failure addr c =
     c\<lparr>connected := removeAll addr (connected c), discovered := removeAll addr (discovered c),
       dialing := removeAll addr (dialing c)\<rparr>"

definition settle_failed_contact :: "peer_id \<Rightarrow> pool_peer \<Rightarrow> conn_pool \<Rightarrow> conn_pool" where
  "settle_failed_contact p c st =
     (if dialing c = []
      then reply_all (map (\<lambda>out. ReplyBool out False) (dial_promises c))
             (st\<lparr>cp_contacts := AList.update p (c\<lparr>dial_promises := []\<rparr>) (cp_contacts st)\<rparr>)
      else st\<lparr>cp_contacts := AList.update p c (cp_contacts st)\<rparr>)"

definition fail_address :: "(outlet \<Rightarrow> bool) \<Rightarrow> peer_id option \<Rightarrow> multiaddr \<Rightarrow> conn_pool \<Rightarrow> conn_pool" where
  "fail_address alive peer addr st =
     (let st1 = notify_failed_dial addr st in
      case peer of
        None \<Rightarrow> st1
      | Some p \<Rightarrow>
          (case map_of (cp_contacts st1) p of
             None \<Rightarrow> st1
           | Some c0 \<Rightarrow>
               (let c = contact_after_failure addr c0; st2 = settle_failed_contact p c st1
                in if connected c = [] \<and> dialing c = [] then remove_contact alive p st2 else st2)))"

definition inject_connection_established ::
    "(outlet \<Rightarrow> bool) \<Rightarrow> peer_id \<Rightarrow> multiaddr \<Rightarrow> multiaddr list option \<Rightarrow> conn_pool \<Rightarrow> conn_pool" where
  "inject_connection_established alive p maddr failed st =
     (let st1 = (case failed of
                   Some addrs \<Rightarrow> fold (fail_address alive (Some p)) addrs st
                 | None \<Rightarrow> st)
      in cp_lifecycle_event alive (Connected (contact_new p [maddr])) (add_connected_address p maddr st1))"

definition inject_connection_closed ::
    "(outlet \<Rightarrow> bool) \<Rightarrow> peer_id \<Rightarrow> multiaddr \<Rightarrow> nat \<Rightarrow> conn_pool \<Rightarrow> conn_pool" where
  "inject_connection_closed alive p maddr remaining st =
     fail_address alive (Some p) maddr (if remaining = 0 then remove_contact alive p st else st)"

datatype dial_error =
    DialPeerConditionFalse bool \<comment> \<open>whether the condition was \<^verbatim>\<open>Disconnected | NotDialing\<close>\<close>
  | WrongPeerId multiaddr
  | Transport "multiaddr list"
  | OtherDialError

definition inject_dial_failure ::
    "(outlet \<Rightarrow> bool) \<Rightarrow> peer_id option \<Rightarrow> dial_error \<Rightarrow> conn_pool \<Rightarrow> conn_pool" where
  "inject_dial_failure alive peer err st =
     (if err = DialPeerConditionFalse True then st
      else
        (let st1 = (case err of
                      WrongPeerId addr \<Rightarrow> fail_address alive peer addr st
                    | Transport addrs \<Rightarrow> fold (fail_address alive peer) addrs st
                    | _ \<Rightarrow> st)
         in case peer of Some p \<Rightarrow> remove_contact alive p st1 | None \<Rightarrow> st1))"

fun inject_event :: "'j handler_message \<Rightarrow> conn_pool \<Rightarrow> conn_pool option" where
  "inject_event (InParticle p) st = Some (st\<lparr>cp_queue := cp_queue st @ [p]\<rparr>)"
| "inject_event (HandlerInboundUpgradeError _) st = Some st"
| "inject_event HandlerUpgrade st = Some st"
| "inject_event (OutParticle _ _) st = None"

definition addresses_of_peer :: "peer_id \<Rightarrow> conn_pool \<Rightarrow> multiaddr list" where
  "addresses_of_peer p st = (case map_of (cp_contacts st) p of None \<Rightarrow> [] | Some c \<Rightarrow> peer_addresses c)"

subsection \<open>Polling\<close>

datatype outlet_ready = OutletReady bool | OutletPending | OutletClosed

text \<open>The loop over the queue, one answer of \<^verbatim>\<open>poll_ready\<close> per round; the flag of a ready outlet says
  whether \<^verbatim>\<open>start_send\<close> succeeded. Running out of answers is a pending outlet.\<close>

fun cp_flush :: "outlet_ready list \<Rightarrow> conn_pool \<Rightarrow> conn_pool" where
  "cp_flush (OutletReady ok # rs) st =
     (case cp_queue st of
        [] \<Rightarrow> st
      | p # ps \<Rightarrow> cp_flush rs (st\<lparr>cp_queue := ps, cp_sent := (if ok then cp_sent st @ [p] else cp_sent st)\<rparr>))"
| "cp_flush _ st = st"

fun cp_execute_all :: "pool_command list \<Rightarrow> conn_pool \<Rightarrow> conn_pool option" where
  "cp_execute_all [] st = Some st"
| "cp_execute_all (c # cs) st = Option.bind (cp_execute c st) (cp_execute_all cs)"

definition cp_poll ::
    "outlet_ready list \<Rightarrow> pool_command list \<Rightarrow> conn_pool \<Rightarrow> (swarm_event option \<times> conn_pool) option" where
  "cp_poll ready cmds st =
     (case cp_execute_all cmds (cp_flush ready st) of
        None \<Rightarrow> None
      | Some st1 \<Rightarrow>
          (case cp_events st1 of
             [] \<Rightarrow> Some (None, st1)
           | e # es \<Rightarrow> Some (Some e, st1\<lparr>cp_events := es\<rparr>)))"

subsection \<open>Accounting for oneshot channels\<close>

fun reply_outlet :: "reply \<Rightarrow> outlet" where
  "reply_outlet (ReplyBool out _) = out"
| "reply_outlet (ReplyContact out _) = out"
| "reply_outlet (ReplyStatus out _) = out"
| "reply_outlet (ReplyCount out _) = out"

fun event_outlets :: "swarm_event \<Rightarrow> outlet multiset" where
  "event_outlets (NotifyHandler _ _ (Oneshot out)) = {#out#}"
| "event_outlets _ = {#}"

fun command_outlets :: "pool_command \<Rightarrow> outlet multiset" where
  "command_outlets (LifecycleEventsCmd _) = {#}"
| "command_outlets (ConnectCmd _ out) = {#out#}"
| "command_outlets (SendCmd _ _ out) = {#out#}"
| "command_outlets (DialCmd _ out) = {#out#}"
| "command_outlets (DisconnectCmd _ out) = {#out#}"
| "command_outlets (IsConnectedCmd _ out) = {#out#}"
| "command_outlets (GetContactCmd _ out) = {#out#}"
| "command_outlets (CountConnectionsCmd out) = {#out#}"

definition pool_pending :: "conn_pool \<Rightarrow> outlet multiset" where
  "pool_pending st = assoc_sum (\<lambda>c. mset (dial_promises c)) (cp_contacts st) + assoc_sum mset (cp_dialing st)"

definition pool_replied :: "conn_pool \<Rightarrow> outlet multiset" where
  "pool_replied st = mset (map reply_outlet (cp_replies st))"

definition accounted :: "conn_pool \<Rightarrow> outlet multiset" where
  "accounted st = pool_pending st + pool_replied st + sum_list (map event_outlets (cp_events st))"

definition pool_wf :: "conn_pool \<Rightarrow> bool" where
  "pool_wf st \<longleftrightarrow> distinct (map fst (cp_contacts st)) \<and> distinct (map fst (cp_dialing st))"

lemma accounted_reply_all [simp]:
  "accounted (reply_all rs st) = accounted st + mset (map reply_outlet rs)"
  "pool_wf (reply_all rs st) = pool_wf st"
  by (simp_all add: accounted_def reply_all_def pool_pending_def pool_replied_def pool_wf_def)

lemma accounted_push_event [simp]:
  "accounted (push_event e st) = accounted st + event_outlets e"
  "pool_wf (push_event e st) = pool_wf st"
  by (simp_all add: accounted_def push_event_def pool_pending_def pool_replied_def pool_wf_def)

lemma accounted_lifecycle [simp]:
  "accounted (cp_lifecycle_event alive ev st) = accounted st"
  "pool_wf (cp_lifecycle_event alive ev st) = pool_wf st"
  by (simp_all add: accounted_def cp_lifecycle_event_def pool_pending_def pool_replied_def pool_wf_def)

lemma accounted_contact_new:
  assumes "pool_wf st" and "map_of (cp_contacts st) p = None"
  shows "accounted (st\<lparr>cp_contacts := AList.update p c (cp_contacts st)\<rparr>) = accounted st + mset (dial_promises c)"
    and "pool_wf (st\<lparr>cp_contacts := AList.update p c (cp_contacts st)\<rparr>)"
  using assms
  by (simp_all add: accounted_def pool_pending_def pool_replied_def pool_wf_def assoc_sum_update_None
      distinct_AList_update)

lemma accounted_contact_update:
  assumes "pool_wf st" and "map_of (cp_contacts st) p = Some c0"
  shows "accounted (st\<lparr>cp_contacts := AList.update p c (cp_contacts st)\<rparr>) + mset (dial_promises c0) =
           accounted st + mset (dial_promises c)"
    and "pool_wf (st\<lparr>cp_contacts := AList.update p c (cp_contacts st)\<rparr>)"
  using assms assoc_sum_update_Some [of "cp_contacts st" p c0 "\<lambda>c. mset (dial_promises c)" c]
  by (simp_all add: accounted_def pool_pending_def pool_replied_def pool_wf_def distinct_AList_update
      algebra_simps)

lemma accounted_contact_delete:
  assumes "pool_wf st" and "map_of (cp_contacts st) p = Some c0"
  shows "accounted st = accounted (st\<lparr>cp_contacts := AList.delete p (cp_contacts st)\<rparr>) + mset (dial_promises c0)"
    and "pool_wf (st\<lparr>cp_contacts := AList.delete p (cp_contacts st)\<rparr>)"
  using assms assoc_sum_delete_Some [of "cp_contacts st" p c0 "\<lambda>c. mset (dial_promises c)"]
  by (simp_all add: accounted_def pool_pending_def pool_replied_def pool_wf_def distinct_AList_delete)

lemma accounted_dialing_delete:
  assumes "pool_wf st" and "map_of (cp_dialing st) a = Some outs"
  shows "accounted st = accounted (st\<lparr>cp_dialing := AList.delete a (cp_dialing st)\<rparr>) + mset outs"
    and "pool_wf (st\<lparr>cp_dialing := AList.delete a (cp_dialing st)\<rparr>)"
  using assms assoc_sum_delete_Some [of "cp_dialing st" a outs mset]
  by (simp_all add: accounted_def pool_pending_def pool_replied_def pool_wf_def distinct_AList_delete)

lemma map_reply_outlet [simp]:
  "map (reply_outlet \<circ> (\<lambda>out. ReplyBool out b)) outs = outs"
  "map (reply_outlet \<circ> (\<lambda>out. ReplyContact out c)) outs = outs"
  by (simp_all add: comp_def)

lemma cp_dial_accounted:
  assumes "pool_wf st"
  shows "accounted (cp_dial addr out st) = accounted st + {#out#} \<and> pool_wf (cp_dial addr out st)"
proof (cases "map_of (cp_dialing st) addr")
  case None
  with assms show ?thesis
    by (simp add: cp_dial_def accounted_def pool_pending_def pool_replied_def pool_wf_def push_event_def
        assoc_sum_update_None distinct_AList_update)
next
  case (Some outs)
  with assms assoc_sum_update_Some [of "cp_dialing st" addr outs mset "outs @ [out]"] show ?thesis
    by (simp add: cp_dial_def accounted_def pool_pending_def pool_replied_def pool_wf_def push_event_def
        distinct_AList_update algebra_simps)
qed

lemma cp_connect_accounted:
  assumes "pool_wf st"
  shows "accounted (cp_connect c out st) = accounted st + {#out#} \<and> pool_wf (cp_connect c out st)"
proof (cases "map_of (cp_contacts st) (ct_peer_id c)")
  case None
  moreover have "dial_promises (peer_dialing addrs out) = [out]" for addrs by (simp add: peer_dialing_def)
  ultimately show ?thesis
    by (simp add: cp_connect_def Let_def accounted_contact_new [OF assms None])
next
  case (Some known)
  let ?c = "known\<lparr>dial_promises := dial_promises known @ [out]\<rparr>"
  from Some assms accounted_contact_update [OF assms Some, of ?c] show ?thesis
    by (simp add: cp_connect_def Let_def)
qed

lemma cp_execute_accounted:
  assumes "pool_wf st" and "cp_execute c st = Some st'"
  shows "accounted st' = accounted st + command_outlets c \<and> pool_wf st'"
proof (cases c)
  case (SendCmd to p out)
  have "accounted (st\<lparr>cp_queue := q\<rparr>) = accounted st" "pool_wf (st\<lparr>cp_queue := q\<rparr>) = pool_wf st" for q
    by (simp_all add: accounted_def pool_pending_def pool_replied_def pool_wf_def)
  with SendCmd assms show ?thesis by (auto simp: cp_send_def)
next
  case (LifecycleEventsCmd out)
  with assms show ?thesis
    by (auto simp: cp_add_subscriber_def accounted_def pool_pending_def pool_replied_def pool_wf_def)
qed (use assms cp_dial_accounted cp_connect_accounted in
      \<open>auto simp: cp_is_connected_def cp_get_contact_def cp_count_connections_def\<close>)

lemma add_connected_address_accounted:
  assumes "pool_wf st"
  shows "accounted (add_connected_address p maddr st) = accounted st \<and> pool_wf (add_connected_address p maddr st)"
proof -
  let ?st1 = "case map_of (cp_contacts st) p of
           Some peer \<Rightarrow>
             reply_all (map (\<lambda>out. ReplyBool out True) (dial_promises peer))
               (st\<lparr>cp_contacts := AList.update p
                     \<lparr>connected = List.insert maddr (connected peer),
                      discovered = removeAll maddr (discovered peer),
                      dialing = removeAll maddr (dialing peer), dial_promises = []\<rparr> (cp_contacts st)\<rparr>)
         | None \<Rightarrow> st\<lparr>cp_contacts := AList.update p (peer_connected [maddr]) (cp_contacts st)\<rparr>"
  have 1: "accounted ?st1 = accounted st" "pool_wf ?st1"
    using accounted_contact_new [OF assms] accounted_contact_update [OF assms]
    by (auto simp: peer_connected_def peer_default_def split: option.splits)
  have "add_connected_address p maddr st = (case map_of (cp_dialing ?st1) maddr of
           None \<Rightarrow> ?st1
         | Some outs \<Rightarrow>
             reply_all (map (\<lambda>out. ReplyContact out (get_contact_impl p ?st1)) outs)
               (?st1\<lparr>cp_dialing := AList.delete maddr (cp_dialing ?st1)\<rparr>))"
    by (simp add: add_connected_address_def Let_def)
  with 1 accounted_dialing_delete [OF 1(2)] show ?thesis
    by (cases "map_of (cp_dialing ?st1) maddr") simp_all
qed

lemma remove_contact_accounted:
  assumes "pool_wf st"
  shows "accounted (remove_contact alive p st) = accounted st \<and> pool_wf (remove_contact alive p st)"
proof (cases "map_of (cp_contacts st) p")
  case (Some c)
  with accounted_contact_delete [OF assms Some] show ?thesis by (simp add: remove_contact_def)
qed (simp add: remove_contact_def assms)

lemma notify_failed_dial_accounted:
  assumes "pool_wf st"
  shows "accounted (notify_failed_dial addr st) = accounted st \<and> pool_wf (notify_failed_dial addr st)"
proof (cases "map_of (cp_dialing st) addr")
  case (Some outs)
  with accounted_dialing_delete [OF assms Some] show ?thesis by (simp add: notify_failed_dial_def)
qed (simp add: notify_failed_dial_def assms)

lemma settle_failed_contact_accounted:
  assumes "pool_wf st" and "map_of (cp_contacts st) p = Some c0" and "dial_promises c = dial_promises c0"
  shows "accounted (settle_failed_contact p c st) = accounted st \<and> pool_wf (settle_failed_contact p c st)"
  using accounted_contact_update [OF assms(1,2), of c] accounted_contact_update [OF assms(1,2), of "c\<lparr>dial_promises := []\<rparr>"]
    assms(3) by (simp add: settle_failed_contact_def)

lemma fail_address_accounted:
  assumes "pool_wf st"
  shows "accounted (fail_address alive peer addr st) = accounted st \<and> pool_wf (fail_address alive peer addr st)"
proof (cases peer)
  case None
  with notify_failed_dial_accounted [OF assms] show ?thesis by (simp add: fail_address_def)
next
  case (Some p)
  let ?st1 = "notify_failed_dial addr st"
  note 1 = notify_failed_dial_accounted [OF assms, of addr]
  show ?thesis
  proof (cases "map_of (cp_contacts ?st1) p")
    case None
    with 1 Some show ?thesis by (simp add: fail_address_def)
  next
    case c0: (Some c0)
    let ?c = "contact_after_failure addr c0"
    have 2: "accounted (settle_failed_contact p ?c ?st1) = accounted st \<and> pool_wf (settle_failed_contact p ?c ?st1)"
      using settle_failed_contact_accounted [of ?st1 p c0 ?c] 1 c0 by (simp add: contact_after_failure_def)
    with remove_contact_accounted [of "settle_failed_contact p ?c ?st1" alive p] c0 Some show ?thesis
      by (simp add: fail_address_def Let_def)
  qed
qed

lemma fold_fail_address_accounted:
  "pool_wf st \<Longrightarrow> accounted (fold (fail_address alive peer) addrs st) = accounted st \<and>
     pool_wf (fold (fail_address alive peer) addrs st)"
  by (induction addrs arbitrary: st) (auto simp: fail_address_accounted)

lemma inject_accounted:
  assumes "pool_wf st"
  shows "accounted (inject_connection_established alive p maddr failed st) = accounted st \<and>
           pool_wf (inject_connection_established alive p maddr failed st)"
    and "accounted (inject_connection_closed alive p maddr n st) = accounted st \<and>
           pool_wf (inject_connection_closed alive p maddr n st)"
    and "accounted (inject_dial_failure alive peer err st) = accounted st \<and>
           pool_wf (inject_dial_failure alive peer err st)"
  using assms
  by (simp_all add: inject_connection_established_def inject_connection_closed_def inject_dial_failure_def
      add_connected_address_accounted fold_fail_address_accounted fail_address_accounted
      remove_contact_accounted Let_def split: option.splits dial_error.splits)

lemma add_discovered_accounted:
  assumes "pool_wf st"
  shows "accounted (cp_add_discovered_addresses p addrs st) = accounted st \<and>
         pool_wf (cp_add_discovered_addresses p addrs st)"
proof (cases "map_of (cp_contacts st) p")
  case None
  with accounted_contact_new [OF assms None] show ?thesis
    by (simp add: cp_add_discovered_addresses_def peer_default_def)
next
  case (Some c)
  with accounted_contact_update [OF assms Some, of "c\<lparr>discovered := fold List.insert addrs (discovered c)\<rparr>"]
  show ?thesis by (simp add: cp_add_discovered_addresses_def Let_def)
qed

lemma cp_flush_frame:
  "accounted (cp_flush rs st) = accounted st \<and> pool_wf (cp_flush rs st) = pool_wf st"
proof (induction rs st rule: cp_flush.induct)
  case (1 ok rs st)
  have "accounted (st\<lparr>cp_queue := q, cp_sent := s\<rparr>) = accounted st"
    "pool_wf (st\<lparr>cp_queue := q, cp_sent := s\<rparr>) = pool_wf st" for q s
    by (simp_all add: accounted_def pool_pending_def pool_replied_def pool_wf_def)
  with 1 show ?case by (simp split: list.splits)
qed simp_all

lemma cp_execute_all_accounted:
  "pool_wf st \<Longrightarrow> cp_execute_all cmds st = Some st' \<Longrightarrow>
   accounted st' = accounted st + sum_list (map command_outlets cmds) \<and> pool_wf st'"
proof (induction cmds arbitrary: st)
  case (Cons c cmds)
  from Cons.prems(2) obtain st1 where st1: "cp_execute c st = Some st1" "cp_execute_all cmds st1 = Some st'"
    by (auto simp: bind_eq_Some_conv)
  from cp_execute_accounted [OF Cons.prems(1) st1(1)] Cons.IH [OF _ st1(2)] show ?case by (simp add: add.assoc)
qed simp

lemma cp_poll_accounted:
  assumes "pool_wf st" and "cp_poll ready cmds st = Some (e, st')"
  shows "accounted st' + (case e of None \<Rightarrow> {#} | Some e \<Rightarrow> event_outlets e) =
           accounted st + sum_list (map command_outlets cmds) \<and> pool_wf st'"
proof -
  obtain st1 where st1: "cp_execute_all cmds (cp_flush ready st) = Some st1"
    using assms(2) by (auto simp: cp_poll_def split: option.splits)
  have wf: "pool_wf (cp_flush ready st)" using assms(1) cp_flush_frame by blast
  note acc = cp_execute_all_accounted [OF wf st1]
  show ?thesis
  proof (cases "cp_events st1")
    case Nil
    with st1 assms(2) acc cp_flush_frame [of ready st] show ?thesis by (auto simp: cp_poll_def)
  next
    case (Cons e1 es)
    have "accounted st1 = accounted (st1\<lparr>cp_events := es\<rparr>) + event_outlets e1"
      "pool_wf (st1\<lparr>cp_events := es\<rparr>) = pool_wf st1"
      using Cons by (simp_all add: accounted_def pool_pending_def pool_replied_def pool_wf_def)
    with Cons st1 assms(2) acc cp_flush_frame [of ready st] show ?thesis by (auto simp: cp_poll_def)
  qed
qed

subsection \<open>Histories\<close>

datatype pool_input =
    PollStep "outlet_ready list" "pool_command list"
  | EstablishedStep "outlet \<Rightarrow> bool" peer_id multiaddr "multiaddr list option"
  | ClosedStep "outlet \<Rightarrow> bool" peer_id multiaddr nat
  | DialFailureStep "outlet \<Rightarrow> bool" "peer_id option" dial_error
  | InParticleStep particle
  | DiscoveredStep peer_id "multiaddr list"

fun pool_step :: "pool_input \<Rightarrow> conn_pool \<Rightarrow> (swarm_event list \<times> conn_pool) option" where
  "pool_step (PollStep ready cmds) st =
     map_option (\<lambda>(e, st'). (case e of None \<Rightarrow> [] | Some e \<Rightarrow> [e], st')) (cp_poll ready cmds st)"
| "pool_step (EstablishedStep alive p a failed) st = Some ([], inject_connection_established alive p a failed st)"
| "pool_step (ClosedStep alive p a n) st = Some ([], inject_connection_closed alive p a n st)"
| "pool_step (DialFailureStep alive p err) st = Some ([], inject_dial_failure alive p err st)"
| "pool_step (InParticleStep p) st = map_option (Pair []) (inject_event (InParticle p :: unit handler_message) st)"
| "pool_step (DiscoveredStep p addrs) st = Some ([], cp_add_discovered_addresses p addrs st)"

fun pool_run :: "pool_input list \<Rightarrow> conn_pool \<Rightarrow> (swarm_event list \<times> conn_pool) option" where
  "pool_run [] st = Some ([], st)"
| "pool_run (s # ss) st =
     (case pool_step s st of
        None \<Rightarrow> None
      | Some (es, st1) \<Rightarrow> map_option (\<lambda>(es', st2). (es @ es', st2)) (pool_run ss st1))"

fun step_outlets :: "pool_input \<Rightarrow> outlet multiset" where
  "step_outlets (PollStep _ cmds) = sum_list (map command_outlets cmds)"
| "step_outlets _ = {#}"

lemma pool_step_accounted:
  assumes "pool_wf st" and "pool_step s st = Some (es, st')"
  shows "accounted st' + sum_list (map event_outlets es) = accounted st + step_outlets s \<and> pool_wf st'"
proof (cases s)
  case (PollStep ready cmds)
  with assms cp_poll_accounted [OF assms(1)] show ?thesis by (fastforce split: option.splits)
next
  case (InParticleStep p)
  with assms show ?thesis by (auto simp: accounted_def pool_pending_def pool_replied_def pool_wf_def)
qed (use assms inject_accounted [OF assms(1)] add_discovered_accounted [OF assms(1)] in auto)

lemma pool_run_accounted:
  "pool_wf st \<Longrightarrow> pool_run ss st = Some (es, st') \<Longrightarrow>
   accounted st' + sum_list (map event_outlets es) = accounted st + sum_list (map step_outlets ss) \<and> pool_wf st'"
proof (induction ss arbitrary: st es)
  case (Cons s ss)
  from Cons.prems(2) obtain es1 st1 es2 where
    1: "pool_step s st = Some (es1, st1)" and 2: "pool_run ss st1 = Some (es2, st')" and es: "es = es1 @ es2"
    by (auto split: option.splits)
  from pool_step_accounted [OF Cons.prems(1) 1] Cons.IH [OF _ 2] show ?case
    by (auto simp: es) (metis add.assoc add.commute)
qed simp

subsection \<open>Properties\<close>

text \<open>C2 [promises_conserved]: Every oneshot channel given to the pool is accounted for: through any history of commands,
  connections, failures and discoveries, the channels handed in are exactly those still waiting
  for a dial, those answered, and those passed on with a particle to a connection handler. In particular a
  channel handed in once is answered at most once and is never dropped silently.\<close>

theorem promises_conserved:
  assumes "pool_run steps (conn_pool_new me) = Some (emitted, st)"
  shows "pool_pending st + pool_replied st +
           sum_list (map event_outlets (cp_events st)) + sum_list (map event_outlets emitted) =
         sum_list (map step_outlets steps)"
proof -
  have "pool_wf (conn_pool_new me)" "accounted (conn_pool_new me) = {#}"
    by (simp_all add: pool_wf_def conn_pool_new_def accounted_def pool_pending_def pool_replied_def)
  with pool_run_accounted [OF _ assms] show ?thesis by (simp add: accounted_def)
qed

definition sample_steps :: "pool_input list" where
  "sample_steps = [PollStep [] [ConnectCmd \<lparr>ct_peer_id = 2, ct_addresses = [10, 11]\<rparr> 100, DialCmd 12 101],
     EstablishedStep (\<lambda>_. True) 2 11 (Some [10])]"

theorem promises_conserved_witness:
  "case pool_run sample_steps (conn_pool_new 1) of
     None \<Rightarrow> False
   | Some (emitted, st) \<Rightarrow> cp_replies st = [ReplyBool 100 True] \<and> pool_pending st + pool_replied st = {#100, 101#}"
proof -
  obtain emitted st where run: "pool_run sample_steps (conn_pool_new 1) = Some (emitted, st)"
    and st: "cp_replies st = [ReplyBool 100 True]" "cp_events st = [DialUnknown 12]" "emitted = [DialPeer 2 [10, 11]]"
    by (simp add: sample_steps_def cp_poll_def cp_connect_def cp_dial_def conn_pool_new_def push_event_def
        peer_dialing_def peer_default_def inject_connection_established_def fail_address_def
        notify_failed_dial_def contact_after_failure_def settle_failed_contact_def add_connected_address_def
        reply_all_def cp_lifecycle_event_def List.insert_def)
  from promises_conserved [OF run] st run show ?thesis by (simp add: sample_steps_def)
qed

text \<open>[established_answers_waiters]: When a connection with a peer is established, and no other address failed, all who waited
  for that peer are told of the success, the address becomes connected and is no longer pending, nobody
  waits for the peer any more, callers waiting for the address get the peer's contact, and
  each live subscriber is told.\<close>

theorem established_answers_waiters:
  "let st' = inject_connection_established alive p maddr None st in
    (\<exists>c. map_of (cp_contacts st') = (map_of (cp_contacts st))(p \<mapsto> c) \<and> maddr \<in> set (connected c) \<and>
         maddr \<notin> set (dialing c) \<and> dial_promises c = [] \<and>
         cp_replies st' = cp_replies st @
           map (\<lambda>out. ReplyBool out True)
             (case map_of (cp_contacts st) p of None \<Rightarrow> [] | Some c0 \<Rightarrow> dial_promises c0) @
           map (\<lambda>out. ReplyContact out (Some \<lparr>ct_peer_id = p, ct_addresses = peer_addresses c\<rparr>))
             (case map_of (cp_dialing st) maddr of None \<Rightarrow> [] | Some outs \<Rightarrow> outs)) \<and>
    map_of (cp_dialing st') maddr = None \<and>
    cp_notified st' = cp_notified st @
      map (\<lambda>out. (out, Connected (contact_new p [maddr]))) (filter alive (cp_subscribers st))"
  by (auto simp: inject_connection_established_def add_connected_address_def cp_lifecycle_event_def
      reply_all_def peer_connected_def peer_default_def get_contact_impl_def Let_def update_conv'
      split: option.splits)

lemma remove_contact_contacts:
  "cp_contacts (remove_contact alive p st) = AList.delete p (cp_contacts st)"
  by (auto simp: remove_contact_def reply_all_def cp_lifecycle_event_def map_of_eq_None_iff split: option.splits)

lemma notify_failed_dial_contacts [simp]: "cp_contacts (notify_failed_dial addr st) = cp_contacts st"
  by (simp add: notify_failed_dial_def reply_all_def split: option.splits)

lemma fail_address_contacts:
  "q \<noteq> p \<Longrightarrow> map_of (cp_contacts (fail_address alive (Some p) addr st)) q = map_of (cp_contacts st) q"
  "map_of (cp_contacts st) p = None \<Longrightarrow> map_of (cp_contacts (fail_address alive (Some p) addr st)) p = None"
  by (auto simp: fail_address_def settle_failed_contact_def remove_contact_contacts reply_all_def Let_def
      split: option.splits)

lemma fold_fail_address_contacts:
  "q \<noteq> p \<Longrightarrow> map_of (cp_contacts (fold (fail_address alive (Some p)) addrs st)) q = map_of (cp_contacts st) q"
  by (induction addrs arbitrary: st) (auto simp: fail_address_contacts)

text \<open>[lost_contact_is_released]: When the last connection with a peer closes, or dialing it fails for any reason but its
  being connected already, the peer is no contact any more, so that (with the accounting above) all who waited
  for it have been answered; no other contact changes, and a particle sent to that peer afterwards is
  refused as not connected.\<close>

theorem lost_contact_is_released:
  assumes "st' = inject_connection_closed alive p maddr 0 st \<or>
           err \<noteq> DialPeerConditionFalse True \<and> st' = inject_dial_failure alive (Some p) err st"
    and "ct_peer_id to = p" and "p \<noteq> cp_peer_id st'"
  shows "map_of (cp_contacts st') p = None \<and>
         (\<forall>q. q \<noteq> p \<longrightarrow> map_of (cp_contacts st') q = map_of (cp_contacts st) q) \<and>
         cp_send to particle out st' = reply_all [ReplyStatus out NotConnected] st'"
proof -
  have "map_of (cp_contacts st') p = None \<and>
      (\<forall>q. q \<noteq> p \<longrightarrow> map_of (cp_contacts st') q = map_of (cp_contacts st) q)"
    using assms(1)
  proof (elim disjE conjE)
    assume "st' = inject_connection_closed alive p maddr 0 st"
    then show ?thesis
      by (simp add: inject_connection_closed_def fail_address_contacts remove_contact_contacts)
  next
    assume "err \<noteq> DialPeerConditionFalse True" "st' = inject_dial_failure alive (Some p) err st"
    then show ?thesis
      by (auto simp: inject_dial_failure_def remove_contact_contacts fail_address_contacts
          fold_fail_address_contacts Let_def split: dial_error.splits)
  qed
  with assms(2,3) show ?thesis by (simp add: cp_send_def)
qed

definition sample_pool :: conn_pool where
  "sample_pool = (conn_pool_new 1)\<lparr>cp_contacts := [(2, peer_dialing [10] 100), (3, peer_connected [20])]\<rparr>"

theorem lost_contact_is_released_witness:
  "map_of (cp_contacts (inject_dial_failure (\<lambda>_. True) (Some 2) (Transport [10]) sample_pool)) 2 = None"
  using lost_contact_is_released [of
      "inject_dial_failure (\<lambda>_. True) (Some 2) (Transport [10]) sample_pool" "\<lambda>_. True" 2 0 sample_pool
      "Transport [10]" "\<lparr>ct_peer_id = 2, ct_addresses = []\<rparr>"]
  by (simp add: inject_dial_failure_def fail_address_def notify_failed_dial_def contact_after_failure_def
      settle_failed_contact_def remove_contact_def reply_all_def cp_lifecycle_event_def sample_pool_def
      conn_pool_new_def peer_dialing_def peer_default_def)

text \<open>[connect_can_hang]: Connecting to a peer that is connected already, by an address that is not among its connected ones,
  is not answered: no reply is sent at once, and when the swarm then reports that it refuses to dial
  because the peer is connected, the pool ignores the report and the caller goes on waiting.\<close>

theorem connect_can_hang:
  assumes "map_of (cp_contacts st) p = Some c" and "a \<notin> set (connected c)"
  shows "let st' = inject_dial_failure alive (Some p) (DialPeerConditionFalse True)
                     (cp_connect \<lparr>ct_peer_id = p, ct_addresses = [a]\<rparr> out st) in
         cp_replies st' = cp_replies st \<and>
         (\<exists>c'. map_of (cp_contacts st') p = Some c' \<and> out \<in> set (dial_promises c') \<and> connected c' = connected c)"
  using assms by (simp add: inject_dial_failure_def cp_connect_def push_event_def Let_def)

theorem connect_can_hang_witness:
  "cp_replies (inject_dial_failure (\<lambda>_. True) (Some 3) (DialPeerConditionFalse True)
     (cp_connect \<lparr>ct_peer_id = 3, ct_addresses = [21]\<rparr> 200 sample_pool)) = []"
  using connect_can_hang [of sample_pool 3 "peer_connected [20]" 21 "\<lambda>_. True" 200]
  by (simp add: sample_pool_def conn_pool_new_def peer_connected_def peer_default_def Let_def)

text \<open>[connect_denies_success]: Connecting to a peer that is known only by discovered addresses can report a failure for a
  connection that succeeds: the addresses being dialed are not recorded for a known contact, so when
  one of them fails and another succeeds, the waiter is told of the failure (and subscribers of a
  disconnection) before the connection is registered.\<close>

theorem connect_denies_success:
  assumes "map_of (cp_contacts st) p = Some c" and "connected c = []" and "dialing c = []"
    and "dial_promises c = []" and "cp_dialing st = []"
  shows "let st' = inject_connection_established alive p a2 (Some [a1])
                     (cp_connect \<lparr>ct_peer_id = p, ct_addresses = [a1, a2]\<rparr> out st) in
         cp_replies st' = cp_replies st @ [ReplyBool out False] \<and>
         (\<exists>c'. map_of (cp_contacts st') p = Some c' \<and> connected c' = [a2])"
  using assms
  by (simp add: inject_connection_established_def cp_connect_def push_event_def fail_address_def
      notify_failed_dial_def contact_after_failure_def settle_failed_contact_def remove_contact_def
      reply_all_def cp_lifecycle_event_def add_connected_address_def peer_connected_def peer_default_def
      update_conv delete_conv Let_def)

theorem connect_denies_success_witness:
  "cp_replies (inject_connection_established (\<lambda>_. True) 2 11 (Some [10])
     (cp_connect \<lparr>ct_peer_id = 2, ct_addresses = [10, 11]\<rparr> 100
       (cp_add_discovered_addresses 2 [10] (conn_pool_new 1)))) = [ReplyBool 100 False]"
  using connect_denies_success [of "cp_add_discovered_addresses 2 [10] (conn_pool_new 1)" 2
      "peer_default\<lparr>discovered := [10]\<rparr>" "\<lambda>_. True" 11 10 100]
  by (simp add: cp_add_discovered_addresses_def conn_pool_new_def peer_default_def Let_def)

text \<open>[queue_is_fifo]: Particles reach the executor in the order they were received or sent to this node, and
  none is lost or duplicated, while the outlet accepts them: flushing moves a prefix of the queue to the
  outlet, and with enough capacity all of it.\<close>

theorem queue_is_fifo:
  assumes "OutletReady False \<notin> set ready"
  shows "cp_sent (cp_flush ready st) @ cp_queue (cp_flush ready st) = cp_sent st @ cp_queue st \<and>
         (ready = replicate n (OutletReady True) \<and> length (cp_queue st) \<le> n \<longrightarrow> cp_queue (cp_flush ready st) = [])"
  using assms
proof (induction ready st arbitrary: n rule: cp_flush.induct)
  case (1 ok rs st)
  then show ?case
    by (cases n) (auto split: list.splits)
qed (auto simp: Cons_replicate_eq)

theorem queue_is_fifo_witness:
  "cp_sent (cp_flush [OutletReady True, OutletPending]
     ((conn_pool_new 1)\<lparr>cp_queue := [sample_particle 1 2, sample_particle 3 4]\<rparr>)) = [sample_particle 1 2]"
  using queue_is_fifo [of "[OutletReady True, OutletPending]"
      "(conn_pool_new 1)\<lparr>cp_queue := [sample_particle 1 2, sample_particle 3 4]\<rparr>" 0]
  by (simp add: conn_pool_new_def)

end
