(* ===== verification/Wire.thy ===== *)
theory Wire
  imports Builtin_Ops Connection_Pool
begin

section \<open>The particle protocol on the wire\<close>

text \<open>
  \<^verbatim>\<open>particle-protocol/src/libp2p_protocol/upgrade.rs\<close>: how a message of a handler becomes bytes on a substream and how
  the other side reads it; with the serializers it uses, \<^verbatim>\<open>crates/libp2p/src/serde.rs\<close> and
  \<^verbatim>\<open>crates/json-utils/src/base64_serde.rs\<close>, and the serde representation of \<^verbatim>\<open>Particle\<close> and \<^verbatim>\<open>ProtocolMessage\<close>.

  \<^item> The text of JSON, base58, base64 and the length prefix are functions of other crates and a parameter
    (\<open>wire_codec\<close>). A derived deserializer reads objects, takes each of its fields exactly once, refuses a missing or
    repeated one and ignores others; the positional form of a struct as an array is left out.
  \<^item> A socket is what it does with the bytes: it fails with an error or delivers them (\<open>socket\<close>).
\<close>

subsection \<open>Codecs\<close>

record wire_codec =
  wc_to_base58 :: "peer_id \<Rightarrow> string"
  wc_peer_from_str :: "string \<Rightarrow> peer_id option"
  wc_base64 :: "bytes \<Rightarrow> string"
  wc_base64_decode :: "string \<Rightarrow> bytes option"
  wc_json_text :: "jvalue \<Rightarrow> bytes"
  wc_json_parse :: "bytes \<Rightarrow> jvalue option"
  wc_write_prefixed :: "bytes \<Rightarrow> bytes"
  wc_read_prefixed :: "nat \<Rightarrow> bytes \<Rightarrow> string + bytes"
  wc_tagged_null :: "jvalue option"
  wc_addr_json :: "multiaddr \<Rightarrow> jvalue"
  wc_addr_of_json :: "jvalue \<Rightarrow> multiaddr option"

definition peerid_serialize :: "wire_codec \<Rightarrow> peer_id \<Rightarrow> jvalue" where
  "peerid_serialize C p = JString (wc_to_base58 C p)"

definition peerid_deserialize :: "wire_codec \<Rightarrow> jvalue \<Rightarrow> peer_id option" where
  "peerid_deserialize C v = Option.bind (de_string v) (wc_peer_from_str C)"

definition base64_serialize :: "wire_codec \<Rightarrow> bytes \<Rightarrow> jvalue" where
  "base64_serialize C b = JString (wc_base64 C b)"

definition base64_deserialize :: "wire_codec \<Rightarrow> jvalue \<Rightarrow> bytes option" where
  "base64_deserialize C v = Option.bind (de_string v) (wc_base64_decode C)"

text \<open>\<^verbatim>\<open>provider_serializer\<close>: addresses and peers alternate in one array.\<close>

fun providers_elements :: "wire_codec \<Rightarrow> (multiaddr \<times> peer_id) list \<Rightarrow> jvalue list" where
  "providers_elements C [] = []"
| "providers_elements C ((a, p) # ps) = wc_addr_json C a # JString (wc_to_base58 C p) # providers_elements C ps"

definition providers_serialize :: "wire_codec \<Rightarrow> (multiaddr \<times> peer_id) list \<Rightarrow> jvalue" where
  "providers_serialize C ps = JArray (providers_elements C ps)"

fun visit_providers :: "wire_codec \<Rightarrow> jvalue list \<Rightarrow> (multiaddr \<times> peer_id) list option" where
  "visit_providers C [] = Some []"
| "visit_providers C [v] = None"
| "visit_providers C (v # w # vs) =
     Option.bind (wc_addr_of_json C v) (\<lambda>a.
     Option.bind (Option.bind (de_string w) (wc_peer_from_str C)) (\<lambda>p.
     map_option (Cons (a, p)) (visit_providers C vs)))"

fun providers_deserialize :: "wire_codec \<Rightarrow> jvalue \<Rightarrow> (multiaddr \<times> peer_id) list option" where
  "providers_deserialize C (JArray vs) = visit_providers C vs"
| "providers_deserialize C _ = None"

subsection \<open>Particles and messages as JSON\<close>

definition particle_fields :: "wire_codec \<Rightarrow> particle \<Rightarrow> (string \<times> jvalue) list" where
  "particle_fields C p =
     [(''id'', JString (pt_id p)), (''init_peer_id'', peerid_serialize C (pt_init_peer_id p)),
      (''timestamp'', JInt (uint (pt_timestamp p))), (''ttl'', JInt (uint (pt_ttl p))), (''script'', JString (pt_script p)),
      (''signature'', json_bytes (pt_signature p)), (''data'', base64_serialize C (pt_data p))]"

text \<open>A field is read if it occurs exactly once.\<close>

definition de_field :: "string \<Rightarrow> (jvalue \<Rightarrow> 'a option) \<Rightarrow> (string \<times> jvalue) list \<Rightarrow> 'a option" where
  "de_field name de fs = (case filter (\<lambda>(k, v). k = name) fs of [(k, v)] \<Rightarrow> de v | _ \<Rightarrow> None)"

definition de_particle :: "wire_codec \<Rightarrow> (string \<times> jvalue) list \<Rightarrow> particle option" where
  "de_particle C fs =
     Option.bind (de_field ''id'' de_string fs) (\<lambda>i.
     Option.bind (de_field ''init_peer_id'' (peerid_deserialize C) fs) (\<lambda>peer.
     Option.bind (de_field ''timestamp'' de_u64 fs) (\<lambda>timestamp.
     Option.bind (de_field ''ttl'' de_u32 fs) (\<lambda>ttl.
     Option.bind (de_field ''script'' de_string fs) (\<lambda>script.
     Option.bind (de_field ''signature'' de_bytes fs) (\<lambda>signature.
     Option.bind (de_field ''data'' (base64_deserialize C) fs) (\<lambda>data.
       Some \<lparr>pt_id = i, pt_init_peer_id = peer, pt_timestamp = word_of_nat timestamp, pt_ttl = word_of_nat ttl,
         pt_script = script, pt_signature = signature, pt_data = data\<rparr>)))))))"

text \<open>Internally tagged: the tag becomes a field of the object. What is not an object cannot carry a tag.\<close>

definition tagged :: "string \<Rightarrow> (string \<times> jvalue) list \<Rightarrow> jvalue" where
  "tagged name fs = JObject ((''action'', JString name) # fs)"

fun protocol_message_json :: "wire_codec \<Rightarrow> jvalue protocol_message \<Rightarrow> jvalue option" where
  "protocol_message_json C (ParticleMessage p) = Some (tagged ''Particle'' (particle_fields C p))"
| "protocol_message_json C (InboundUpgradeError e) =
     (case e of JObject fs \<Rightarrow> Some (tagged ''InboundUpgradeError'' fs) | JNull \<Rightarrow> wc_tagged_null C | _ \<Rightarrow> None)"
| "protocol_message_json C Upgrade = Some (tagged ''Upgrade'' [])"

fun de_protocol_message :: "wire_codec \<Rightarrow> jvalue \<Rightarrow> jvalue protocol_message option" where
  "de_protocol_message C (JObject fs) =
     Option.bind (de_field ''action'' de_string fs) (\<lambda>tag.
       let rest = filter (\<lambda>(k, v). k \<noteq> ''action'') fs in
       if tag = ''Particle'' then map_option ParticleMessage (de_particle C rest)
       else if tag = ''InboundUpgradeError'' then Some (InboundUpgradeError (JObject (fold (\<lambda>(k, v). AList.update k v) rest [])))
       else if tag = ''Upgrade'' then Some Upgrade
       else None)"
| "de_protocol_message C _ = None"

subsection \<open>Upgrades\<close>

record protocol_config =
  upgrade_timeout :: duration
  keep_alive_timeout :: duration
  outbound_substream_timeout :: duration

text \<open>The defaults, in milliseconds.\<close>

definition protocol_config_default :: protocol_config where
  "protocol_config_default = \<lparr>upgrade_timeout = 10000, keep_alive_timeout = 10000, outbound_substream_timeout = 10000\<rparr>"

definition MAX_BUF_SIZE :: nat where
  "MAX_BUF_SIZE = 100 * 1024 * 1024"

datatype inbound_error = ReadError string | UnableToDeserialize bytes

definition upgrade_inbound :: "wire_codec \<Rightarrow> bytes \<Rightarrow> inbound_error + jvalue handler_message" where
  "upgrade_inbound C received =
     (case wc_read_prefixed C MAX_BUF_SIZE received of
        Inl e \<Rightarrow> Inl (ReadError e)
      | Inr decoded \<Rightarrow>
          (case Option.bind (wc_json_parse C decoded) (de_protocol_message C) of
             None \<Rightarrow> Inl (UnableToDeserialize decoded)
           | Some msg \<Rightarrow> Inr (from_protocol_message msg)))"

type_synonym socket = "bytes \<Rightarrow> string option"

text \<open>What is written, and the answer to the completion channel; \<open>None\<close> is the panic on a message that is never sent.\<close>

definition write_message :: "wire_codec \<Rightarrow> socket \<Rightarrow> jvalue protocol_message \<Rightarrow> string + bytes" where
  "write_message C sock msg =
     (case protocol_message_json C msg of
        None \<Rightarrow> Inl ''serialization failed''
      | Some v \<Rightarrow>
          (let sent = wc_write_prefixed C (wc_json_text C v)
           in case sock sent of Some e \<Rightarrow> Inl e | None \<Rightarrow> Inr sent))"

fun write_status :: "string + bytes \<Rightarrow> send_status" where
  "write_status (Inr _) = SendOk"
| "write_status (Inl e) = ProtocolError e"

definition upgrade_outbound ::
    "wire_codec \<Rightarrow> socket \<Rightarrow> jvalue handler_message \<Rightarrow> ((string + bytes) \<times> (outlet \<times> send_status) option) option" where
  "upgrade_outbound C sock m =
     map_option (\<lambda>(msg, channel).
       (let result = write_message C sock msg in (result, map_option (\<lambda>out. (out, write_status result)) channel)))
       (into_protocol_message m)"

text \<open>A transmission: the sender writes, the receiver reads what was delivered and its connection pool gets the message.\<close>

definition transmit ::
    "wire_codec \<Rightarrow> socket \<Rightarrow> jvalue handler_message \<Rightarrow> conn_pool \<Rightarrow> ((outlet \<times> send_status) option \<times> conn_pool) option" where
  "transmit C sock m receiver =
     (case upgrade_outbound C sock m of
        None \<Rightarrow> None
      | Some (Inl e, answer) \<Rightarrow> Some (answer, receiver)
      | Some (Inr sent, answer) \<Rightarrow>
          (case upgrade_inbound C sent of
             Inl e \<Rightarrow> Some (answer, receiver)
           | Inr received \<Rightarrow> map_option (Pair answer) (inject_event received receiver)))"


subsection \<open>Properties\<close>

text \<open>What is assumed of the codecs for one particle, and of the length prefix.\<close>

definition particle_text :: "wire_codec \<Rightarrow> particle \<Rightarrow> bytes" where
  "particle_text C p = wc_json_text C (tagged ''Particle'' (particle_fields C p))"

definition codec_carries :: "wire_codec \<Rightarrow> particle \<Rightarrow> bool" where
  "codec_carries C p \<longleftrightarrow> wc_peer_from_str C (wc_to_base58 C (pt_init_peer_id p)) = Some (pt_init_peer_id p) \<and>
     wc_base64_decode C (wc_base64 C (pt_data p)) = Some (pt_data p) \<and>
     wc_json_parse C (particle_text C p) = Some (tagged ''Particle'' (particle_fields C p))"

definition prefix_works :: "wire_codec \<Rightarrow> bool" where
  "prefix_works C \<longleftrightarrow> (\<forall>max b. if length b \<le> max then wc_read_prefixed C max (wc_write_prefixed C b) = Inr b
     else \<exists>e. wc_read_prefixed C max (wc_write_prefixed C b) = Inl e)"

lemma de_particle_fields:
  assumes "codec_carries C p"
  shows "de_particle C (particle_fields C p) = Some p"
  using assms uint_bounded [of "pt_timestamp p"] uint_bounded [of "pt_ttl p"]
  by (simp add: de_particle_def particle_fields_def de_field_def codec_carries_def peerid_serialize_def peerid_deserialize_def
      base64_serialize_def base64_deserialize_def)

lemma de_tagged_particle:
  assumes "codec_carries C p"
  shows "de_protocol_message C (tagged ''Particle'' (particle_fields C p)) = Some (ParticleMessage p)"
proof -
  have "filter (\<lambda>(k, v). k \<noteq> ''action'') (particle_fields C p) = particle_fields C p"
    "filter (\<lambda>(k, v). k = ''action'') (particle_fields C p) = []"
    by (simp_all add: particle_fields_def)
  with de_particle_fields [OF assms] show ?thesis by (simp add: tagged_def de_field_def Let_def)
qed

lemma outbound_particle:
  "upgrade_outbound C sock (OutParticle p ch) =
     (let sent = wc_write_prefixed C (particle_text C p); result = (case sock sent of Some e \<Rightarrow> Inl e | None \<Rightarrow> Inr sent)
      in Some (result, map_option (\<lambda>out. (out, write_status result)) (channel_outlet ch)))"
  by (simp add: upgrade_outbound_def write_message_def particle_text_def Let_def)

lemma inbound_never_panics: "upgrade_inbound C b = Inr m \<Longrightarrow> \<exists>st'. inject_event m st = Some st'"
proof -
  have "\<exists>st'. inject_event (from_protocol_message msg) st = Some st'" for msg :: "jvalue protocol_message"
    by (cases msg) simp_all
  then show "upgrade_inbound C b = Inr m \<Longrightarrow> \<exists>st'. inject_event m st = Some st'"
    by (auto simp: upgrade_inbound_def split: sum.splits option.splits)
qed

text \<open>C12 [particle_crosses_wire]: A particle whose message fits the receiver's buffer is at the end of the receiver's queue after a
  transmission over a working socket, exactly as it was sent, and the sender is told of the success. A message that does not
  fit is lost, although the sender is told the same.\<close>

theorem particle_crosses_wire:
  assumes "codec_carries C p" and "prefix_works C" and "sock (wc_write_prefixed C (particle_text C p)) = None"
  shows "transmit C sock (OutParticle p ch) receiver =
    Some (map_option (\<lambda>out. (out, SendOk)) (channel_outlet ch),
      if length (particle_text C p) \<le> MAX_BUF_SIZE then receiver\<lparr>cp_queue := cp_queue receiver @ [p]\<rparr> else receiver)"
proof (cases "length (particle_text C p) \<le> MAX_BUF_SIZE")
  case True
  with assms(2) have "wc_read_prefixed C MAX_BUF_SIZE (wc_write_prefixed C (particle_text C p)) = Inr (particle_text C p)"
    unfolding prefix_works_def by metis
  then have "upgrade_inbound C (wc_write_prefixed C (particle_text C p)) = Inr (InParticle p)"
    using assms(1) de_tagged_particle [OF assms(1)] by (simp add: upgrade_inbound_def codec_carries_def)
  with True assms(3) show ?thesis by (simp add: transmit_def outbound_particle Let_def)
next
  case False
  with assms(2) obtain e where "wc_read_prefixed C MAX_BUF_SIZE (wc_write_prefixed C (particle_text C p)) = Inl e"
    unfolding prefix_works_def by metis
  with False assms(3) show ?thesis by (simp add: transmit_def outbound_particle upgrade_inbound_def Let_def)
qed


text \<open>[providers_roundtrip]: A list of providers is read back from its alternating array; an array of odd length is refused.\<close>

theorem providers_roundtrip:
  assumes "\<forall>p. wc_peer_from_str C (wc_to_base58 C p) = Some p" and "\<forall>a. wc_addr_of_json C (wc_addr_json C a) = Some a"
  shows "providers_deserialize C (providers_serialize C ps) = Some ps \<and>
    (odd (length vs) \<longrightarrow> providers_deserialize C (JArray vs) = None)"
proof -
  have "visit_providers C (providers_elements C ps) = Some ps" using assms by (induction ps) auto
  moreover have "odd (length vs) \<Longrightarrow> visit_providers C vs = None"
  proof (induction C vs rule: visit_providers.induct)
    case (3 C v w vs)
    then show ?case by (auto split: option.splits simp: Option.bind_eq_None_conv) (metis not_Some_eq)
  qed simp_all
  ultimately show ?thesis by (simp add: providers_serialize_def)
qed


subsection \<open>Samples\<close>

definition sample_wire :: "particle \<Rightarrow> wire_codec" where
  "sample_wire p =
     \<lparr>wc_to_base58 = show_nat, wc_peer_from_str = (\<lambda>s. Some (read_nat s)), wc_base64 = byte_string, wc_base64_decode = Some \<circ> string_bytes,
      wc_json_text = (\<lambda>v. [1]),
      wc_json_parse = (\<lambda>b. Some (tagged ''Particle''
        [(''id'', JString (pt_id p)), (''init_peer_id'', JString (show_nat (pt_init_peer_id p))),
         (''timestamp'', JInt (uint (pt_timestamp p))), (''ttl'', JInt (uint (pt_ttl p))), (''script'', JString (pt_script p)),
         (''signature'', json_bytes (pt_signature p)), (''data'', JString (byte_string (pt_data p)))])),
      wc_write_prefixed = (\<lambda>b. b), wc_read_prefixed = (\<lambda>max b. if length b \<le> max then Inr b else Inl ''too big''),
      wc_tagged_null = None, wc_addr_json = (\<lambda>a. JInt (int a)), wc_addr_of_json = (\<lambda>v. case v of JInt n \<Rightarrow> Some (nat n) | _ \<Rightarrow> None)\<rparr>"

lemma sample_wire_works: "codec_carries (sample_wire p) p" "prefix_works (sample_wire p)"
  by (simp_all add: codec_carries_def prefix_works_def sample_wire_def particle_text_def particle_fields_def peerid_serialize_def
      base64_serialize_def)

theorem particle_crosses_wire_witness:
  "transmit (sample_wire (sample_particle 1 2)) (\<lambda>_. None) (OutParticle (sample_particle 1 2) (Oneshot 3)) (conn_pool_new 7) =
     Some (Some (3, SendOk), (conn_pool_new 7)\<lparr>cp_queue := [sample_particle 1 2]\<rparr>)"
proof -
  have "length (particle_text (sample_wire (sample_particle 1 2)) (sample_particle 1 2)) \<le> MAX_BUF_SIZE"
    by (simp add: particle_text_def sample_wire_def MAX_BUF_SIZE_def)
  moreover have "cp_queue (conn_pool_new 7) = []" by (simp add: conn_pool_new_def)
  ultimately show ?thesis
    using particle_crosses_wire [OF sample_wire_works(1) sample_wire_works(2), where sock = "\<lambda>_. None" and p = "sample_particle 1 2"
        and ch = "Oneshot 3" and receiver = "conn_pool_new 7"] by simp
qed

theorem providers_roundtrip_witness:
  "providers_deserialize (sample_wire (sample_particle 1 2)) (providers_serialize (sample_wire (sample_particle 1 2)) [(5, 6), (7, 8)]) = Some [(5, 6), (7, 8)]"
  using providers_roundtrip [of "sample_wire (sample_particle 1 2)"] by (simp add: sample_wire_def)

end
