(* ===== verification/Client.thy ===== *)
theory Client
  imports Deployer Wire
begin

section \<open>Clients of a node\<close>

text \<open>
  \<^verbatim>\<open>crates/local-vm/src/local_vm.rs\<close> (how a client makes and reads particles), \<^verbatim>\<open>crates/connected-client/src/{client,
  behaviour,event,api,connected_client}.rs\<close> (its link to a node) and \<^verbatim>\<open>crates/toy-vms/src/easy_vm.rs\<close>.

  \<^item> The interpreter is the parameter \<open>runtime_api\<close> of the executor; a loop that may not return has option type.
    A panic of an \<^verbatim>\<open>expect\<close> is \<open>Inl\<close> of its text.
  \<^item> \<^verbatim>\<open>libp2p\<close>'s ping is a parameter (\<open>ping_api\<close>); what the swarm does with an action of the behaviour is in the
    output of a step. The wait before a reconnection starts when it is first polled.
  \<^item> What arrives at a client is a list of events with the time of their arrival, and whether the sending side is gone
    after them. Times are in milliseconds.
\<close>

subsection \<open>Answering the calls of a local runtime\<close>

definition host_call :: "render \<Rightarrow> (string \<times> jvalue) list \<Rightarrow> args \<Rightarrow> call_service_result \<times> returned" where
  "host_call render data a =
     (let (outcome, returned) = client_functions data a
      in (case outcome_result outcome of
            Inr v \<Rightarrow> \<lparr>ret_code = 0, call_result = v\<rparr>
          | Inl err \<Rightarrow> \<lparr>ret_code = 1, call_result = jerror_value render err\<rparr>, returned))"

fun answer_calls ::
    "render \<Rightarrow> (string \<times> jvalue) list \<Rightarrow> call_requests \<Rightarrow> call_results \<Rightarrow> string + call_results" where
  "answer_calls render data [] rs = Inr rs"
| "answer_calls render data ((i, c) # cs) rs =
     (case args_try_from c of
        Inl _ \<Rightarrow> Inl ''valid args''
      | Inr a \<Rightarrow> answer_calls render data cs (AList.update i (fst (host_call render data a)) rs))"

text \<open>Reading stops at the first call that returns something; \<open>Inr (Inl r)\<close> is that.\<close>

fun answer_until_returned ::
    "render \<Rightarrow> call_requests \<Rightarrow> call_results \<Rightarrow> string + ((jvalue list + jvalue list) + call_results)" where
  "answer_until_returned render [] rs = Inr (Inr rs)"
| "answer_until_returned render ((i, c) # cs) rs =
     (case args_try_from c of
        Inl _ \<Rightarrow> Inl ''valid args''
      | Inr a \<Rightarrow>
          (let (result, returned) = host_call render [] a; rs' = AList.update i result rs
           in case returned of Some r \<Rightarrow> Inr (Inl r) | None \<Rightarrow> answer_until_returned render cs rs'))"

subsection \<open>Making and reading a particle\<close>

partial_function (option) make_loop ::
    "('rt, 'e) runtime_api \<Rightarrow> render \<Rightarrow> (string \<times> jvalue) list \<Rightarrow> string \<Rightarrow> particle_parameters \<Rightarrow> bytes \<Rightarrow>
     call_results \<Rightarrow> 'rt \<Rightarrow> ((string + bytes) \<times> 'rt) option" where
  "make_loop R render service_in script params particle_data results vm =
     (case rt_call R vm script particle_data params results of
        (Inl _, vm') \<Rightarrow> Some (Inl ''execute & make particle'', vm')
      | (Inr out, vm') \<Rightarrow>
          if avm_call_requests out = [] then Some (Inr (avm_data out), vm')
          else (case answer_calls render service_in (avm_call_requests out) [] of
                  Inl e \<Rightarrow> Some (Inl e, vm')
                | Inr rs \<Rightarrow> make_loop R render service_in script params (avm_data out) rs vm'))"

definition make_particle ::
    "('rt, 'e) runtime_api \<Rightarrow> render \<Rightarrow> string \<Rightarrow> u64 \<Rightarrow> peer_id \<Rightarrow> (string \<times> jvalue) list \<Rightarrow> string \<Rightarrow>
     peer_id option \<Rightarrow> bool \<Rightarrow> duration \<Rightarrow> 'rt \<Rightarrow> ((string + particle) \<times> 'rt) option" where
  "make_particle R render uuid now_ms peer service_in script relay generated particle_ttl vm =
     (case wrap_script script service_in (map_option (rt_peer_to_string R) relay) generated None of
        None \<Rightarrow> Some (Inl ''Didn't expect instruction'', vm)
      | Some script \<Rightarrow>
          (let ttl = word_of_nat particle_ttl :: u32;
               params = \<lparr>pm_current_peer_id = rt_peer_to_string R peer, pm_init_peer_id = rt_peer_to_string R peer,
                         pm_particle_id = uuid, pm_timestamp = now_ms, pm_ttl = ttl\<rparr>
           in map_option (map_prod (map_sum id (\<lambda>data.
                \<lparr>pt_id = uuid, pt_init_peer_id = peer, pt_timestamp = now_ms, pt_ttl = ttl, pt_script = script,
                 pt_signature = [], pt_data = data\<rparr>)) id)
                (make_loop R render service_in script params [] [] vm)))"

partial_function (option) read_loop ::
    "('rt, 'e) runtime_api \<Rightarrow> render \<Rightarrow> string \<Rightarrow> particle_parameters \<Rightarrow> bytes \<Rightarrow> call_results \<Rightarrow> 'rt \<Rightarrow>
     ((string + returned) \<times> 'rt) option" where
  "read_loop R render script params particle_data results vm =
     (case rt_call R vm script particle_data params results of
        (Inl _, vm') \<Rightarrow> Some (Inl ''execute & make particle'', vm')
      | (Inr out, vm') \<Rightarrow>
          if avm_call_requests out = [] then Some (Inr None, vm')
          else (case answer_until_returned render (avm_call_requests out) [] of
                  Inl e \<Rightarrow> Some (Inl e, vm')
                | Inr (Inl r) \<Rightarrow> Some (Inr (Some r), vm')
                | Inr (Inr rs) \<Rightarrow> read_loop R render script params (avm_data out) rs vm'))"

definition read_args ::
    "('rt, 'e) runtime_api \<Rightarrow> render \<Rightarrow> particle \<Rightarrow> peer_id \<Rightarrow> 'rt \<Rightarrow> ((string + returned) \<times> 'rt) option" where
  "read_args R render p peer vm =
     read_loop R render (pt_script p)
       \<lparr>pm_current_peer_id = rt_peer_to_string R peer, pm_init_peer_id = rt_peer_to_string R (pt_init_peer_id p),
        pm_particle_id = pt_id p, pm_timestamp = pt_timestamp p, pm_ttl = pt_ttl p\<rparr> (pt_data p) [] vm"

subsection \<open>The client's network behaviour\<close>

datatype client_event = ParticleEvent peer_id particle | NewConnection peer_id multiaddr

datatype client_action =
    NotifyAny peer_id "jvalue handler_message"
  | GenerateClientEvent client_event
  | DialAddress multiaddr

record ('p, 'r) ping_api =
  pg_inject_event :: "peer_id \<Rightarrow> nat \<Rightarrow> 'r \<Rightarrow> 'p \<Rightarrow> 'p"
  pg_poll :: "instant \<Rightarrow> 'p \<Rightarrow> bool \<times> 'p"

datatype reconnection = NotPolled "multiaddr list" | Sleeping instant "multiaddr list"

record 'p client_behaviour =
  clb_protocol_config :: protocol_config
  clb_events :: "client_action list"
  clb_ping :: 'p
  clb_reconnect :: "reconnection option"
  clb_waker :: bool
  clb_woken :: bool

definition client_behaviour_new :: "'p \<Rightarrow> protocol_config \<Rightarrow> 'p client_behaviour" where
  "client_behaviour_new pg cfg = \<lparr>clb_protocol_config = cfg, clb_events = [], clb_ping = pg, clb_reconnect = None,
     clb_waker = False, clb_woken = False\<rparr>"

definition clb_push :: "client_action \<Rightarrow> 'p client_behaviour \<Rightarrow> 'p client_behaviour" where
  "clb_push a b = b\<lparr>clb_events := clb_events b @ [a]\<rparr>"

definition clb_wake :: "'p client_behaviour \<Rightarrow> 'p client_behaviour" where
  "clb_wake b = (if clb_waker b then b\<lparr>clb_woken := True\<rparr> else b)"

definition client_call :: "peer_id \<Rightarrow> particle \<Rightarrow> 'p client_behaviour \<Rightarrow> 'p client_behaviour" where
  "client_call peer p b = clb_wake (clb_push (NotifyAny peer (OutParticle p Ignore)) b)"

datatype connected_point = Dialer multiaddr | Listener multiaddr multiaddr \<comment> \<open>send-back and local address\<close>

fun point_address :: "connected_point \<Rightarrow> multiaddr" where
  "point_address (Dialer a) = a"
| "point_address (Listener send_back _) = send_back"

definition client_connection_established :: "peer_id \<Rightarrow> connected_point \<Rightarrow> 'p client_behaviour \<Rightarrow> 'p client_behaviour" where
  "client_connection_established peer cp b = clb_push (GenerateClientEvent (NewConnection peer (point_address cp))) b"

definition client_connection_closed :: "connected_point \<Rightarrow> nat \<Rightarrow> 'p client_behaviour \<Rightarrow> 'p client_behaviour" where
  "client_connection_closed cp remaining b =
     (if remaining \<noteq> 0 then b
      else case cp of Dialer a \<Rightarrow> clb_push (DialAddress a) b | Listener _ _ \<Rightarrow> b)"

fun client_inject_event ::
    "('p, 'r) ping_api \<Rightarrow> peer_id \<Rightarrow> nat \<Rightarrow> jvalue handler_message + 'r \<Rightarrow> 'p client_behaviour \<Rightarrow> 'p client_behaviour" where
  "client_inject_event P peer cid (Inl (InParticle p)) b = clb_push (GenerateClientEvent (ParticleEvent peer p)) b"
| "client_inject_event P peer cid (Inr res) b = b\<lparr>clb_ping := pg_inject_event P peer cid res (clb_ping b)\<rparr>"
| "client_inject_event P peer cid (Inl _) b = b"

definition client_dial_failure :: "dial_error \<Rightarrow> 'p client_behaviour \<Rightarrow> 'p client_behaviour" where
  "client_dial_failure err b =
     (case err of Transport addrs \<Rightarrow> b\<lparr>clb_reconnect := Some (NotPolled addrs)\<rparr> | _ \<Rightarrow> b)"

partial_function (option) ping_drain :: "('p, 'r) ping_api \<Rightarrow> instant \<Rightarrow> 'p \<Rightarrow> 'p option" where
  "ping_drain P now pg =
     (case pg_poll P now pg of (ready, pg') \<Rightarrow> if ready then ping_drain P now pg' else Some pg')"

definition RECONNECT_DELAY :: duration where
  "RECONNECT_DELAY = 1000"

definition poll_reconnect :: "instant \<Rightarrow> 'p client_behaviour \<Rightarrow> 'p client_behaviour" where
  "poll_reconnect now b =
     (case clb_reconnect b of
        None \<Rightarrow> b
      | Some (NotPolled addrs) \<Rightarrow> b\<lparr>clb_reconnect := Some (Sleeping (now + RECONNECT_DELAY) addrs)\<rparr>
      | Some (Sleeping until addrs) \<Rightarrow>
          if now < until then b else fold (clb_push \<circ> DialAddress) addrs (b\<lparr>clb_reconnect := None\<rparr>))"

definition clb_pop_event :: "'p client_behaviour \<Rightarrow> client_action option \<times> 'p client_behaviour" where
  "clb_pop_event b = (case clb_events b of [] \<Rightarrow> (None, b) | e # es \<Rightarrow> (Some e, b\<lparr>clb_events := es\<rparr>))"

definition client_poll ::
    "('p, 'r) ping_api \<Rightarrow> instant \<Rightarrow> 'p client_behaviour \<Rightarrow> (client_action option \<times> 'p client_behaviour) option" where
  "client_poll P now b =
     (let b = b\<lparr>clb_waker := True, clb_woken := False\<rparr>
      in map_option (\<lambda>pg. clb_pop_event (poll_reconnect now (b\<lparr>clb_ping := pg\<rparr>))) (ping_drain P now (clb_ping b)))"

subsection \<open>A client and its task\<close>

text \<open>The handle of the client (the two ends of its channels) and the task that owns the swarm.\<close>

record 'p client_link =
  lk_client :: bool
  lk_task :: bool
  lk_relay :: "(peer_id \<times> particle) list"
  lk_inbox :: "client_event list"
  lk_behaviour :: "'p client_behaviour"

text \<open>\<^verbatim>\<open>Client::new\<close>: the key given or a generated one, and its peer.\<close>

definition client_identity :: "'kp \<Rightarrow> ('kp \<Rightarrow> peer_id) \<Rightarrow> 'kp option \<Rightarrow> 'kp \<times> peer_id" where
  "client_identity generated peer_of key_pair =
     (let key = (case key_pair of Some k \<Rightarrow> k | None \<Rightarrow> generated) in (key, peer_of key))"

definition client_protocol_config :: "duration \<Rightarrow> protocol_config" where
  "client_protocol_config transport_timeout =
     \<lparr>upgrade_timeout = transport_timeout, keep_alive_timeout = 10000, outbound_substream_timeout = transport_timeout\<rparr>"

definition connect_with :: "'p \<Rightarrow> duration \<Rightarrow> string + unit \<Rightarrow> string + 'p client_link" where
  "connect_with pg transport_timeout dialed =
     (case dialed of
        Inl e \<Rightarrow> Inl e
      | Inr _ \<Rightarrow> Inr \<lparr>lk_client = True, lk_task = True, lk_relay = [], lk_inbox = [],
          lk_behaviour = client_behaviour_new pg (client_protocol_config transport_timeout)\<rparr>)"

definition link_send :: "peer_id \<Rightarrow> particle \<Rightarrow> 'p client_link \<Rightarrow> 'p client_link" where
  "link_send node p lk = (if lk_task lk then lk\<lparr>lk_relay := lk_relay lk @ [(node, p)]\<rparr> else lk)"

definition link_receive_one :: "'p client_link \<Rightarrow> client_event option \<times> 'p client_link" where
  "link_receive_one lk = (case lk_inbox lk of [] \<Rightarrow> (None, lk) | e # es \<Rightarrow> (Some e, lk\<lparr>lk_inbox := es\<rparr>))"

definition send_to_node :: "peer_id \<times> particle \<Rightarrow> 'p client_behaviour \<Rightarrow> 'p client_behaviour" where
  "send_to_node cmd b = client_call (fst cmd) (snd cmd) b"

text \<open>An event of the behaviour goes to the client; other events of the swarm are dropped.\<close>

definition receive_from_node :: "client_event option \<Rightarrow> 'p client_link \<Rightarrow> 'p client_link" where
  "receive_from_node msg lk =
     (case msg of
        Some e \<Rightarrow> if lk_client lk then lk\<lparr>lk_inbox := lk_inbox lk @ [e]\<rparr> else lk
      | None \<Rightarrow> lk)"

datatype 'r link_input =
    SendCmd peer_id particle
  | ReceiveOne
  | StopClient
  | TakeRelay
  | PollSwarm instant
  | OtherSwarmEvent
  | TakeStop
  | Established peer_id connected_point
  | ClosedConnection connected_point nat
  | HandlerEvent peer_id nat "jvalue handler_message + 'r"
  | DialFailed dial_error

text \<open>What leaves: actions the swarm carries out, and events the client's owner takes.\<close>

datatype link_output = SwarmAction client_action | Taken client_event

definition on_behaviour :: "('p client_behaviour \<Rightarrow> 'p client_behaviour) \<Rightarrow> 'p client_link \<Rightarrow> 'p client_link" where
  "on_behaviour f lk = (if lk_task lk then lk\<lparr>lk_behaviour := f (lk_behaviour lk)\<rparr> else lk)"

definition poll_swarm ::
    "('p, 'r) ping_api \<Rightarrow> instant \<Rightarrow> 'p client_link \<Rightarrow> (link_output list \<times> 'p client_link) option" where
  "poll_swarm P now lk =
     map_option (\<lambda>(action, b). let lk = lk\<lparr>lk_behaviour := b\<rparr> in
       case action of
         None \<Rightarrow> ([], lk)
       | Some (GenerateClientEvent e) \<Rightarrow> ([], receive_from_node (Some e) lk)
       | Some a \<Rightarrow> ([SwarmAction a], lk)) (client_poll P now (lk_behaviour lk))"

fun link_step ::
    "('p, 'r) ping_api \<Rightarrow> 'r link_input \<Rightarrow> 'p client_link \<Rightarrow> (link_output list \<times> 'p client_link) option" where
  "link_step P (SendCmd node p) lk = Some ([], if lk_client lk then link_send node p lk else lk)"
| "link_step P ReceiveOne lk =
     Some (if lk_client lk then
             (case link_receive_one lk of (Some e, lk') \<Rightarrow> ([Taken e], lk') | (None, lk') \<Rightarrow> ([], lk'))
           else ([], lk))"
| "link_step P StopClient lk = Some ([], lk\<lparr>lk_client := False\<rparr>)"
| "link_step P TakeRelay lk =
     Some ([], case lk_relay lk of
                 [] \<Rightarrow> lk
               | c # cs \<Rightarrow> if lk_task lk then on_behaviour (send_to_node c) (lk\<lparr>lk_relay := cs\<rparr>) else lk)"
| "link_step P (PollSwarm now) lk = (if lk_task lk then poll_swarm P now lk else Some ([], lk))"
| "link_step P OtherSwarmEvent lk = Some ([], receive_from_node None lk)"
| "link_step P TakeStop lk = Some ([], if lk_client lk then lk else lk\<lparr>lk_task := False\<rparr>)"
| "link_step P (Established peer cp) lk = Some ([], on_behaviour (client_connection_established peer cp) lk)"
| "link_step P (ClosedConnection cp n) lk = Some ([], on_behaviour (client_connection_closed cp n) lk)"
| "link_step P (HandlerEvent peer cid ev) lk = Some ([], on_behaviour (client_inject_event P peer cid ev) lk)"
| "link_step P (DialFailed err) lk = Some ([], on_behaviour (client_dial_failure err) lk)"

fun link_run ::
    "('p, 'r) ping_api \<Rightarrow> 'r link_input list \<Rightarrow> 'p client_link \<Rightarrow> (link_output list \<times> 'p client_link) option" where
  "link_run P [] lk = Some ([], lk)"
| "link_run P (i # is) lk =
     Option.bind (link_step P i lk) (\<lambda>(outs, lk1). map_option (map_prod ((@) outs) id) (link_run P is lk1))"

subsection \<open>Connected clients\<close>

record client_inlet =
  in_arrivals :: "(instant \<times> client_event) list"
  in_closed :: bool

definition TIMEOUT :: "bool \<Rightarrow> duration" where
  "TIMEOUT debug_assertions = (if debug_assertions then 150000 else 15000)"

definition SHORT_TIMEOUT :: duration where
  "SHORT_TIMEOUT = 300"

definition KAD_TIMEOUT :: duration where
  "KAD_TIMEOUT = 500"

definition PARTICLE_TTL :: duration where
  "PARTICLE_TTL = 20000"

text \<open>The runtime of a client is made when it is first used.\<close>

record 'rt connected_client =
  cc_peer_id :: peer_id
  cc_node :: peer_id
  cc_node_address :: multiaddr
  cc_timeout :: duration
  cc_short_timeout :: duration
  cc_kad_timeout :: duration
  cc_local_vm :: "'rt option"
  cc_particle_ttl :: duration
  cc_relay :: "(peer_id \<times> particle) list"
  cc_inlet :: client_inlet

text \<open>\<open>ce_avm_new\<close> creates an interpreter from the directories for particle data, vaults and anomalies.\<close>

record ('rt, 'e) client_env =
  ce_runtime :: "('rt, 'e) runtime_api"
  ce_render :: render
  ce_avm_new :: "string \<Rightarrow> string \<Rightarrow> string \<Rightarrow> string + 'rt"
  ce_debug :: bool

datatype client_failure = Panicked string | Failed string

definition make_vm :: "('rt, 'e) client_env \<Rightarrow> peer_id \<Rightarrow> string + 'rt" where
  "make_vm E peer =
     (let store = ''/tmp/'' @ rt_peer_to_string (ce_runtime E) peer in
      case ce_avm_new E store (store @ ''/vault'') (store @ ''/anomalies'') of
        Inl _ \<Rightarrow> Inl ''vm should be created''
      | Inr vm \<Rightarrow> Inr vm)"

definition local_vm :: "('rt, 'e) client_env \<Rightarrow> 'rt connected_client \<Rightarrow> string + 'rt" where
  "local_vm E cc = (case cc_local_vm cc of Some vm \<Rightarrow> Inr vm | None \<Rightarrow> make_vm E (cc_peer_id cc))"

definition connected_client_new ::
    "('rt, 'e) client_env \<Rightarrow> peer_id \<Rightarrow> client_inlet \<Rightarrow> peer_id \<Rightarrow> multiaddr \<Rightarrow> duration option \<Rightarrow> 'rt connected_client" where
  "connected_client_new E self inlet node addr ttl =
     \<lparr>cc_peer_id = self, cc_node = node, cc_node_address = addr, cc_timeout = TIMEOUT (ce_debug E),
      cc_short_timeout = SHORT_TIMEOUT, cc_kad_timeout = KAD_TIMEOUT, cc_local_vm = None,
      cc_particle_ttl = (case ttl of Some t \<Rightarrow> t | None \<Rightarrow> PARTICLE_TTL), cc_relay = [], cc_inlet = inlet\<rparr>"

definition set_particle_ttl :: "duration \<Rightarrow> 'rt connected_client \<Rightarrow> 'rt connected_client" where
  "set_particle_ttl ttl cc = cc\<lparr>cc_particle_ttl := ttl\<rparr>"

text \<open>The next event: when it is there, the event or the end of the stream, and the rest; \<open>None\<close> is a wait without end.\<close>

definition receive_one :: "instant \<Rightarrow> client_inlet \<Rightarrow> (instant \<times> client_event option \<times> client_inlet) option" where
  "receive_one now inl =
     (case in_arrivals inl of
        (t, e) # rest \<Rightarrow> Some (max now t, Some e, inl\<lparr>in_arrivals := rest\<rparr>)
      | [] \<Rightarrow> if in_closed inl then Some (now, None, inl) else None)"

definition connect_with_timeout ::
    "('rt, 'e) client_env \<Rightarrow> string + unit \<Rightarrow> peer_id \<Rightarrow> multiaddr \<Rightarrow> duration option \<Rightarrow> instant \<Rightarrow> client_inlet \<Rightarrow>
     client_failure + 'rt connected_client" where
  "connect_with_timeout E dialed self addr ttl now inl =
     (case dialed of
        Inl _ \<Rightarrow> Inl (Panicked ''sender connected'')
      | Inr _ \<Rightarrow>
          (case receive_one now inl of
             None \<Rightarrow> Inl (Failed ''timed out'')
           | Some (t, event, inl') \<Rightarrow>
               if now + TIMEOUT (ce_debug E) < t then Inl (Failed ''timed out'')
               else (case event of
                       Some (NewConnection peer _) \<Rightarrow> Inr (connected_client_new E self inl' peer addr ttl)
                     | _ \<Rightarrow> Inl (Failed ''ConnectionAborted''))))"

definition cc_send :: "particle \<Rightarrow> 'rt connected_client \<Rightarrow> 'rt connected_client" where
  "cc_send p cc = cc\<lparr>cc_relay := cc_relay cc @ [(cc_node cc, p)]\<rparr>"

definition send_particle_ext ::
    "('rt, 'e) client_env \<Rightarrow> string \<Rightarrow> u64 \<Rightarrow> string \<Rightarrow> (string \<times> jvalue) list \<Rightarrow> bool \<Rightarrow> 'rt connected_client \<Rightarrow>
     ((string + string) \<times> 'rt connected_client) option" where
  "send_particle_ext E uuid now_ms script data generated cc =
     (case local_vm E cc of
        Inl e \<Rightarrow> Some (Inl e, cc)
      | Inr vm \<Rightarrow>
          map_option (\<lambda>(r, vm'). case r of
              Inl e \<Rightarrow> (Inl e, cc\<lparr>cc_local_vm := Some vm'\<rparr>)
            | Inr p \<Rightarrow> (Inr (pt_id p), cc_send p (cc\<lparr>cc_local_vm := Some vm'\<rparr>)))
            (make_particle (ce_runtime E) (ce_render E) uuid now_ms (cc_peer_id cc) data script (Some (cc_node cc))
               generated (cc_particle_ttl cc) vm))"

definition maybe_receive :: "instant \<Rightarrow> 'rt connected_client \<Rightarrow> particle option \<times> instant \<times> 'rt connected_client" where
  "maybe_receive now cc =
     (let deadline = now + cc_short_timeout cc in
      case receive_one now (cc_inlet cc) of
        None \<Rightarrow> (None, deadline, cc)
      | Some (t, event, inl) \<Rightarrow>
          if deadline < t then (None, deadline, cc)
          else (case event of Some (ParticleEvent _ p) \<Rightarrow> Some p | _ \<Rightarrow> None, t, cc\<lparr>cc_inlet := inl\<rparr>))"

partial_function (option) receive_loop ::
    "instant \<Rightarrow> instant \<Rightarrow> client_inlet \<Rightarrow> (particle option \<times> instant \<times> client_inlet) option" where
  "receive_loop deadline now inl =
     (case receive_one now inl of
        None \<Rightarrow> Some (None, deadline, inl)
      | Some (t, event, inl') \<Rightarrow>
          if deadline < t then Some (None, deadline, inl)
          else (case event of
                  Some (ParticleEvent _ p) \<Rightarrow> Some (Some p, t, inl')
                | _ \<Rightarrow> receive_loop deadline t inl'))"

definition receive ::
    "instant \<Rightarrow> 'rt connected_client \<Rightarrow> ((string + particle) \<times> instant \<times> 'rt connected_client) option" where
  "receive now cc =
     map_option (\<lambda>(r, t, inl). (case r of None \<Rightarrow> Inl ''receive particle'' | Some p \<Rightarrow> Inr p, t, cc\<lparr>cc_inlet := inl\<rparr>))
       (receive_loop (now + cc_timeout cc) now (cc_inlet cc))"

definition read_particle ::
    "('rt, 'e) client_env \<Rightarrow> particle \<Rightarrow> 'rt connected_client \<Rightarrow> ((string + returned) \<times> 'rt connected_client) option" where
  "read_particle E p cc =
     (case local_vm E cc of
        Inl e \<Rightarrow> Some (Inl e, cc)
      | Inr vm \<Rightarrow> map_option (map_prod id (\<lambda>vm'. cc\<lparr>cc_local_vm := Some vm'\<rparr>))
          (read_args (ce_runtime E) (ce_render E) p (cc_peer_id cc) vm))"

definition returned_result :: "jvalue list + jvalue list \<Rightarrow> client_failure + jvalue list" where
  "returned_result r = (case r of Inr vs \<Rightarrow> Inr vs | Inl _ \<Rightarrow> Inl (Failed ''AIR caught an error''))"

definition receive_args ::
    "('rt, 'e) client_env \<Rightarrow> instant \<Rightarrow> 'rt connected_client \<Rightarrow>
     ((client_failure + jvalue list) \<times> instant \<times> 'rt connected_client) option" where
  "receive_args E now cc =
     Option.bind (receive now cc) (\<lambda>(r, t, cc1).
       case r of
         Inl e \<Rightarrow> Some (Inl (Failed e), t, cc1)
       | Inr p \<Rightarrow>
           map_option (\<lambda>(r, cc2).
             (case r of
                Inl panic \<Rightarrow> Inl (Panicked panic)
              | Inr (Some result) \<Rightarrow> returned_result result
              | Inr None \<Rightarrow> Inl (Failed ''Received a particle, but it didn't return anything''), t, cc2))
             (read_particle E p cc1))"

function wait_args_loop ::
    "('rt, 'e) client_env \<Rightarrow> string \<Rightarrow> int \<Rightarrow> instant \<Rightarrow> 'rt connected_client \<Rightarrow>
     ((client_failure + jvalue list) \<times> instant \<times> 'rt connected_client) option" where
  "wait_args_loop E particle_id left now cc =
     (if left - 1 \<le> 0 then Some (Inl (Failed (''timed out waiting for particle '' @ particle_id)), now, cc)
      else (case receive now cc of
              None \<Rightarrow> None
            | Some (Inl _, t, cc1) \<Rightarrow> wait_args_loop E particle_id (left - 1) t cc1
            | Some (Inr p, t, cc1) \<Rightarrow>
                if pt_id p = particle_id then
                  (case read_particle E p cc1 of
                     None \<Rightarrow> None
                   | Some (Inl panic, cc2) \<Rightarrow> Some (Inl (Panicked panic), t, cc2)
                   | Some (Inr (Some result), cc2) \<Rightarrow> Some (returned_result result, t, cc2)
                   | Some (Inr None, cc2) \<Rightarrow> wait_args_loop E particle_id (left - 1) t cc2)
                else wait_args_loop E particle_id (left - 1) t cc1))"
  by pat_completeness auto
termination
  by (relation "measure (\<lambda>(E, particle_id, left, now, cc). nat left)") auto

definition wait_particle_args ::
    "('rt, 'e) client_env \<Rightarrow> string \<Rightarrow> instant \<Rightarrow> 'rt connected_client \<Rightarrow>
     ((client_failure + jvalue list) \<times> instant \<times> 'rt connected_client) option" where
  "wait_particle_args E particle_id now cc = wait_args_loop E particle_id 100 now cc"

lemma unat_count_down: "n \<noteq> 1 \<Longrightarrow> unat (n - 2) < unat (n - (1::u64))"
  using measure_unat [of "n - 1"] by (simp add: algebra_simps)

text \<open>Counting down from zero panics in a debug build and wraps around otherwise.\<close>

function listen_for_n ::
    "('rt, 'e) client_env \<Rightarrow> u64 \<Rightarrow> 'o \<Rightarrow> (jvalue list + jvalue list \<Rightarrow> 'o) \<Rightarrow> instant \<Rightarrow> 'rt connected_client \<Rightarrow>
     ((client_failure + 'o) \<times> instant \<times> 'rt connected_client) option" where
  "listen_for_n E n dflt f now cc =
     (if n = 0 \<and> ce_debug E then Some (Inl (Panicked ''attempt to subtract with overflow''), now, cc)
      else if n - 1 = 0 then Some (Inr dflt, now, cc)
      else (case receive now cc of
              None \<Rightarrow> None
            | Some (Inl _, t, cc1) \<Rightarrow> listen_for_n E (n - 1) dflt f t cc1
            | Some (Inr p, t, cc1) \<Rightarrow>
                (case read_particle E p cc1 of
                   None \<Rightarrow> None
                 | Some (Inl panic, cc2) \<Rightarrow> Some (Inl (Panicked panic), t, cc2)
                 | Some (Inr (Some args), cc2) \<Rightarrow> Some (Inr (f args), t, cc2)
                 | Some (Inr None, cc2) \<Rightarrow> listen_for_n E (n - 1) dflt f t cc2)))"
  by pat_completeness auto
termination
  by (relation "measure (\<lambda>(E, n, dflt, f, now, cc). unat (n - 1))") (auto intro: unat_count_down)

declare wait_args_loop.simps [simp del] listen_for_n.simps [simp del]

subsection \<open>A runtime without an interpreter\<close>

text \<open>\<^verbatim>\<open>EasyVM\<close>: a script that starts with an exclamation mark sends the particle along the peers its data lists.
  The conversions between bytes and text are parameters. \<^verbatim>\<open>split\<close> yields at least one part.\<close>

fun split_comma :: "string \<Rightarrow> string list" where
  "split_comma [] = [[]]"
| "split_comma (c # cs) =
     (if c = CHR '','' then [] # split_comma cs
      else (case split_comma cs of [] \<Rightarrow> [[c]] | part # parts \<Rightarrow> (c # part) # parts))"

fun join_comma :: "string list \<Rightarrow> string" where
  "join_comma [] = []"
| "join_comma [s] = s"
| "join_comma (s # ss) = s @ CHR '','' # join_comma ss"

definition easy_vm_call :: "(bytes \<Rightarrow> string) \<Rightarrow> (string \<Rightarrow> bytes) \<Rightarrow> ('rt, 'e) avm_call" where
  "easy_vm_call utf8_lossy into_bytes vm script data params results =
     (let (next_peer, data) =
            (if take 1 script = ''!'' then
               (case split_comma (utf8_lossy data) of
                  [] \<Rightarrow> ([], into_bytes [])
                | next_peer # next_peers \<Rightarrow> (next_peer, into_bytes (join_comma next_peers)))
             else (pm_init_peer_id params, data))
      in (Inr \<lparr>avm_data = data, avm_call_requests = [], avm_next_peer_pks = [next_peer]\<rparr>, vm))"

text \<open>Its effects; \<open>None\<close> is a panic.\<close>

definition easy_vm_into_effects ::
    "(string \<Rightarrow> string + peer_id) \<Rightarrow> 'e + avm_outcome \<Rightarrow> particle \<Rightarrow> particle_effects option" where
  "easy_vm_into_effects from_str outcome p =
     (case outcome of
        Inl _ \<Rightarrow> None
      | Inr out \<Rightarrow>
          (case collect_results (map from_str (avm_next_peer_pks out)) of
             Inl _ \<Rightarrow> None
           | Inr peers \<Rightarrow> Some \<lparr>pe_particle = p\<lparr>pt_data := avm_data out\<rparr>, pe_next_peers = peers,
               pe_call_requests = avm_call_requests out\<rparr>))"

subsection \<open>Making and reading particles: properties\<close>

lemma args_try_from_Inr: "\<exists>a. args_try_from c = Inr a"
  by (simp add: args_try_from_def)

lemma answer_calls_total: "\<exists>rs'. answer_calls render data cs rs = Inr rs'"
  by (induction render data cs rs rule: answer_calls.induct) (auto simp: args_try_from_def split: sum.splits)

lemma answer_until_returned_total: "\<exists>r. answer_until_returned render cs rs = Inr r"
  by (induction render cs rs rule: answer_until_returned.induct)
    (auto simp: args_try_from_def Let_def split: sum.splits prod.splits option.splits)

text \<open>An interpreter makes progress when each interpretation that asks for host calls decreases a measure of
  its own state and of the data.\<close>

definition progresses :: "('rt, 'e) runtime_api \<Rightarrow> ('rt \<Rightarrow> bytes \<Rightarrow> nat) \<Rightarrow> bool" where
  "progresses R \<mu> \<longleftrightarrow> (\<forall>vm script data params results out vm'.
     rt_call R vm script data params results = (Inr out, vm') \<and> avm_call_requests out \<noteq> [] \<longrightarrow>
     \<mu> vm' (avm_data out) < \<mu> vm data)"

lemma make_loop_returns:
  assumes "progresses R \<mu>"
  shows "\<exists>r. make_loop R render sin script params data results vm = Some r"
proof (induction "\<mu> vm data" arbitrary: data results vm rule: less_induct)
  case less
  obtain res vm' where call: "rt_call R vm script data params results = (res, vm')" by fastforce
  show ?case
  proof (cases res)
    case (Inr out)
    obtain rs where "answer_calls render sin (avm_call_requests out) [] = Inr rs" using answer_calls_total by blast
    moreover have "\<mu> vm' (avm_data out) < \<mu> vm data" if "avm_call_requests out \<noteq> []"
      using assms call Inr that unfolding progresses_def by blast
    ultimately show ?thesis using less [of vm' "avm_data out" rs] call Inr by (subst make_loop.simps) simp
  qed (use call in \<open>subst make_loop.simps, simp\<close>)
qed

lemma read_loop_returns:
  assumes "progresses R \<mu>"
  shows "\<exists>r. read_loop R render script params data results vm = Some r"
proof (induction "\<mu> vm data" arbitrary: data results vm rule: less_induct)
  case less
  obtain res vm' where call: "rt_call R vm script data params results = (res, vm')" by fastforce
  show ?case
  proof (cases res)
    case (Inr out)
    obtain r where r: "answer_until_returned render (avm_call_requests out) [] = Inr r"
      using answer_until_returned_total by blast
    moreover have "\<mu> vm' (avm_data out) < \<mu> vm data" if "avm_call_requests out \<noteq> []"
      using assms call Inr that unfolding progresses_def by blast
    ultimately show ?thesis using less [of vm' "avm_data out"] call Inr
      by (cases r) (subst make_loop.simps read_loop.simps, simp)+
  qed (use call in \<open>subst read_loop.simps, simp\<close>)
qed

lemma read_args_returns: "progresses R \<mu> \<Longrightarrow> \<exists>r. read_args R render p peer vm = Some r"
  unfolding read_args_def by (rule read_loop_returns)

text \<open>The answers handed back: one for every requested call, under its id, with the result of the client's function.\<close>

lemma answer_calls_map_of:
  assumes "distinct (map fst cs)" and "answer_calls render data cs rs = Inr rs'"
  shows "map_of rs' i = (case map_of cs i of
     Some c \<Rightarrow> Some (fst (host_call render data (projr (args_try_from c)))) | None \<Rightarrow> map_of rs i)"
  using assms
proof (induction cs arbitrary: rs)
  case (Cons ic cs)
  obtain j c where ic: "ic = (j, c)" by (cases ic)
  obtain a where a: "args_try_from c = Inr a" using args_try_from_Inr by blast
  have "map_of cs j = None" using Cons.prems ic by (simp add: map_of_eq_None_iff)
  then show ?case using Cons.IH [of "AList.update j (fst (host_call render data a)) rs"] Cons.prems ic a
    by (auto split: option.splits)
qed simp

lemma map_sum_eq_Inr_iff: "map_sum f g s = Inr y \<longleftrightarrow> (\<exists>x. s = Inr x \<and> y = g x)"
  by (cases s) auto

lemma make_particle_fields:
  assumes "make_particle R render uuid now peer data script relay generated ttl vm = Some (Inr p, vm')"
  shows "pt_id p = uuid \<and> pt_init_peer_id p = peer \<and> pt_timestamp p = now \<and> unat (pt_ttl p) = ttl mod 2 ^ 32 \<and>
    pt_signature p = [] \<and>
    wrap_script script data (map_option (rt_peer_to_string R) relay) generated None = Some (pt_script p)"
  using assms by (auto simp: make_particle_def Let_def unat_of_nat map_sum_eq_Inr_iff split: option.splits)

lemma make_particle_returns:
  assumes "progresses R \<mu>"
  shows "\<exists>r vm'. make_particle R render uuid now peer data script relay generated ttl vm = Some (r, vm')"
proof -
  obtain air where "wrap_script script data (map_option (rt_peer_to_string R) relay) generated None = Some air"
    using wrap_script_Some by blast
  moreover obtain r vm' where "make_loop R render data air
      \<lparr>pm_current_peer_id = rt_peer_to_string R peer, pm_init_peer_id = rt_peer_to_string R peer,
       pm_particle_id = uuid, pm_timestamp = now, pm_ttl = word_of_nat ttl\<rparr> [] [] vm = Some (r, vm')"
    using make_loop_returns [OF assms] by fastforce
  ultimately show ?thesis by (simp add: make_particle_def Let_def)
qed

subsection \<open>The link: properties\<close>

definition settles :: "('p, 'r) ping_api \<Rightarrow> ('p \<Rightarrow> nat) \<Rightarrow> bool" where
  "settles P \<mu> \<longleftrightarrow> (\<forall>now pg pg'. pg_poll P now pg = (True, pg') \<longrightarrow> \<mu> pg' < \<mu> pg)"

lemma ping_drain_returns: "settles P \<mu> \<Longrightarrow> \<exists>pg'. ping_drain P now pg = Some pg'"
proof (induction "\<mu> pg" arbitrary: pg rule: less_induct)
  case less
  obtain ready pg' where poll: "pg_poll P now pg = (ready, pg')" by fastforce
  show ?case
  proof (cases ready)
    case True
    with poll less.prems have "\<mu> pg' < \<mu> pg" by (simp add: settles_def)
    from less.hyps [OF this less.prems] True poll show ?thesis by (subst ping_drain.simps) simp
  qed (use poll in \<open>subst ping_drain.simps, simp\<close>)
qed

text \<open>The particles on the way to the node and the events on the way to the owner, in a queue of the behaviour.\<close>

fun notified :: "client_action \<Rightarrow> (peer_id \<times> particle) option" where
  "notified (NotifyAny peer (OutParticle p _)) = Some (peer, p)"
| "notified _ = None"

fun generated :: "client_action \<Rightarrow> client_event option" where
  "generated (GenerateClientEvent e) = Some e"
| "generated _ = None"

fun handed_over :: "link_output \<Rightarrow> (peer_id \<times> particle) option" where
  "handed_over (SwarmAction a) = notified a"
| "handed_over _ = None"

fun taken :: "link_output \<Rightarrow> client_event option" where
  "taken (Taken e) = Some e"
| "taken _ = None"

fun sent_by :: "'r link_input \<Rightarrow> (peer_id \<times> particle) option" where
  "sent_by (SendCmd peer p) = Some (peer, p)"
| "sent_by _ = None"

fun raised_by :: "'r link_input \<Rightarrow> client_event option" where
  "raised_by (Established peer cp) = Some (NewConnection peer (point_address cp))"
| "raised_by (HandlerEvent peer cid (Inl (InParticle p))) = Some (ParticleEvent peer p)"
| "raised_by _ = None"

definition outgoing :: "'p client_link \<Rightarrow> (peer_id \<times> particle) list" where
  "outgoing lk = List.map_filter notified (clb_events (lk_behaviour lk)) @ lk_relay lk"

definition incoming :: "'p client_link \<Rightarrow> client_event list" where
  "incoming lk = lk_inbox lk @ List.map_filter generated (clb_events (lk_behaviour lk))"

lemmas link_defs = outgoing_def incoming_def on_behaviour_def link_send_def link_receive_one_def receive_from_node_def
  send_to_node_def client_call_def clb_push_def clb_wake_def client_connection_established_def client_connection_closed_def
  client_dial_failure_def

lemma map_filter_append: "List.map_filter f (xs @ ys) = List.map_filter f xs @ List.map_filter f ys"
  by (simp add: List.map_filter_def)

lemma map_filter_option: "List.map_filter f [x] = (case f x of Some y \<Rightarrow> [y] | None \<Rightarrow> [])"
  by (simp add: List.map_filter_simps split: option.splits)

lemma map_filter_Nil [simp]: "List.map_filter f [] = []"
  by (simp add: List.map_filter_simps)

lemma fold_push_dials:
  "fold (clb_push \<circ> DialAddress) addrs b = b\<lparr>clb_events := clb_events b @ map DialAddress addrs\<rparr>"
  by (induction addrs arbitrary: b) (simp_all add: clb_push_def)

lemma map_filter_dials [simp]:
  "List.map_filter notified (map DialAddress addrs) = []" "List.map_filter generated (map DialAddress addrs) = []"
  by (induction addrs) (simp_all add: List.map_filter_simps)

lemma poll_reconnect_events:
  "List.map_filter notified (clb_events (poll_reconnect now b)) = List.map_filter notified (clb_events b)"
  "List.map_filter generated (clb_events (poll_reconnect now b)) = List.map_filter generated (clb_events b)"
  by (auto simp: poll_reconnect_def fold_push_dials map_filter_append split: option.splits reconnection.splits)

text \<open>One poll of the swarm moves at most the head of the queue.\<close>

lemma poll_swarm_conserves:
  assumes "poll_swarm P now lk = Some (outs, lk')" "lk_client lk"
  shows "List.map_filter handed_over outs @ outgoing lk' = outgoing lk \<and>
    List.map_filter taken outs @ incoming lk' = incoming lk \<and> lk_client lk' = lk_client lk \<and> lk_task lk' = lk_task lk"
proof -
  obtain pg b where b: "b = poll_reconnect now (lk_behaviour lk\<lparr>clb_waker := True, clb_woken := False, clb_ping := pg\<rparr>)"
    and poll: "client_poll P now (lk_behaviour lk) = Some (clb_pop_event b)"
    using assms(1) by (auto simp: poll_swarm_def client_poll_def Let_def)
  have ev: "List.map_filter notified (clb_events b) = List.map_filter notified (clb_events (lk_behaviour lk))"
    "List.map_filter generated (clb_events b) = List.map_filter generated (clb_events (lk_behaviour lk))"
    by (simp_all add: b poll_reconnect_events)
  show ?thesis
  proof (cases "clb_events b")
    case Nil
    with assms poll ev show ?thesis by (auto simp: poll_swarm_def clb_pop_event_def outgoing_def incoming_def Let_def)
  next
    case (Cons a as)
    have "outs = [SwarmAction a] \<and> lk' = lk\<lparr>lk_behaviour := b\<lparr>clb_events := as\<rparr>\<rparr> \<and> generated a = None \<or>
      (\<exists>e. a = GenerateClientEvent e \<and> outs = [] \<and>
         lk' = lk\<lparr>lk_behaviour := b\<lparr>clb_events := as\<rparr>, lk_inbox := lk_inbox lk @ [e]\<rparr>)"
      using assms poll Cons by (cases a) (auto simp: poll_swarm_def clb_pop_event_def receive_from_node_def Let_def)
    then show ?thesis
      using ev unfolding Cons
      by (elim disjE exE conjE) (auto simp: outgoing_def incoming_def List.map_filter_simps split: option.splits)
  qed
qed

lemma link_step_conserves:
  assumes "link_step P i lk = Some (outs, lk')" "i \<noteq> StopClient" "lk_client lk" "lk_task lk"
  shows "List.map_filter handed_over outs @ outgoing lk' = outgoing lk @ List.map_filter sent_by [i] \<and>
    List.map_filter taken outs @ incoming lk' = incoming lk @ List.map_filter raised_by [i] \<and> lk_client lk' \<and> lk_task lk'"
proof (cases i)
  case (PollSwarm now)
  with assms poll_swarm_conserves [of P now lk outs lk'] show ?thesis by (simp add: map_filter_option)
next
  case (HandlerEvent peer cid ev)
  show ?thesis
  proof (cases ev)
    case (Inl m)
    with HandlerEvent assms show ?thesis by (cases m) (auto simp: link_defs map_filter_append map_filter_option)
  qed (use HandlerEvent assms in \<open>auto simp: link_defs map_filter_option\<close>)
qed (use assms in \<open>auto simp: link_defs map_filter_append map_filter_option List.map_filter_simps split: list.splits dial_error.splits connected_point.splits\<close>)

lemma link_step_returns: "settles P \<mu> \<Longrightarrow> \<exists>outs lk'. link_step P i lk = Some (outs, lk')"
proof (cases i)
  case (PollSwarm now)
  assume "settles P \<mu>"
  from ping_drain_returns [OF this] obtain pg where "ping_drain P now (clb_ping (lk_behaviour lk)) = Some pg" ..
  then have "poll_swarm P now lk \<noteq> None" by (simp add: poll_swarm_def client_poll_def Let_def)
  then show ?thesis by (simp add: PollSwarm)
qed (auto split: prod.splits option.splits)

lemma link_run_conserves:
  assumes "settles P \<mu>" "StopClient \<notin> set is" "lk_client lk" "lk_task lk"
  shows "\<exists>outs lk'. link_run P is lk = Some (outs, lk') \<and>
    List.map_filter handed_over outs @ outgoing lk' = outgoing lk @ List.map_filter sent_by is \<and>
    List.map_filter taken outs @ incoming lk' = incoming lk @ List.map_filter raised_by is"
  using assms(2-4)
proof (induction "is" arbitrary: lk)
  case (Cons i "is")
  obtain outs1 lk1 where step: "link_step P i lk = Some (outs1, lk1)" using link_step_returns [OF assms(1)] by blast
  note one = link_step_conserves [OF step _ Cons.prems(2,3)]
  then obtain outs lk' where run: "link_run P is lk1 = Some (outs, lk')"
    and all: "List.map_filter handed_over outs @ outgoing lk' = outgoing lk1 @ List.map_filter sent_by is"
      "List.map_filter taken outs @ incoming lk' = incoming lk1 @ List.map_filter raised_by is"
    using Cons.IH [of lk1] Cons.prems by auto
  have "link_run P (i # is) lk = Some (outs1 @ outs, lk')" by (simp add: step run)
  moreover have "List.map_filter handed_over (outs1 @ outs) @ outgoing lk' = outgoing lk @ List.map_filter sent_by (i # is)"
    using one Cons.prems(1) all(1) map_filter_append [of sent_by "[i]" "is"] by (simp add: map_filter_append) (metis append.assoc)
  moreover have "List.map_filter taken (outs1 @ outs) @ incoming lk' = incoming lk @ List.map_filter raised_by (i # is)"
    using one Cons.prems(1) all(2) map_filter_append [of raised_by "[i]" "is"] by (simp add: map_filter_append) (metis append.assoc)
  ultimately show ?case by blast
qed simp

text \<open>C40 [client_link_is_fifo]: As long as a client is not stopped, whatever the interleaving of its owner, its task and the
  network, no step hangs (if ping settles), the particles handed to the swarm for the node followed by those still queued
  are exactly those the owner sent, in order, and the events the owner took followed by those still queued are exactly the
  connections and particles that came in, in order: nothing is lost, duplicated or reordered in either direction.\<close>

theorem client_link_is_fifo:
  assumes "settles P \<mu>" and "StopClient \<notin> set is" and "connect_with pg transport_timeout (Inr ()) = Inr lk"
  shows "\<exists>outs lk'. link_run P is lk = Some (outs, lk') \<and>
    List.map_filter handed_over outs @ outgoing lk' = List.map_filter sent_by is \<and>
    List.map_filter taken outs @ incoming lk' = List.map_filter raised_by is"
proof -
  have "lk_client lk" "lk_task lk" "outgoing lk = []" "incoming lk = []"
    using assms(3) by (auto simp: connect_with_def outgoing_def incoming_def client_behaviour_new_def)
  with link_run_conserves [OF assms(1,2), of lk] show ?thesis by simp
qed

definition sample_ping :: "(nat, unit) ping_api" where
  "sample_ping = \<lparr>pg_inject_event = (\<lambda>_ _ _ n. Suc n), pg_poll = (\<lambda>_ n. (0 < n, n - 1))\<rparr>"

theorem client_link_is_fifo_witness:
  "\<exists>lk outs lk'. connect_with 0 500 (Inr ()) = Inr lk \<and>
     link_run sample_ping [SendCmd 7 (sample_particle 1 2), Established 7 (Dialer 5), TakeRelay, PollSwarm 0] lk = Some (outs, lk') \<and>
     List.map_filter handed_over outs @ outgoing lk' = [(7, sample_particle 1 2)] \<and>
     List.map_filter taken outs @ incoming lk' = [NewConnection 7 5]"
proof -
  obtain lk where lk: "connect_with (0::nat) 500 (Inr ()) = Inr lk" by (simp add: connect_with_def)
  have "settles sample_ping id" by (auto simp: settles_def sample_ping_def)
  from client_link_is_fifo [OF this _ lk,
      of "[SendCmd 7 (sample_particle 1 2), Established 7 (Dialer 5), TakeRelay, PollSwarm 0]"]
  show ?thesis using lk by (simp add: List.map_filter_simps)
qed

lemma clb_pop_event_Nil: "clb_events b = [] \<Longrightarrow> clb_pop_event b = (None, b)"
  by (simp add: clb_pop_event_def)

text \<open>[reconnect_dials_again]: After a dial failed, the addresses are dialled again in order once a second has passed since
  the next poll; another failure before that replaces them.\<close>

lemma reconnect_dials_again:
  assumes "ping_drain P t0 (clb_ping b) = Some pg" "ping_drain P t1 pg = Some pg'" "t0 + RECONNECT_DELAY \<le> t1" "clb_events b = []"
  shows "\<exists>b1. client_poll P t0 (client_dial_failure (Transport addrs) b) = Some (None, b1) \<and>
    client_poll P t1 b1 = Some (clb_pop_event (b1\<lparr>clb_woken := False, clb_ping := pg', clb_reconnect := None, clb_events := map DialAddress addrs\<rparr>))"
  using assms by (cases b) (auto simp: client_poll_def Let_def client_dial_failure_def poll_reconnect_def clb_pop_event_Nil fold_push_dials)

lemma reconnect_forgets_addresses:
  "client_dial_failure (Transport addrs') (client_dial_failure (Transport addrs) b) = client_dial_failure (Transport addrs') b"
  by (simp add: client_dial_failure_def)

subsection \<open>Waiting for particles: properties\<close>

fun particle_of :: "client_event \<Rightarrow> particle option" where
  "particle_of (ParticleEvent _ p) = Some p"
| "particle_of (NewConnection _ _) = None"

definition particles_in :: "client_inlet \<Rightarrow> particle list" where
  "particles_in inl = List.map_filter (particle_of \<circ> snd) (in_arrivals inl)"

definition arrived :: "instant \<Rightarrow> client_inlet \<Rightarrow> bool" where
  "arrived now inl \<longleftrightarrow> (\<forall>(t, e) \<in> set (in_arrivals inl). t \<le> now)"

lemma receive_loop_arrived:
  assumes "arrived now inl" "now \<le> deadline" "particles_in inl = p # ps"
  shows "\<exists>inl'. receive_loop deadline now inl = Some (Some p, now, inl') \<and> particles_in inl' = ps \<and> arrived now inl'"
  using assms
proof (induction "in_arrivals inl" arbitrary: inl)
  case (Cons te tes)
  obtain t e where te: "te = (t, e)" by (cases te)
  have t: "max now t = now" using Cons.prems(1) Cons.hyps(2) te by (auto simp: arrived_def max_def simp flip: Cons.hyps(2))
  let ?inl = "inl\<lparr>in_arrivals := tes\<rparr>"
  have one: "receive_one now inl = Some (now, Some e, ?inl)" by (simp add: receive_one_def te t flip: Cons.hyps(2))
  have arr: "arrived now ?inl" using Cons.prems(1) by (simp add: arrived_def flip: Cons.hyps(2))
  have split: "particles_in inl = (case particle_of e of Some q \<Rightarrow> q # particles_in ?inl | None \<Rightarrow> particles_in ?inl)"
    by (simp add: particles_in_def te List.map_filter_simps flip: Cons.hyps(2) split: option.splits)
  show ?case
  proof (cases e)
    case (ParticleEvent s q)
    with one split arr Cons.prems show ?thesis by (subst receive_loop.simps) simp
  next
    case (NewConnection s a)
    with split Cons.prems(3) have "particles_in ?inl = p # ps" by simp
    from Cons.hyps(1) [of ?inl, OF _ arr Cons.prems(2) this] NewConnection one Cons.prems(2) show ?thesis
      by (subst receive_loop.simps) simp
  qed
qed (simp add: particles_in_def)

lemma receive_arrived:
  assumes "arrived now (cc_inlet cc)" "particles_in (cc_inlet cc) = p # ps"
  shows "\<exists>inl. receive now cc = Some (Inr p, now, cc\<lparr>cc_inlet := inl\<rparr>) \<and> particles_in inl = ps \<and> arrived now inl"
proof -
  obtain inl where "receive_loop (now + cc_timeout cc) now (cc_inlet cc) = Some (Some p, now, inl)"
    and "particles_in inl = ps" "arrived now inl"
    using receive_loop_arrived [OF assms(1) _ assms(2), of "now + cc_timeout cc"] by auto
  then show ?thesis by (intro exI [of _ inl]) (simp add: receive_def)
qed

lemma local_vm_inlet [simp]: "local_vm E (cc\<lparr>cc_inlet := inl\<rparr>) = local_vm E cc"
  by (simp add: local_vm_def split: option.splits)

text \<open>Particles with another id are skipped, one attempt each.\<close>

lemma wait_args_skips:
  assumes "arrived now (cc_inlet cc)" "particles_in (cc_inlet cc) = ps @ qs" "\<forall>p \<in> set ps. pt_id p \<noteq> pid" "int (length ps) < left"
  shows "\<exists>inl. wait_args_loop E pid left now cc = wait_args_loop E pid (left - int (length ps)) now (cc\<lparr>cc_inlet := inl\<rparr>) \<and>
    particles_in inl = qs \<and> arrived now inl"
  using assms
proof (induction ps arbitrary: cc left)
  case Nil
  then show ?case by (intro exI [of _ "cc_inlet cc"]) simp
next
  case (Cons p ps)
  obtain inl where rcv: "receive now cc = Some (Inr p, now, cc\<lparr>cc_inlet := inl\<rparr>)" "particles_in inl = ps @ qs" "arrived now inl"
    using receive_arrived [OF Cons.prems(1), of p "ps @ qs"] Cons.prems(2) by auto
  obtain inl' where "wait_args_loop E pid (left - 1) now (cc\<lparr>cc_inlet := inl\<rparr>) =
      wait_args_loop E pid (left - 1 - int (length ps)) now (cc\<lparr>cc_inlet := inl'\<rparr>)" "particles_in inl' = qs" "arrived now inl'"
    using Cons.IH [of "cc\<lparr>cc_inlet := inl\<rparr>" "left - 1"] rcv Cons.prems by auto
  moreover have "wait_args_loop E pid left now cc = wait_args_loop E pid (left - 1) now (cc\<lparr>cc_inlet := inl\<rparr>)"
    using Cons.prems rcv(1) by (subst wait_args_loop.simps) simp
  ultimately show ?case by (intro exI [of _ inl']) (simp add: algebra_simps)
qed

text \<open>[wait_reads_99_particles]: Waiting for the particle of a request, when the particles have already arrived: if the
  first one with its id is among the first 99 and returns something to the client, that is the result, and exactly the
  particles up to it are consumed; if none of the first 99 has the id, waiting fails after exactly 99 particles, so the
  hundredth attempt of the counter is never made.\<close>

theorem wait_reads_99_particles:
  assumes "arrived now (cc_inlet cc)" and "particles_in (cc_inlet cc) = ps @ qs" and "\<forall>p \<in> set ps. pt_id p \<noteq> pid"
  shows "(\<forall>p rest r vm vm'. qs = p # rest \<and> length ps < 99 \<and> pt_id p = pid \<and> local_vm E cc = Inr vm \<and>
        read_args (ce_runtime E) (ce_render E) p (cc_peer_id cc) vm = Some (Inr (Some r), vm') \<longrightarrow>
        (\<exists>cc'. wait_particle_args E pid now cc = Some (returned_result r, now, cc') \<and> particles_in (cc_inlet cc') = rest)) \<and>
    (length ps = 99 \<longrightarrow>
        (\<exists>cc'. wait_particle_args E pid now cc = Some (Inl (Failed (''timed out waiting for particle '' @ pid)), now, cc') \<and>
           particles_in (cc_inlet cc') = qs))"
proof (intro conjI allI impI)
  fix p rest r vm vm'
  assume a: "qs = p # rest \<and> length ps < 99 \<and> pt_id p = pid \<and> local_vm E cc = Inr vm \<and>
    read_args (ce_runtime E) (ce_render E) p (cc_peer_id cc) vm = Some (Inr (Some r), vm')"
  then obtain inl where skip: "wait_args_loop E pid 100 now cc = wait_args_loop E pid (100 - int (length ps)) now (cc\<lparr>cc_inlet := inl\<rparr>)"
      "particles_in inl = p # rest" "arrived now inl"
    using wait_args_skips [OF assms, of 100 E] by auto
  obtain inl' where rcv: "receive now (cc\<lparr>cc_inlet := inl\<rparr>) = Some (Inr p, now, cc\<lparr>cc_inlet := inl'\<rparr>)" "particles_in inl' = rest"
    using receive_arrived [of now "cc\<lparr>cc_inlet := inl\<rparr>" p rest] skip by auto
  have "read_particle E p (cc\<lparr>cc_inlet := inl'\<rparr>) = Some (Inr (Some r), cc\<lparr>cc_inlet := inl', cc_local_vm := Some vm'\<rparr>)"
    using a by (simp add: read_particle_def)
  with rcv a have "wait_args_loop E pid (100 - int (length ps)) now (cc\<lparr>cc_inlet := inl\<rparr>) =
      Some (returned_result r, now, cc\<lparr>cc_inlet := inl', cc_local_vm := Some vm'\<rparr>)"
    by (subst wait_args_loop.simps) simp
  then show "\<exists>cc'. wait_particle_args E pid now cc = Some (returned_result r, now, cc') \<and> particles_in (cc_inlet cc') = rest"
    using skip rcv by (simp add: wait_particle_args_def)
next
  assume "length ps = 99"
  then obtain inl where "wait_args_loop E pid 100 now cc = wait_args_loop E pid 1 now (cc\<lparr>cc_inlet := inl\<rparr>)" "particles_in inl = qs"
    using wait_args_skips [OF assms, of 100 E] by auto
  then show "\<exists>cc'. wait_particle_args E pid now cc = Some (Inl (Failed (''timed out waiting for particle '' @ pid)), now, cc') \<and>
      particles_in (cc_inlet cc') = qs"
    by (simp add: wait_particle_args_def wait_args_loop.simps [of E pid 1])
qed

lemma receive_loop_ended:
  assumes "receive_loop deadline now inl = Some r"
  shows "\<not> (now \<le> deadline \<and> in_arrivals inl = [] \<and> in_closed inl)" (is "?Q deadline now inl")
proof (rule receive_loop.raw_induct [where P = "\<lambda>d n i _. ?Q d n i", OF _ assms])
  fix loop deadline now inl r
  assume ih: "\<And>d n i r. loop d n i = Some r \<Longrightarrow> ?Q d n i"
    and step: "(case receive_one now inl of
        None \<Rightarrow> Some (None, deadline, inl)
      | Some (t, event, inl') \<Rightarrow>
          if deadline < t then Some (None, deadline, inl)
          else (case event of
                  Some (ParticleEvent _ p) \<Rightarrow> Some (Some p, t, inl')
                | _ \<Rightarrow> loop deadline t inl')) = Some r"
  show "?Q deadline now inl"
  proof
    assume ended: "now \<le> deadline \<and> in_arrivals inl = [] \<and> in_closed inl"
    with step have "loop deadline now inl = Some r" by (simp add: receive_one_def)
    from ih [OF this] ended show False by simp
  qed
qed

text \<open>[receive_loop_spins]: Once the task of the client is gone and no particle is left, receiving never returns: the loop asks
  the ended stream again and again without waiting, so that its timeout has no chance to fire.\<close>

lemma receive_loop_spins:
  assumes "arrived now inl" "now \<le> deadline" "particles_in inl = []" "in_closed inl"
  shows "receive_loop deadline now inl = None"
proof -
  have ended: "receive_loop deadline now e = None" if "in_arrivals e = []" "in_closed e" for e
    using receive_loop_ended [of deadline now e] that assms(2) by (cases "receive_loop deadline now e") auto
  show ?thesis
    using assms(1,3,4)
  proof (induction "in_arrivals inl" arbitrary: inl)
    case (Cons te tes)
    obtain t e where te: "te = (t, e)" by (cases te)
    have "max now t = now" using Cons.prems(1) te by (auto simp: arrived_def max_def simp flip: Cons.hyps(2))
    then have one: "receive_one now inl = Some (now, Some e, inl\<lparr>in_arrivals := tes\<rparr>)" by (simp add: receive_one_def te flip: Cons.hyps(2))
    have "arrived now (inl\<lparr>in_arrivals := tes\<rparr>)" using Cons.prems(1) by (simp add: arrived_def flip: Cons.hyps(2))
    moreover obtain s a where "e = NewConnection s a" "particles_in (inl\<lparr>in_arrivals := tes\<rparr>) = []"
      using Cons.prems(2) te
      by (cases e) (simp_all add: particles_in_def List.map_filter_simps flip: Cons.hyps(2))
    ultimately show ?case using Cons.hyps(1) [of "inl\<lparr>in_arrivals := tes\<rparr>"] Cons.prems(3) one assms(2)
      by (subst receive_loop.simps) simp
  qed (use ended in simp)
qed

text \<open>With the task alive, receiving ends no later than its timeout.\<close>

lemma receive_loop_open:
  assumes "\<not> in_closed inl" "now \<le> deadline"
  shows "\<exists>r t inl'. receive_loop deadline now inl = Some (r, t, inl') \<and> \<not> in_closed inl' \<and> t \<le> deadline"
  using assms
proof (induction "in_arrivals inl" arbitrary: inl now)
  case Nil
  then show ?case by (subst receive_loop.simps) (simp add: receive_one_def flip: Nil.hyps)
next
  case (Cons te tes)
  obtain t e where te: "te = (t, e)" by (cases te)
  let ?inl = "inl\<lparr>in_arrivals := tes\<rparr>"
  have one: "receive_one now inl = Some (max now t, Some e, ?inl)" by (simp add: receive_one_def te flip: Cons.hyps(2))
  show ?case
  proof (cases "deadline < max now t \<or> particle_of e \<noteq> None")
    case True
    with one Cons.prems show ?thesis by (subst receive_loop.simps) (cases e, auto)
  next
    case False
    then obtain s a where e: "e = NewConnection s a" and t: "max now t \<le> deadline" by (cases e) (auto simp: not_less)
    have "receive_loop deadline now inl = receive_loop deadline (max now t) ?inl"
      using one e t by (subst receive_loop.simps) auto
    with Cons.hyps(1) [of ?inl "max now t"] Cons.prems(1) t show ?thesis by simp
  qed
qed

lemma receive_open:
  assumes "\<not> in_closed (cc_inlet cc)"
  shows "\<exists>r t inl. receive now cc = Some (r, t, cc\<lparr>cc_inlet := inl\<rparr>) \<and> \<not> in_closed inl \<and> t \<le> now + cc_timeout cc"
proof -
  obtain r t inl where "receive_loop (now + cc_timeout cc) now (cc_inlet cc) = Some (r, t, inl)" "\<not> in_closed inl"
    "t \<le> now + cc_timeout cc"
    using receive_loop_open [OF assms, of now "now + cc_timeout cc"] by auto
  then show ?thesis by (intro exI [of _ "case r of None \<Rightarrow> Inl ''receive particle'' | Some p \<Rightarrow> Inr p"] exI [of _ t] exI [of _ inl])
    (simp add: receive_def)
qed

lemma read_particle_returns:
  assumes "progresses (ce_runtime E) \<mu>"
  shows "\<exists>r vm. read_particle E p cc = Some (r, cc\<lparr>cc_local_vm := vm\<rparr>)"
proof (cases "local_vm E cc")
  case (Inl e)
  then show ?thesis by (intro exI [of _ "Inl e"] exI [of _ "cc_local_vm cc"]) (simp add: read_particle_def)
next
  case (Inr vm)
  obtain r vm' where "read_args (ce_runtime E) (ce_render E) p (cc_peer_id cc) vm = Some (r, vm')"
    using read_args_returns [OF assms] by fastforce
  with Inr show ?thesis by (intro exI [of _ r] exI [of _ "Some vm'"]) (simp add: read_particle_def)
qed

lemma wait_args_returns:
  assumes "progresses (ce_runtime E) \<mu>" "\<not> in_closed (cc_inlet cc)"
  shows "\<exists>r t cc'. wait_args_loop E pid (int n + 1) now cc = Some (r, t, cc') \<and> t \<le> now + n * cc_timeout cc"
  using assms(2)
proof (induction n arbitrary: now cc)
  case 0
  show ?case by (subst wait_args_loop.simps) simp
next
  case (Suc n)
  obtain r t inl where rcv: "receive now cc = Some (r, t, cc\<lparr>cc_inlet := inl\<rparr>)" "\<not> in_closed inl" "t \<le> now + cc_timeout cc"
    using receive_open [OF Suc.prems] by blast
  have next_round: "\<exists>r t' cc'. wait_args_loop E pid (int n + 1) t cc1 = Some (r, t', cc') \<and> t' \<le> now + Suc n * cc_timeout cc"
    if "cc_inlet cc1 = inl" "cc_timeout cc1 = cc_timeout cc" for cc1
    using Suc.IH [of cc1 t] that rcv(2,3) by fastforce
  have count: "int (Suc n) + 1 - 1 = int n + 1" by simp
  have step: "wait_args_loop E pid (int (Suc n) + 1) now cc =
      (case r of
         Inl _ \<Rightarrow> wait_args_loop E pid (int n + 1) t (cc\<lparr>cc_inlet := inl\<rparr>)
       | Inr p \<Rightarrow>
           if pt_id p = pid then
             (case read_particle E p (cc\<lparr>cc_inlet := inl\<rparr>) of
                None \<Rightarrow> None
              | Some (Inl panic, cc2) \<Rightarrow> Some (Inl (Panicked panic), t, cc2)
              | Some (Inr (Some result), cc2) \<Rightarrow> Some (returned_result result, t, cc2)
              | Some (Inr None, cc2) \<Rightarrow> wait_args_loop E pid (int n + 1) t cc2)
           else wait_args_loop E pid (int n + 1) t (cc\<lparr>cc_inlet := inl\<rparr>))"
    using rcv(1) by (subst wait_args_loop.simps, unfold count) (simp split: sum.split)
  show ?case
  proof (cases r)
    case (Inl e)
    with step next_round [of "cc\<lparr>cc_inlet := inl\<rparr>"] show ?thesis by simp
  next
    case (Inr p)
    obtain s vm where read: "read_particle E p (cc\<lparr>cc_inlet := inl\<rparr>) = Some (s, cc\<lparr>cc_inlet := inl, cc_local_vm := vm\<rparr>)"
      using read_particle_returns [OF assms(1), of p "cc\<lparr>cc_inlet := inl\<rparr>"] by auto
    have t: "t \<le> now + Suc n * cc_timeout cc" using rcv(3) by simp
    show ?thesis
    proof (cases "pt_id p = pid")
      case True
      consider (panic) e where "s = Inl e" | (result) v where "s = Inr (Some v)" | (nothing) "s = Inr None"
        by (cases s) auto
      then show ?thesis
        by cases (use step Inr True read t next_round [of "cc\<lparr>cc_inlet := inl, cc_local_vm := vm\<rparr>"] in simp_all)
    qed (use step Inr next_round [of "cc\<lparr>cc_inlet := inl\<rparr>"] in simp)
  qed
qed

lemma send_particle_ext_returns:
  assumes "progresses (ce_runtime E) \<mu>"
  shows "\<exists>r cc'. send_particle_ext E uuid now_ms script data gen cc = Some (r, cc') \<and>
    (case r of
       Inl _ \<Rightarrow> cc_relay cc' = cc_relay cc
     | Inr i \<Rightarrow> i = uuid \<and> (\<exists>p. cc_relay cc' = cc_relay cc @ [(cc_node cc, p)] \<and> pt_id p = uuid \<and>
         pt_init_peer_id p = cc_peer_id cc \<and> pt_timestamp p = now_ms \<and> unat (pt_ttl p) = cc_particle_ttl cc mod 2 ^ 32))"
proof (cases "local_vm E cc")
  case (Inl e)
  then show ?thesis by (intro exI [of _ "Inl e"] exI [of _ cc]) (simp add: send_particle_ext_def)
next
  case (Inr vm)
  obtain r vm' where made: "make_particle (ce_runtime E) (ce_render E) uuid now_ms (cc_peer_id cc) data script (Some (cc_node cc))
      gen (cc_particle_ttl cc) vm = Some (r, vm')"
    using make_particle_returns [OF assms] by blast
  show ?thesis
  proof (cases r)
    case (Inl e)
    with Inr made show ?thesis
      by (intro exI [of _ "Inl e"] exI [of _ "cc\<lparr>cc_local_vm := Some vm'\<rparr>"]) (simp add: send_particle_ext_def)
  next
    case (Inr p)
    with made make_particle_fields [of "ce_runtime E" "ce_render E"]
    have p: "pt_id p = uuid" "pt_init_peer_id p = cc_peer_id cc" "pt_timestamp p = now_ms" "unat (pt_ttl p) = cc_particle_ttl cc mod 2 ^ 32"
      by blast+
    have "send_particle_ext E uuid now_ms script data gen cc = Some (Inr uuid, cc_send p (cc\<lparr>cc_local_vm := Some vm'\<rparr>))"
      using \<open>local_vm E cc = Inr vm\<close> made Inr p(1) by (simp add: send_particle_ext_def)
    with p show ?thesis
      by (intro exI [of _ "Inr uuid"] exI [of _ "cc_send p (cc\<lparr>cc_local_vm := Some vm'\<rparr>)"]) (simp add: cc_send_def)
  qed
qed


subsection \<open>The runtime without an interpreter: properties\<close>

lemma split_comma_append: "CHR '','' \<notin> set s \<Longrightarrow> split_comma (s @ CHR '','' # rest) = s # split_comma rest"
  by (induction s) auto

lemma split_comma_plain: "CHR '','' \<notin> set s \<Longrightarrow> split_comma s = [s]"
  by (induction s) auto

lemma split_join_comma: "ss \<noteq> [] \<Longrightarrow> \<forall>s \<in> set ss. CHR '','' \<notin> set s \<Longrightarrow> split_comma (join_comma ss) = ss"
  by (induction ss rule: join_comma.induct) (simp_all add: split_comma_append split_comma_plain)

text \<open>A particle under such a script visits the listed peers one after the other; its effects are those any runtime gives.\<close>

lemma easy_vm_routes:
  assumes "\<forall>s. utf8_lossy (into_bytes s) = s" "\<forall>s \<in> set (s # ss). CHR '','' \<notin> set s" "take 1 script = ''!''"
  shows "easy_vm_call utf8_lossy into_bytes vm script (into_bytes (join_comma (s # ss))) params results =
    (Inr \<lparr>avm_data = into_bytes (join_comma ss), avm_call_requests = [], avm_next_peer_pks = [s]\<rparr>, vm)"
  using assms split_join_comma [of "s # ss"] by (simp add: easy_vm_call_def)

lemma easy_vm_effects_agree:
  "easy_vm_into_effects fs (Inr out :: 'e + avm_outcome) p = Some eff \<Longrightarrow> into_effects fs (Inr out :: 'e + avm_outcome) p = eff"
proof -
  assume "easy_vm_into_effects fs (Inr out :: 'e + avm_outcome) p = Some eff"
  then obtain peers where fs: "map fs (avm_next_peer_pks out) = map Inr peers"
    and eff: "eff = \<lparr>pe_particle = p\<lparr>pt_data := avm_data out\<rparr>, pe_next_peers = peers, pe_call_requests = avm_call_requests out\<rparr>"
    by (auto simp: easy_vm_into_effects_def split: sum.splits)
  moreover have "map (projr \<circ> fs) (avm_next_peer_pks out) = peers"
    using arg_cong [OF fs, of "map projr"] by (simp add: o_def)
  ultimately show ?thesis by (auto simp: into_effects_Inr)
qed

subsection \<open>Witnesses for clients\<close>

text \<open>An interpreter that asks once for the return function, then is done.\<close>

definition sample_client_runtime :: "(nat, string) runtime_api" where
  "sample_client_runtime = sample_runtime\<lparr>rt_call := (\<lambda>vm script data params results.
     (Inr \<lparr>avm_data = 1 # data,
        avm_call_requests = (if vm = 0 then [] else [(5, \<lparr>cr_service_id = ''return'', cr_function_name = '''',
          cr_arguments = [JInt 42], cr_tetraplets = []\<rparr>)]), avm_next_peer_pks = []\<rparr>, vm - 1))\<rparr>"

definition sample_client_env :: "(nat, string) client_env" where
  "sample_client_env = \<lparr>ce_runtime = sample_client_runtime, ce_render = (\<lambda>_ _. []), ce_avm_new = (\<lambda>_ _ _. Inr 1), ce_debug = True\<rparr>"

definition sample_client :: "client_inlet \<Rightarrow> nat connected_client" where
  "sample_client inl = connected_client_new sample_client_env 3 inl 7 5 None"

lemma sample_client_progresses: "progresses sample_client_runtime (\<lambda>vm _. vm)"
  by (auto simp: progresses_def sample_client_runtime_def)


theorem wait_reads_99_particles_witness:
  "\<exists>cc'. wait_particle_args sample_client_env (pt_id (sample_particle 1 2)) 9
     (sample_client \<lparr>in_arrivals = [(4, NewConnection 7 5), (6, ParticleEvent 7 (sample_particle 1 2))], in_closed = False\<rparr>) =
     Some (Inr [JInt 42], 9, cc') \<and> particles_in (cc_inlet cc') = []"
proof -
  let ?p = "sample_particle 1 2"
  let ?cc = "sample_client \<lparr>in_arrivals = [(4, NewConnection 7 5), (6, ParticleEvent 7 ?p)], in_closed = False\<rparr>"
  have here: "arrived 9 (cc_inlet ?cc)" "particles_in (cc_inlet ?cc) = [] @ [?p]"
    by (simp_all add: arrived_def particles_in_def sample_client_def connected_client_new_def List.map_filter_simps)
  have "read_args sample_client_runtime (\<lambda>_ _. []) ?p 3 1 = Some (Inr (Some (Inr [JInt 42])), 0)"
    unfolding read_args_def
    by (subst read_loop.simps) (simp add: sample_client_runtime_def args_try_from_def host_call_def client_functions_def)
  then have read: "read_args (ce_runtime sample_client_env) (ce_render sample_client_env) ?p (cc_peer_id ?cc) 1 =
      Some (Inr (Some (Inr [JInt 42])), 0)"
    by (simp add: sample_client_env_def sample_client_def connected_client_new_def)
  have vm: "local_vm sample_client_env ?cc = Inr 1"
    by (simp add: local_vm_def sample_client_def connected_client_new_def make_vm_def sample_client_env_def Let_def)
  have "\<forall>q \<in> set []. pt_id q \<noteq> pt_id ?p" by simp
  note first = wait_reads_99_particles [OF here this, of sample_client_env, THEN conjunct1, THEN spec, THEN spec, THEN spec,
      THEN spec, THEN spec, THEN mp]
  have "\<exists>cc'. wait_particle_args sample_client_env (pt_id ?p) 9 ?cc = Some (returned_result (Inr [JInt 42]), 9, cc') \<and>
      particles_in (cc_inlet cc') = []"
    by (rule first) (use read vm in \<open>simp only: list.size simp_thms\<close>, simp)
  then show ?thesis by (simp only: returned_result_def sum.case)
qed

end
