(* ===== verification/Kad_Behaviour.thy ===== *)
theory Kad_Behaviour
  imports Particle
begin

section \<open>Peer discovery over Kademlia\<close>

text \<open>
  \<^verbatim>\<open>crates/kademlia/src/{behaviour,api,error}.rs\<close> and the discovery settings of
  \<^verbatim>\<open>crates/server-config/src/kademlia_config.rs\<close>. The Kademlia protocol itself is libp2p's: a value
  with the operations the code calls as the fields of a record. Answers on oneshot channels are
  appended to a log; \<open>kd_timer\<close> is the delay that was last set. \<open>now\<close> is \<^verbatim>\<open>Instant::now()\<close>.
\<close>

type_synonym query_id = nat

record 'k kad_api =
  kad_add_address :: "peer_id \<Rightarrow> multiaddr \<Rightarrow> 'k \<Rightarrow> 'k"
  kad_bootstrap :: "'k \<Rightarrow> (query_id \<times> 'k) option"
  kad_addresses_of_peer :: "'k \<Rightarrow> peer_id \<Rightarrow> multiaddr list"
  kad_get_closest_peers :: "bytes \<Rightarrow> 'k \<Rightarrow> query_id \<times> 'k"
  kad_closest_local_peers :: "'k \<Rightarrow> bytes \<Rightarrow> peer_id list"
  kad_peer_key :: "peer_id \<Rightarrow> bytes"

datatype kademlia_error = NoPeersFound | PeerTimedOut | QueryTimedOut | Cancelled | NoKnownPeers | PeerBanned

datatype pending_query = QueryPeer peer_id | QueryNeighborhood outlet | QueryUnit outlet

record pending_peer =
  pd_out :: outlet
  pd_created :: instant

record failed_peer =
  ban :: "instant option"
  fail_count :: nat

definition failed_peer_default :: failed_peer where
  "failed_peer_default = \<lparr>ban = None, fail_count = 0\<rparr>"

definition failed_peer_increment :: "failed_peer \<Rightarrow> failed_peer" where
  "failed_peer_increment f = f\<lparr>fail_count := fail_count f + 1\<rparr>"

record kademlia_config =
  query_timeout :: duration
  peer_fail_threshold :: nat
  ban_cooldown :: duration

text \<open>The defaults, in milliseconds.\<close>

definition kademlia_config_default :: kademlia_config where
  "kademlia_config_default = \<lparr>query_timeout = 3000, peer_fail_threshold = 3, ban_cooldown = 60000\<rparr>"

datatype kad_reply =
    ReplyAddrs outlet "kademlia_error + multiaddr list"
  | ReplyPeers outlet "kademlia_error + peer_id list"
  | ReplyUnit outlet "kademlia_error + unit"
  | ReplyLocal outlet "multiaddr list"

record 'k kademlia =
  kd_kademlia :: 'k
  kd_queries :: "(query_id \<times> pending_query) list"
  pending_peers :: "(peer_id \<times> pending_peer list) list"
  failed_peers :: "(peer_id \<times> failed_peer) list"
  kd_config :: kademlia_config
  kd_timer :: duration
  kd_replies :: "kad_reply list"

definition kademlia_new :: "kademlia_config \<Rightarrow> 'k \<Rightarrow> 'k kademlia" where
  "kademlia_new cfg k = \<lparr>kd_kademlia = k, kd_queries = [], pending_peers = [], failed_peers = [],
     kd_config = cfg, kd_timer = query_timeout cfg, kd_replies = []\<rparr>"

definition kd_reply :: "kad_reply list \<Rightarrow> 'k kademlia \<Rightarrow> 'k kademlia" where
  "kd_reply rs st = st\<lparr>kd_replies := kd_replies st @ rs\<rparr>"

subsection \<open>Commands\<close>

definition add_kad_node :: "'k kad_api \<Rightarrow> peer_id \<Rightarrow> multiaddr list \<Rightarrow> 'k kademlia \<Rightarrow> 'k kademlia" where
  "add_kad_node K p addrs st = st\<lparr>kd_kademlia := fold (kad_add_address K p) addrs (kd_kademlia st)\<rparr>"

definition kad_add_contact :: "'k kad_api \<Rightarrow> contact \<Rightarrow> 'k kademlia \<Rightarrow> 'k kademlia" where
  "kad_add_contact K c st =
     st\<lparr>kd_kademlia := fold (kad_add_address K (ct_peer_id c)) (ct_addresses c) (kd_kademlia st)\<rparr>"

definition kd_bootstrap :: "'k kad_api \<Rightarrow> outlet \<Rightarrow> 'k kademlia \<Rightarrow> 'k kademlia" where
  "kd_bootstrap K out st =
     (case kad_bootstrap K (kd_kademlia st) of
        Some (q, k) \<Rightarrow> st\<lparr>kd_kademlia := k, kd_queries := AList.update q (QueryUnit out) (kd_queries st)\<rparr>
      | None \<Rightarrow> kd_reply [ReplyUnit out (Inl NoKnownPeers)] st)"

definition local_lookup :: "'k kad_api \<Rightarrow> peer_id \<Rightarrow> outlet \<Rightarrow> 'k kademlia \<Rightarrow> 'k kademlia" where
  "local_lookup K p out st = kd_reply [ReplyLocal out (kad_addresses_of_peer K (kd_kademlia st) p)] st"

definition is_banned :: "peer_id \<Rightarrow> 'k kademlia \<Rightarrow> bool" where
  "is_banned p st = (case map_of (failed_peers st) p of None \<Rightarrow> False | Some f \<Rightarrow> ban f \<noteq> None)"

definition discover_peer :: "'k kad_api \<Rightarrow> instant \<Rightarrow> peer_id \<Rightarrow> outlet \<Rightarrow> 'k kademlia \<Rightarrow> 'k kademlia" where
  "discover_peer K now p out st =
     (let local = kad_addresses_of_peer K (kd_kademlia st) p in
      if local \<noteq> [] then kd_reply [ReplyAddrs out (Inr local)] st
      else if is_banned p st then kd_reply [ReplyAddrs out (Inl PeerBanned)] st
      else
        (let outlets = (case map_of (pending_peers st) p of None \<Rightarrow> [] | Some os \<Rightarrow> os);
             st1 = st\<lparr>pending_peers := AList.update p (outlets @ [\<lparr>pd_out = out, pd_created = now\<rparr>])
                                        (pending_peers st)\<rparr>
         in if outlets = [] then
              (let (q, k) = kad_get_closest_peers K (kad_peer_key K p) (kd_kademlia st1)
               in st1\<lparr>kd_kademlia := k, kd_queries := AList.update q (QueryPeer p) (kd_queries st1)\<rparr>)
            else st1))"

definition kad_neighborhood :: "'k kad_api \<Rightarrow> bytes \<Rightarrow> nat \<Rightarrow> outlet \<Rightarrow> 'k kademlia \<Rightarrow> 'k kademlia" where
  "kad_neighborhood K key n out st =
     kd_reply [ReplyPeers out (Inr (take n (kad_closest_local_peers K (kd_kademlia st) key)))] st"

definition remote_neighborhood :: "'k kad_api \<Rightarrow> bytes \<Rightarrow> outlet \<Rightarrow> 'k kademlia \<Rightarrow> 'k kademlia" where
  "remote_neighborhood K key out st =
     (let (q, k) = kad_get_closest_peers K key (kd_kademlia st)
      in st\<lparr>kd_kademlia := k, kd_queries := AList.update q (QueryNeighborhood out) (kd_queries st)\<rparr>)"

datatype kad_command =
    KAddContact contact
  | KLocalLookup peer_id outlet
  | KBootstrap outlet
  | KDiscoverPeer peer_id outlet
  | KNeighborhood bytes nat outlet

fun kd_execute :: "'k kad_api \<Rightarrow> instant \<Rightarrow> kad_command \<Rightarrow> 'k kademlia \<Rightarrow> 'k kademlia" where
  "kd_execute K now (KAddContact c) st = kad_add_contact K c st"
| "kd_execute K now (KBootstrap out) st = kd_bootstrap K out st"
| "kd_execute K now (KLocalLookup p out) st = local_lookup K p out st"
| "kd_execute K now (KDiscoverPeer p out) st = discover_peer K now p out st"
| "kd_execute K now (KNeighborhood key n out) st = kad_neighborhood K key n out st"

subsection \<open>Events of the protocol\<close>

definition peer_discovered :: "peer_id \<Rightarrow> multiaddr list \<Rightarrow> 'k kademlia \<Rightarrow> 'k kademlia" where
  "peer_discovered p addrs st =
     (let pendings = (case map_of (pending_peers st) p of None \<Rightarrow> [] | Some os \<Rightarrow> os)
      in kd_reply (map (\<lambda>d. ReplyAddrs (pd_out d) (Inr addrs)) pendings)
           (st\<lparr>pending_peers := AList.delete p (pending_peers st),
               failed_peers := AList.delete p (failed_peers st)\<rparr>))"

datatype closest_result = ClosestOk "peer_id list" | ClosestTimeout "peer_id list"

fun closest_reply :: "closest_result \<Rightarrow> kademlia_error + peer_id list" where
  "closest_reply (ClosestOk peers) = (if peers \<noteq> [] then Inr peers else Inl NoPeersFound)"
| "closest_reply (ClosestTimeout peers) = (if peers \<noteq> [] then Inr peers else Inl QueryTimedOut)"

definition closest_finished :: "'k kad_api \<Rightarrow> query_id \<Rightarrow> closest_result \<Rightarrow> 'k kademlia \<Rightarrow> 'k kademlia" where
  "closest_finished K q result st =
     (let st1 = st\<lparr>kd_queries := AList.delete q (kd_queries st)\<rparr> in
      case map_of (kd_queries st) q of
        None \<Rightarrow> st
      | Some (QueryPeer p) \<Rightarrow>
          (let addrs = kad_addresses_of_peer K (kd_kademlia st1) p
           in if addrs \<noteq> [] then peer_discovered p addrs st1 else st1)
      | Some (QueryNeighborhood out) \<Rightarrow> kd_reply [ReplyPeers out (closest_reply result)] st1
      | Some (QueryUnit out) \<Rightarrow> kd_reply [ReplyUnit out (Inr ())] st1)"

text \<open>The result of a bootstrap step: how many buckets remain, if known.\<close>

definition bootstrap_finished :: "query_id \<Rightarrow> nat option \<Rightarrow> 'k kademlia \<Rightarrow> 'k kademlia" where
  "bootstrap_finished q num_remaining st =
     (if num_remaining = Some 0 then
        (let st1 = st\<lparr>kd_queries := AList.delete q (kd_queries st)\<rparr> in
         case map_of (kd_queries st) q of
           Some (QueryUnit out) \<Rightarrow> kd_reply [ReplyUnit out (Inr ())] st1
         | _ \<Rightarrow> st1)
      else st)"

datatype kad_event =
    GetClosestPeersCompleted query_id closest_result
  | BootstrapCompleted query_id "nat option"
  | RoutingUpdated peer_id "multiaddr list"
  | RoutablePeer peer_id multiaddr
  | PendingRoutablePeer peer_id multiaddr
  | OtherKadEvent

fun inject_kad_event :: "'k kad_api \<Rightarrow> kad_event \<Rightarrow> 'k kademlia \<Rightarrow> 'k kademlia" where
  "inject_kad_event K (GetClosestPeersCompleted q r) st = closest_finished K q r st"
| "inject_kad_event K (BootstrapCompleted q n) st = bootstrap_finished q n st"
| "inject_kad_event K (RoutingUpdated p addrs) st = peer_discovered p addrs st"
| "inject_kad_event K (RoutablePeer p a) st = peer_discovered p [a] st"
| "inject_kad_event K (PendingRoutablePeer p a) st = peer_discovered p [a] st"
| "inject_kad_event K OtherKadEvent st = st"

subsection \<open>Timeouts and bans\<close>

definition has_timed_out :: "instant \<Rightarrow> instant \<Rightarrow> duration \<Rightarrow> duration \<Rightarrow> bool \<times> duration" where
  "has_timed_out now timestamp timeout wake =
     (let elapsed = now - timestamp in
      if elapsed \<le> timeout \<and> timeout - elapsed \<noteq> 0
      then (False, min (timeout - elapsed) wake) else (True, wake))"

text \<open>\<^verbatim>\<open>drain_filter\<close> over the waiters of one peer: those that expired, those that stay, the wake time.\<close>

fun drain_expired ::
    "instant \<Rightarrow> duration \<Rightarrow> pending_peer list \<Rightarrow> duration \<Rightarrow> pending_peer list \<times> pending_peer list \<times> duration" where
  "drain_expired now timeout [] wake = ([], [], wake)"
| "drain_expired now timeout (d # ds) wake =
     (let (out, wake1) = has_timed_out now (pd_created d) timeout wake;
          (expired, kept, wake2) = drain_expired now timeout ds wake1
      in if out then (d # expired, kept, wake2) else (expired, d # kept, wake2))"

fun expire_pending ::
    "instant \<Rightarrow> duration \<Rightarrow> (peer_id \<times> pending_peer list) list \<Rightarrow> (peer_id \<times> failed_peer) list \<Rightarrow> duration \<Rightarrow>
     (peer_id \<times> pending_peer list) list \<times> (peer_id \<times> failed_peer) list \<times> duration \<times> kad_reply list" where
  "expire_pending now timeout [] failed wake = ([], failed, wake, [])"
| "expire_pending now timeout ((p, ds) # rest) failed wake =
     (let (expired, kept, wake1) = drain_expired now timeout ds wake;
          failed1 = (if expired \<noteq> [] then
              AList.update p (failed_peer_increment
                (case map_of failed p of None \<Rightarrow> failed_peer_default | Some f \<Rightarrow> f)) failed
            else failed);
          (rest', failed2, wake2, replies) = expire_pending now timeout rest failed1 wake1
      in (if kept = [] then rest' else (p, kept) # rest', failed2, wake2,
          map (\<lambda>d. ReplyAddrs (pd_out d) (Inl PeerTimedOut)) expired @ replies))"

fun update_bans ::
    "instant \<Rightarrow> kademlia_config \<Rightarrow> (peer_id \<times> failed_peer) list \<Rightarrow> duration \<Rightarrow>
     (peer_id \<times> failed_peer) list \<times> duration" where
  "update_bans now cfg [] wake = ([], wake)"
| "update_bans now cfg ((p, f) # rest) wake =
     (let (unban, wake1) = (case ban f of
            Some t \<Rightarrow> has_timed_out now t (ban_cooldown cfg) wake
          | None \<Rightarrow> (False, wake));
          (rest', wake2) = update_bans now cfg rest wake1
      in if unban then (rest', wake2)
         else ((p, if peer_fail_threshold cfg \<le> fail_count f then f\<lparr>ban := Some now\<rparr> else f) # rest', wake2))"

definition kd_poll :: "'k kad_api \<Rightarrow> instant \<Rightarrow> kad_command list \<Rightarrow> 'k kademlia \<Rightarrow> 'k kademlia" where
  "kd_poll K now cmds st0 =
     (let st = fold (kd_execute K now) cmds st0; cfg = kd_config st in
      if pending_peers st = [] \<and> failed_peers st = [] then st
      else
        (let wake = min (query_timeout cfg) (ban_cooldown cfg);
             (pending, failed1, wake1, replies) =
               expire_pending now (query_timeout cfg * 2) (pending_peers st) (failed_peers st) wake;
             (failed2, wake2) = update_bans now cfg failed1 wake1
         in kd_reply replies
              (st\<lparr>pending_peers := pending, failed_peers := failed2, kd_timer := wake2\<rparr>)))"

subsection \<open>Lemmas\<close>

lemma has_timed_out_iff:
  "has_timed_out now t timeout wake =
     (timeout \<le> now - t, if timeout \<le> now - t then wake else min (timeout - (now - t)) wake)"
  by (auto simp: has_timed_out_def Let_def)

lemma drain_expired_spec:
  "drain_expired now timeout ds wake = (expired, kept, wake') \<Longrightarrow>
   mset ds = mset expired + mset kept \<and> wake' \<le> wake \<and>
   (\<forall>d\<in>set expired. timeout \<le> now - pd_created d) \<and>
   (\<forall>d\<in>set kept. now - pd_created d < timeout \<and> wake' \<le> timeout - (now - pd_created d))"
proof (induction ds arbitrary: expired kept wake wake')
  case (Cons d ds)
  obtain out wake1 where h: "has_timed_out now (pd_created d) timeout wake = (out, wake1)" by fastforce
  obtain ex ke wake2 where r: "drain_expired now timeout ds wake1 = (ex, ke, wake2)" by (metis prod_cases3)
  from Cons.IH [OF r] h r Cons.prems show ?case
    by (auto simp: has_timed_out_iff split: if_splits)
qed simp

definition waiters :: "(peer_id \<times> pending_peer list) list \<Rightarrow> outlet multiset" where
  "waiters = assoc_sum (\<lambda>ds. mset (map pd_out ds))"

fun addrs_reply_outlet :: "kad_reply \<Rightarrow> outlet multiset" where
  "addrs_reply_outlet (ReplyAddrs out _) = {#out#}"
| "addrs_reply_outlet _ = {#}"

definition addrs_replied :: "kad_reply list \<Rightarrow> outlet multiset" where
  "addrs_replied rs = sum_list (map addrs_reply_outlet rs)"

lemma addrs_replied_simps [simp]:
  "addrs_replied [] = {#}" "addrs_replied (r # rs) = addrs_reply_outlet r + addrs_replied rs"
  "addrs_replied (rs @ rs') = addrs_replied rs + addrs_replied rs'"
  "addrs_replied (map (\<lambda>d. ReplyAddrs (pd_out d) x) ds) = mset (map pd_out ds)"
  by (simp_all add: addrs_replied_def) (induction ds; simp)

lemma expire_pending_spec:
  "expire_pending now timeout ps failed wake = (ps', failed', wake', replies) \<Longrightarrow>
   waiters ps = waiters ps' + addrs_replied replies \<and> wake' \<le> wake \<and>
   (\<forall>(p, ds)\<in>set ps'. ds \<noteq> [] \<and> (\<forall>d\<in>set ds. now - pd_created d < timeout \<and>
      wake' \<le> timeout - (now - pd_created d))) \<and>
   set (map fst ps') \<subseteq> set (map fst ps) \<and> (distinct (map fst ps) \<longrightarrow> distinct (map fst ps'))"
proof (induction ps arbitrary: failed wake ps' failed' wake' replies)
  case Nil
  then show ?case by (simp add: waiters_def)
next
  case (Cons pds ps)
  obtain p ds where pds: "pds = (p, ds)" by (cases pds)
  obtain expired kept wake1 where d: "drain_expired now timeout ds wake = (expired, kept, wake1)"
    by (metis prod_cases3)
  let ?failed = "if expired \<noteq> [] then
              AList.update p (failed_peer_increment
                (case map_of failed p of None \<Rightarrow> failed_peer_default | Some f \<Rightarrow> f)) failed
            else failed"
  obtain qs failed2 wake2 rs where e: "expire_pending now timeout ps ?failed wake1 = (qs, failed2, wake2, rs)"
    by (metis prod_cases4)
  have eq: "ps' = (if kept = [] then qs else (p, kept) # qs)" "wake' = wake2"
    "replies = map (\<lambda>d. ReplyAddrs (pd_out d) (Inl PeerTimedOut)) expired @ rs"
    using Cons.prems pds d e by auto
  note D = drain_expired_spec [OF d] and E = Cons.IH [OF e]
  have "mset (map pd_out ds) = mset (map pd_out expired) + mset (map pd_out kept)"
    using D by (metis image_mset_union mset_map)
  then have "waiters (pds # ps) = waiters ps' + addrs_replied replies"
    using E by (auto simp: eq pds waiters_def algebra_simps)
  moreover have "\<forall>(p, ds)\<in>set ps'. ds \<noteq> [] \<and> (\<forall>d\<in>set ds. now - pd_created d < timeout \<and>
      wake' \<le> timeout - (now - pd_created d))"
    using D E by (auto simp: eq split: if_splits intro: order_trans)
  moreover have "wake' \<le> wake" using D E eq(2) by simp
  moreover have "set (map fst ps') \<subseteq> set (map fst (pds # ps))" "distinct (map fst (pds # ps)) \<longrightarrow> distinct (map fst ps')"
    using E by (auto simp: eq pds split: if_splits)
  ultimately show ?case by blast
qed

lemma expire_pending_failed:
  "expire_pending now timeout ps failed wake = (ps', failed', wake', replies) \<Longrightarrow>
   (distinct (map fst failed) \<longrightarrow> distinct (map fst failed')) \<and>
   (map_of failed p = Some f \<longrightarrow>
      (\<exists>f'. map_of failed' p = Some f' \<and> ban f' = ban f \<and> fail_count f \<le> fail_count f'))"
proof (induction ps arbitrary: failed wake ps' failed' wake' replies f)
  case (Cons qds ps)
  obtain q ds where qds: "qds = (q, ds)" by (cases qds)
  obtain expired kept wake1 where d: "drain_expired now timeout ds wake = (expired, kept, wake1)"
    by (metis prod_cases3)
  let ?failed = "if expired \<noteq> [] then
              AList.update q (failed_peer_increment
                (case map_of failed q of None \<Rightarrow> failed_peer_default | Some f \<Rightarrow> f)) failed
            else failed"
  obtain qs failed2 wake2 rs where e: "expire_pending now timeout ps ?failed wake1 = (qs, failed2, wake2, rs)"
    by (metis prod_cases4)
  have eq: "failed' = failed2" using Cons.prems qds d e by auto
  have "distinct (map fst failed) \<longrightarrow> distinct (map fst ?failed)" by (simp add: distinct_AList_update)
  moreover have "\<exists>f1. map_of ?failed p = Some f1 \<and> ban f1 = ban f \<and> fail_count f \<le> fail_count f1"
    if "map_of failed p = Some f"
    using that by (auto simp: failed_peer_increment_def)
  ultimately show ?case using Cons.IH [OF e] unfolding eq by (metis order_trans)
qed simp

lemma update_bans_spec:
  "update_bans now cfg fs wake = (fs', wake') \<Longrightarrow>
   wake' \<le> wake \<and> set (map fst fs') \<subseteq> set (map fst fs) \<and>
   (distinct (map fst fs) \<longrightarrow> distinct (map fst fs') \<and>
     map_of fs' p = (case map_of fs p of
       None \<Rightarrow> None
     | Some f \<Rightarrow>
         if \<exists>t. ban f = Some t \<and> ban_cooldown cfg \<le> now - t then None
         else Some (if peer_fail_threshold cfg \<le> fail_count f then f\<lparr>ban := Some now\<rparr> else f)))"
proof (induction fs arbitrary: wake wake' fs')
  case (Cons qf fs)
  obtain q f where qf: "qf = (q, f)" by (cases qf)
  obtain unban wake1 where u: "(case ban f of Some t \<Rightarrow> has_timed_out now t (ban_cooldown cfg) wake
      | None \<Rightarrow> (False, wake)) = (unban, wake1)" by fastforce
  obtain rest wake2 where r: "update_bans now cfg fs wake1 = (rest, wake2)" by fastforce
  have fs': "fs' = (if unban then rest
      else (q, if peer_fail_threshold cfg \<le> fail_count f then f\<lparr>ban := Some now\<rparr> else f) # rest)" "wake' = wake2"
    using Cons.prems qf u r by (auto split: if_splits)
  have unban: "unban \<longleftrightarrow> (\<exists>t. ban f = Some t \<and> ban_cooldown cfg \<le> now - t)" "wake1 \<le> wake"
    using u by (auto simp: has_timed_out_iff split: option.splits if_splits)
  note IH = Cons.IH [OF r]
  have "map_of rest p = None" if "p = q" "distinct (map fst (qf # fs))"
  proof -
    have "map_of fs p = None" using that qf by (simp add: map_of_eq_None_iff)
    then show ?thesis using that(2) IH by simp
  qed
  then show ?case using IH unban by (auto simp: qf fs')
qed simp

subsection \<open>Every discovery is answered once\<close>

definition kad_wf :: "'k kademlia \<Rightarrow> bool" where
  "kad_wf st \<longleftrightarrow> distinct (map fst (pending_peers st))"

definition kad_accounted :: "'k kademlia \<Rightarrow> outlet multiset" where
  "kad_accounted st = waiters (pending_peers st) + addrs_replied (kd_replies st)"

lemma kad_accounted_reply [simp]:
  "kad_accounted (kd_reply rs st) = kad_accounted st + addrs_replied rs"
  "kad_wf (kd_reply rs st) = kad_wf st"
  by (simp_all add: kad_accounted_def kd_reply_def kad_wf_def)

lemma peer_discovered_accounted:
  assumes "kad_wf st"
  shows "kad_accounted (peer_discovered p addrs st) = kad_accounted st \<and> kad_wf (peer_discovered p addrs st)"
proof (cases "map_of (pending_peers st) p")
  case None
  then have "AList.delete p (pending_peers st) = pending_peers st" by (simp add: map_of_eq_None_iff)
  with None assms show ?thesis by (simp add: peer_discovered_def kad_accounted_def kad_wf_def kd_reply_def)
next
  case (Some ds)
  with assms assoc_sum_delete_Some [of "pending_peers st" p ds "\<lambda>ds. mset (map pd_out ds)"] show ?thesis
    by (simp add: peer_discovered_def kad_accounted_def kad_wf_def kd_reply_def waiters_def
        distinct_AList_delete del: mset_map)
qed

lemma discover_peer_accounted:
  assumes "kad_wf st"
  shows "kad_accounted (discover_peer K now p out st) = kad_accounted st + {#out#} \<and> kad_wf (discover_peer K now p out st)"
proof -
  let ?outs = "case map_of (pending_peers st) p of None \<Rightarrow> [] | Some os \<Rightarrow> os"
  let ?ps = "AList.update p (?outs @ [\<lparr>pd_out = out, pd_created = now\<rparr>]) (pending_peers st)"
  have "waiters ?ps = waiters (pending_peers st) + {#out#}"
  proof (cases "map_of (pending_peers st) p")
    case None
    then show ?thesis by (simp add: waiters_def assoc_sum_update_None)
  next
    case (Some ds)
    with assms assoc_sum_update_Some [of "pending_peers st" p ds "\<lambda>ds. mset (map pd_out ds)"
        "ds @ [\<lparr>pd_out = out, pd_created = now\<rparr>]"] show ?thesis
      by (simp add: waiters_def kad_wf_def)
  qed
  moreover have "distinct (map fst ?ps)" using assms by (simp add: kad_wf_def distinct_AList_update)
  ultimately show ?thesis
    using assms by (auto simp: discover_peer_def kad_accounted_def kad_wf_def kd_reply_def Let_def split: prod.splits)
qed

fun discovery_outlets :: "kad_command \<Rightarrow> outlet multiset" where
  "discovery_outlets (KDiscoverPeer _ out) = {#out#}"
| "discovery_outlets _ = {#}"

lemma kd_execute_accounted:
  assumes "kad_wf st"
  shows "kad_accounted (kd_execute K now c st) = kad_accounted st + discovery_outlets c \<and> kad_wf (kd_execute K now c st)"
  using assms discover_peer_accounted [OF assms]
  by (cases c) (auto simp: kad_add_contact_def kd_bootstrap_def local_lookup_def kad_neighborhood_def
      kad_accounted_def kad_wf_def kd_reply_def split: option.splits prod.splits)

lemma kd_executes_accounted:
  "kad_wf st \<Longrightarrow> kad_accounted (fold (kd_execute K now) cmds st) =
     kad_accounted st + sum_list (map discovery_outlets cmds) \<and> kad_wf (fold (kd_execute K now) cmds st)"
proof (induction cmds arbitrary: st)
  case (Cons c cmds)
  with kd_execute_accounted [OF Cons.prems, of K now c] show ?case by (simp add: add.assoc)
qed simp

lemma kd_config_execute [simp]: "kd_config (kd_execute K now c st) = kd_config st"
  by (cases c) (auto simp: kad_add_contact_def kd_bootstrap_def local_lookup_def kad_neighborhood_def
      discover_peer_def kd_reply_def Let_def split: option.splits prod.splits)

lemma kd_config_executes [simp]: "kd_config (fold (kd_execute K now) cmds st) = kd_config st"
  by (induction cmds arbitrary: st) auto

lemma kd_poll_active:
  assumes "\<not> (pending_peers (fold (kd_execute K now) cmds st0) = [] \<and> failed_peers (fold (kd_execute K now) cmds st0) = [])"
  obtains ps failed1 wake1 rs failed2 wake2 where
    "expire_pending now (query_timeout (kd_config st0) * 2) (pending_peers (fold (kd_execute K now) cmds st0))
       (failed_peers (fold (kd_execute K now) cmds st0)) (min (query_timeout (kd_config st0)) (ban_cooldown (kd_config st0)))
     = (ps, failed1, wake1, rs)"
    "update_bans now (kd_config st0) failed1 wake1 = (failed2, wake2)"
    "kd_poll K now cmds st0 = kd_reply rs ((fold (kd_execute K now) cmds st0)
       \<lparr>pending_peers := ps, failed_peers := failed2, kd_timer := wake2\<rparr>)"
proof -
  let ?st = "fold (kd_execute K now) cmds st0"
  obtain ps failed1 wake1 rs where e: "expire_pending now (query_timeout (kd_config st0) * 2) (pending_peers ?st)
      (failed_peers ?st) (min (query_timeout (kd_config st0)) (ban_cooldown (kd_config st0))) = (ps, failed1, wake1, rs)"
    by (metis prod_cases4)
  obtain failed2 wake2 where u: "update_bans now (kd_config st0) failed1 wake1 = (failed2, wake2)" by fastforce
  have "kd_poll K now cmds st0 =
      kd_reply rs (?st\<lparr>pending_peers := ps, failed_peers := failed2, kd_timer := wake2\<rparr>)"
    unfolding kd_poll_def Let_def kd_config_executes e using assms u by auto
  with e u show thesis by (rule that)
qed

lemma kd_poll_pending:
  assumes wf: "kad_wf st0"
  shows "kad_accounted (kd_poll K now cmds st0) = kad_accounted st0 + sum_list (map discovery_outlets cmds) \<and>
   kad_wf (kd_poll K now cmds st0) \<and>
   (\<forall>(p, ds)\<in>set (pending_peers (kd_poll K now cmds st0)). ds \<noteq> [] \<and>
      (\<forall>d\<in>set ds. now - pd_created d < query_timeout (kd_config st0) * 2 \<and>
         kd_timer (kd_poll K now cmds st0) \<le> query_timeout (kd_config st0) * 2 - (now - pd_created d)))"
proof -
  let ?st = "fold (kd_execute K now) cmds st0"
  note X = kd_executes_accounted [OF wf, of K now cmds]
  show ?thesis
  proof (cases "pending_peers ?st = [] \<and> failed_peers ?st = []")
    case True
    with X show ?thesis by (simp add: kd_poll_def Let_def)
  next
    case False
    then obtain ps failed1 wake1 rs failed2 wake2 where
      e: "expire_pending now (query_timeout (kd_config st0) * 2) (pending_peers ?st) (failed_peers ?st)
            (min (query_timeout (kd_config st0)) (ban_cooldown (kd_config st0))) = (ps, failed1, wake1, rs)"
      and u: "update_bans now (kd_config st0) failed1 wake1 = (failed2, wake2)"
      and poll: "kd_poll K now cmds st0 = kd_reply rs (?st\<lparr>pending_peers := ps, failed_peers := failed2, kd_timer := wake2\<rparr>)"
      by (rule kd_poll_active)
    note E = expire_pending_spec [OF e] and U = update_bans_spec [OF u]
    have "kad_wf (kd_poll K now cmds st0)"
      using E X by (simp add: poll kad_wf_def kd_reply_def)
    moreover have "kad_accounted (kd_poll K now cmds st0) = kad_accounted ?st"
      using E by (simp add: poll kad_accounted_def kd_reply_def algebra_simps)
    ultimately show ?thesis using E U X by (fastforce simp: poll kd_reply_def)
  qed
qed

lemma inject_kad_event_accounted:
  assumes "kad_wf st"
  shows "kad_accounted (inject_kad_event K ev st) = kad_accounted st \<and> kad_wf (inject_kad_event K ev st)"
proof -
  have q: "kad_accounted (st\<lparr>kd_queries := qs\<rparr>) = kad_accounted st" "kad_wf (st\<lparr>kd_queries := qs\<rparr>)" for qs
    using assms by (simp_all add: kad_accounted_def kad_wf_def)
  note d = peer_discovered_accounted [OF q(2)] peer_discovered_accounted [OF assms]
  show ?thesis
    using assms by (cases ev) (auto simp: closest_finished_def bootstrap_finished_def q d Let_def
        split: option.splits pending_query.splits)
qed

subsection \<open>Properties\<close>

datatype kad_input = KadPoll instant "kad_command list" | KadEvent kad_event

fun kad_run :: "'k kad_api \<Rightarrow> kad_input list \<Rightarrow> 'k kademlia \<Rightarrow> 'k kademlia" where
  "kad_run K [] st = st"
| "kad_run K (KadPoll now cmds # is) st = kad_run K is (kd_poll K now cmds st)"
| "kad_run K (KadEvent ev # is) st = kad_run K is (inject_kad_event K ev st)"

fun input_discoveries :: "kad_input \<Rightarrow> outlet multiset" where
  "input_discoveries (KadPoll _ cmds) = sum_list (map discovery_outlets cmds)"
| "input_discoveries (KadEvent _) = {#}"

lemma kad_run_accounted:
  "kad_wf st \<Longrightarrow> kad_accounted (kad_run K is st) = kad_accounted st + sum_list (map input_discoveries is)"
proof (induction K "is" st rule: kad_run.induct)
  case (2 K now cmds "is" st)
  with kd_poll_pending [OF "2.prems", of K now cmds] show ?case by (simp add: add.assoc)
next
  case (3 K ev "is" st)
  with inject_kad_event_accounted [OF "3.prems", of K ev] show ?case by simp
qed simp

text \<open>\<^verbatim>\<open>poll\<close> of the network behaviour: the commands, then the answers of libp2p's Kademlia until it is pending or has an
  action for the swarm, which is passed on.\<close>

datatype 'a kad_answer = KadGenerated kad_event | KadAction 'a

fun kad_pump :: "'k kad_api \<Rightarrow> 'a kad_answer list \<Rightarrow> 'k kademlia \<Rightarrow> 'a option \<times> 'k kademlia" where
  "kad_pump K [] st = (None, st)"
| "kad_pump K (KadGenerated e # answers) st = kad_pump K answers (inject_kad_event K e st)"
| "kad_pump K (KadAction a # answers) st = (Some a, st)"

definition kad_behaviour_poll ::
    "'k kad_api \<Rightarrow> instant \<Rightarrow> kad_command list \<Rightarrow> 'a kad_answer list \<Rightarrow> 'k kademlia \<Rightarrow> 'a option \<times> 'k kademlia" where
  "kad_behaviour_poll K now cmds answers st = kad_pump K answers (kd_poll K now cmds st)"

fun kad_pumped :: "'a kad_answer list \<Rightarrow> kad_event list" where
  "kad_pumped (KadGenerated e # answers) = e # kad_pumped answers"
| "kad_pumped _ = []"

lemma kad_pump_run: "snd (kad_pump K answers st) = kad_run K (map KadEvent (kad_pumped answers)) st"
  by (induction K answers st rule: kad_pump.induct) simp_all

text \<open>A poll by the swarm is a poll followed by the events Kademlia had ready, so the histories below are histories of it.\<close>

lemma kad_behaviour_poll_run:
  "snd (kad_behaviour_poll K now cmds answers st) = kad_run K (KadPoll now cmds # map KadEvent (kad_pumped answers)) st"
  by (simp add: kad_behaviour_poll_def kad_pump_run)

text \<open>C5 [discoveries_answered_once]: Through any history of commands, polls and protocol events, the callers of peer discovery
  are exactly those still waiting and those answered: nobody is answered twice or forgotten.\<close>

theorem discoveries_answered_once:
  "waiters (pending_peers (kad_run K is (kademlia_new cfg k))) +
     addrs_replied (kd_replies (kad_run K is (kademlia_new cfg k))) = sum_list (map input_discoveries is)"
proof -
  have "kad_wf (kademlia_new cfg k)" "kad_accounted (kademlia_new cfg k) = {#}"
    by (simp_all add: kad_wf_def kad_accounted_def kademlia_new_def waiters_def)
  with kad_run_accounted [of "kademlia_new cfg k" K "is"] show ?thesis by (simp add: kad_accounted_def)
qed

text \<open>[waiters_time_out]: After a poll nobody has been waiting for a peer for twice the query timeout or longer, no
  entry without waiters is left, and the timer is set to fire before the next waiter reaches its
  limit.\<close>

theorem waiters_time_out:
  assumes "kad_wf st" and "(p, ds) \<in> set (pending_peers (kd_poll K now cmds st))"
  shows "ds \<noteq> [] \<and> (\<forall>d\<in>set ds. now < pd_created d + 2 * query_timeout (kd_config st) \<and>
           (pd_created d \<le> now \<longrightarrow>
              now + kd_timer (kd_poll K now cmds st) \<le> pd_created d + 2 * query_timeout (kd_config st)))"
  using kd_poll_pending [OF assms(1), of K now cmds] assms(2) by fastforce

definition sample_kad :: "(peer_id \<times> multiaddr) list kad_api" where
  "sample_kad = \<lparr>kad_add_address = (\<lambda>p a k. (p, a) # k), kad_bootstrap = (\<lambda>k. None),
     kad_addresses_of_peer = (\<lambda>k p. map snd (filter (\<lambda>(q, _). q = p) k)),
     kad_get_closest_peers = (\<lambda>_ k. (length k, k)), kad_closest_local_peers = (\<lambda>k _. map fst k),
     kad_peer_key = (\<lambda>p. replicate p 0)\<rparr>"

definition waiting_kad :: "(peer_id \<times> multiaddr) list kademlia" where
  "waiting_kad = (kademlia_new kademlia_config_default [])
     \<lparr>pending_peers := [(5, [\<lparr>pd_out = 1, pd_created = 0\<rparr>, \<lparr>pd_out = 2, pd_created = 4000\<rparr>])]\<rparr>"

theorem waiters_time_out_witness:
  "pending_peers (kd_poll sample_kad 6000 [] waiting_kad) = [(5, [\<lparr>pd_out = 2, pd_created = 4000\<rparr>])] \<and>
   6000 + kd_timer (kd_poll sample_kad 6000 [] waiting_kad) \<le> 10000"
proof -
  have p: "pending_peers (kd_poll sample_kad 6000 [] waiting_kad) = [(5, [\<lparr>pd_out = 2, pd_created = 4000\<rparr>])]"
    by (simp add: kd_poll_def waiting_kad_def kademlia_new_def kademlia_config_default_def has_timed_out_def
        kd_reply_def failed_peer_increment_def failed_peer_default_def Let_def)
  have "kad_wf waiting_kad" by (simp add: kad_wf_def waiting_kad_def)
  from waiters_time_out [OF this, of 5 "[\<lparr>pd_out = 2, pd_created = 4000\<rparr>]" sample_kad 6000 "[]"] p
  show ?thesis by (simp add: waiting_kad_def kademlia_new_def kademlia_config_default_def)
qed

text \<open>[discover_peer_dedups]: Discovering a peer answers at once with the known addresses, or refuses at once a banned peer
  with none; otherwise the caller joins the waiters for that peer, and a query is started exactly
  when nobody was waiting for it.\<close>

theorem discover_peer_dedups:
  "let st' = discover_peer K now p out st; known = kad_addresses_of_peer K (kd_kademlia st) p;
       waiting = (case map_of (pending_peers st) p of None \<Rightarrow> [] | Some ds \<Rightarrow> ds) in
   if known \<noteq> [] then st' = kd_reply [ReplyAddrs out (Inr known)] st
   else if is_banned p st then st' = kd_reply [ReplyAddrs out (Inl PeerBanned)] st
   else kd_replies st' = kd_replies st \<and>
     map_of (pending_peers st') p = Some (waiting @ [\<lparr>pd_out = out, pd_created = now\<rparr>]) \<and>
     (\<forall>q. q \<noteq> p \<longrightarrow> map_of (pending_peers st') q = map_of (pending_peers st) q) \<and>
     (if waiting = []
      then \<exists>qid k. kad_get_closest_peers K (kad_peer_key K p) (kd_kademlia st) = (qid, k) \<and>
             kd_kademlia st' = k \<and> map_of (kd_queries st') qid = Some (QueryPeer p)
      else kd_kademlia st' = kd_kademlia st \<and> kd_queries st' = kd_queries st)"
  by (auto simp: discover_peer_def Let_def split: prod.splits option.splits)

theorem discover_peer_dedups_witness:
  "kd_queries (discover_peer sample_kad 100 5 9 waiting_kad) = kd_queries waiting_kad"
  using discover_peer_dedups [of sample_kad 100 5 9 waiting_kad]
  by (simp add: Let_def sample_kad_def waiting_kad_def kademlia_new_def is_banned_def)

text \<open>Polls that follow one another within a bound.\<close>

fun paced :: "duration \<Rightarrow> instant \<Rightarrow> instant list \<Rightarrow> bool" where
  "paced d t [] = True"
| "paced d t (u # us) \<longleftrightarrow> t \<le> u \<and> u - t \<le> d \<and> paced d u us"

lemma kd_poll_ban:
  fixes K :: "'k kad_api"
  assumes "distinct (map fst (failed_peers st))" and "map_of (failed_peers st) p = Some f"
    and "peer_fail_threshold (kd_config st) \<le> fail_count f" and "ban f = Some t"
    and "now - t < ban_cooldown (kd_config st)"
  defines "st' \<equiv> kd_poll K now [] st"
  shows "distinct (map fst (failed_peers st'))" and "kd_config st' = kd_config st"
    and "\<exists>f'. map_of (failed_peers st') p = Some f' \<and> ban f' = Some now \<and>
           peer_fail_threshold (kd_config st) \<le> fail_count f'"
    and "kd_timer st' \<le> query_timeout (kd_config st)"
proof -
  have active: "\<not> (pending_peers (fold (kd_execute K now) [] st) = [] \<and> failed_peers (fold (kd_execute K now) [] st) = [])"
    using assms(2) by auto
  let ?st = "fold (kd_execute K now) [] st"
  obtain ps failed1 wake1 rs failed2 wake2 where
    e: "expire_pending now (query_timeout (kd_config st) * 2) (pending_peers ?st) (failed_peers ?st)
          (min (query_timeout (kd_config st)) (ban_cooldown (kd_config st))) = (ps, failed1, wake1, rs)"
    and u: "update_bans now (kd_config st) failed1 wake1 = (failed2, wake2)"
    and poll: "kd_poll K now [] st = kd_reply rs (?st\<lparr>pending_peers := ps, failed_peers := failed2, kd_timer := wake2\<rparr>)"
    using active by (rule kd_poll_active)
  from expire_pending_failed [OF e, of p f] assms(1,2) obtain f1 where
    f1: "distinct (map fst failed1)" "map_of failed1 p = Some f1" "ban f1 = Some t"
    "peer_fail_threshold (kd_config st) \<le> fail_count f1" using assms(3,4) by force
  note U = update_bans_spec [OF u, of p]
  show "distinct (map fst (failed_peers st'))" "kd_config st' = kd_config st"
    using U f1(1) by (simp_all add: st'_def poll kd_reply_def)
  show "\<exists>f'. map_of (failed_peers st') p = Some f' \<and> ban f' = Some now \<and>
           peer_fail_threshold (kd_config st) \<le> fail_count f'"
    using U f1 assms(5) by (simp add: st'_def poll kd_reply_def)
  show "kd_timer st' \<le> query_timeout (kd_config st)"
    using U expire_pending_spec [OF e] by (simp add: st'_def poll kd_reply_def)
qed

lemma ban_persists:
  "\<lbrakk>distinct (map fst (failed_peers st)); map_of (failed_peers st) p = Some f;
    peer_fail_threshold (kd_config st) \<le> fail_count f; ban f = Some t;
    query_timeout (kd_config st) < ban_cooldown (kd_config st); paced (query_timeout (kd_config st)) t nows\<rbrakk> \<Longrightarrow>
   is_banned p (fold (\<lambda>now. kd_poll K now []) nows st) \<and>
   (nows \<noteq> [] \<longrightarrow> kd_timer (fold (\<lambda>now. kd_poll K now []) nows st) \<le> query_timeout (kd_config st))"
proof (induction nows arbitrary: st f t)
  case Nil
  then show ?case by (simp add: is_banned_def)
next
  case (Cons now nows)
  have "now - t < ban_cooldown (kd_config st)" using Cons.prems(5,6) by auto
  note step = kd_poll_ban [OF Cons.prems(1-4) this, of K]
  from step(3) obtain f' where f': "map_of (failed_peers (kd_poll K now [] st)) p = Some f'" "ban f' = Some now"
    "peer_fail_threshold (kd_config st) \<le> fail_count f'" by blast
  show ?case
  proof (cases nows)
    case Nil
    with f' step(4) show ?thesis by (simp add: is_banned_def)
  next
    case (Cons u us)
    with Cons.IH [OF step(1) f'(1) _ f'(2)] f'(3) step(2) Cons.prems(5,6) show ?thesis by simp
  qed
qed

text \<open>[ban_never_lifted]: A ban is never lifted while the node keeps polling at the pace of its own timer: with a query timeout
  shorter than the ban cooldown (the defaults are 3 and 60 seconds), a peer that reached
  the failure threshold stays banned after every sequence of polls that follow one another within the query
  timeout, and the timer set by each poll fires within that time. (Each poll restarts the cooldown.)\<close>

theorem ban_never_lifted:
  assumes "distinct (map fst (failed_peers st))" and "map_of (failed_peers st) p = Some f"
    and "peer_fail_threshold (kd_config st) \<le> fail_count f" and "ban f = Some t"
    and "query_timeout (kd_config st) < ban_cooldown (kd_config st)"
    and "paced (query_timeout (kd_config st)) t nows"
  shows "is_banned p (fold (\<lambda>now. kd_poll K now []) nows st) \<and>
         (nows \<noteq> [] \<longrightarrow> kd_timer (fold (\<lambda>now. kd_poll K now []) nows st) \<le> query_timeout (kd_config st))"
  using ban_persists [OF assms] .

definition banned_kad :: "(peer_id \<times> multiaddr) list kademlia" where
  "banned_kad = (kademlia_new kademlia_config_default [])
     \<lparr>failed_peers := [(5, \<lparr>ban = Some 0, fail_count = 3\<rparr>)]\<rparr>"

lemma paced_multiples: "paced d (k * d) (map (\<lambda>i. (k + Suc i) * d) [0..<n])"
proof (induction n arbitrary: k)
  case (Suc n)
  have "map (\<lambda>i. (k + Suc i) * d) [0..<Suc n] =
      (Suc k * d) # map (\<lambda>i. (Suc k + Suc i) * d) [0..<n]"
    unfolding map_upt_Suc by simp
  with Suc [of "Suc k"] show ?case by simp
qed simp

theorem ban_never_lifted_witness:
  "is_banned 5 (fold (\<lambda>now. kd_poll sample_kad now []) (map (\<lambda>i. Suc i * 3000) [0..<1000]) banned_kad)"
  using ban_never_lifted [of banned_kad 5 "\<lparr>ban = Some 0, fail_count = 3\<rparr>" 0 "map (\<lambda>i. Suc i * 3000) [0..<1000]" sample_kad]
    paced_multiples [of 3000 0 1000]
  by (simp add: banned_kad_def kademlia_new_def kademlia_config_default_def del: upt_conv_Cons_Cons)

end
