(* ===== verification/Config.thy ===== *)
theory Config
  imports Data_Store Particle Kad_Behaviour
begin

section \<open>Configuration\<close>

text \<open>
  \<^verbatim>\<open>crates/server-config/src/{args,resolved_config,node_config,keys,dir_config,defaults}.rs\<close>: how the command line and
  the configuration file become a configuration, how the node's key pair is found or made, and the directories
  of a node. The toml parser, the deserializer that \<^verbatim>\<open>serde\<close> derives, clap and the codecs of keys are parameters; files
  are those of the model of the file system. A panic is \<open>None\<close>; assertions of
  debug builds are left out, and of nested errors only one text is kept.
\<close>

subsection \<open>Command line arguments\<close>

record cli_arg =
  ca_id :: string
  ca_long :: string
  ca_takes_value :: bool
  ca_multiple :: bool
  ca_default :: "string option"
  ca_conflicts :: "string list"

definition arg_new :: "string \<Rightarrow> string \<Rightarrow> cli_arg" where
  "arg_new i long = \<lparr>ca_id = i, ca_long = long, ca_takes_value = True, ca_multiple = False, ca_default = None, ca_conflicts = []\<rparr>"

definition create_args :: "cli_arg list" where
  "create_args =
    [(arg_new ''tcp_port'' ''tcp-port'')\<lparr>ca_default := Some ''7777''\<rparr>,
     (arg_new ''websocket_port'' ''ws-port'')\<lparr>ca_default := Some ''9999''\<rparr>,
     (arg_new ''metrics_port'' ''metrics-port'')\<lparr>ca_default := Some ''18080''\<rparr>,
     arg_new ''external_address'' ''external-ip'',
     (arg_new ''external_multiaddresses'' ''external-maddrs'')\<lparr>ca_multiple := True\<rparr>,
     (arg_new ''allow_local_addresses'' ''allow-private-ips'')\<lparr>ca_takes_value := False\<rparr>,
     (arg_new ''bootstrap_nodes'' ''bootstraps'')\<lparr>ca_multiple := True\<rparr>,
     arg_new ''bootstrap_frequency'' ''bootstrap-freq'',
     (arg_new ''local'' ''local'')\<lparr>ca_takes_value := False, ca_conflicts := [''bootstrap_nodes'']\<rparr>,
     (arg_new ''value'' ''keypair-value'')\<lparr>ca_conflicts := [''path'', ''secret_key'']\<rparr>,
     (arg_new ''path'' ''keypair-path'')\<lparr>ca_conflicts := [''value'', ''secret_key'']\<rparr>,
     arg_new ''format'' ''keypair-format'',
     arg_new ''generate_on_absence'' ''gen-keypair'',
     (arg_new ''secret_key'' ''secret-key'')\<lparr>ca_conflicts := [''path'', ''value'']\<rparr>,
     arg_new ''config_file'' ''config'',
     arg_new ''certificate_dir'' ''cert-dir'',
     arg_new ''management_peer_id'' ''management-key'',
     (arg_new ''service_envs'' ''service-envs'')\<lparr>ca_multiple := True\<rparr>,
     arg_new ''blueprint_dir'' ''blueprint-dir'',
     arg_new ''services_workdir'' ''services-workdir'',
     arg_new ''aquavm_pool_size'' ''aqua-pool-size'']"

text \<open>What clap hands over: the values of each argument, and which arguments are present.\<close>

record arg_matches =
  am_values_of :: "string \<Rightarrow> string list option"
  am_is_present :: "string \<Rightarrow> bool"

text \<open>Clap's documented rule for values: those given, else the default value of the argument.\<close>

definition clap_values :: "cli_arg list \<Rightarrow> (string \<rightharpoonup> string list) \<Rightarrow> arg_matches \<Rightarrow> bool" where
  "clap_values as given m \<longleftrightarrow> (\<forall>a\<in>set as. am_values_of m (ca_id a) =
     (case given (ca_id a) of Some vs \<Rightarrow> Some vs | None \<Rightarrow> map_option (\<lambda>d. [d]) (ca_default a)))"

definition ARGS :: "string list" where
  "ARGS = [''websocket_port'', ''tcp_port'', ''value'', ''generate_on_absence'', ''format'', ''path'', ''bootstrap_nodes'',
     ''bootstrap_frequency'', ''external_address'', ''external_multiaddresses'', ''certificate_dir'', ''config_file'',
     ''service_envs'', ''blueprint_dir'', ''management_peer_id'', ''allow_local_addresses'', ''metrics_port'',
     ''aquavm_pool_size'', ''secret_key'']"

subsection \<open>Merging the command line into the file\<close>

datatype toml =
    TString string
  | TInteger int
  | TBoolean bool
  | TArray "toml list"
  | TTable "(string \<times> toml) list"

type_synonym toml_table = "(string \<times> toml) list"

fun single :: "string list \<Rightarrow> string + string" where
  "single [] = Inl ''no more arguments''"
| "single (v # vs) = Inr v"

text \<open>\<^verbatim>\<open>str::parse::<i64>\<close>.\<close>

definition is_digits :: "string \<Rightarrow> bool" where
  "is_digits s \<longleftrightarrow> s \<noteq> [] \<and> list_all (\<lambda>c. 48 \<le> (of_char c :: nat) \<and> (of_char c :: nat) \<le> 57) s"

definition parse_i64 :: "string \<Rightarrow> int option" where
  "parse_i64 s =
     (let (neg, digits) = (case s of
            c # cs \<Rightarrow> if c = CHR ''-'' then (True, cs) else if c = CHR ''+'' then (False, cs) else (False, s)
          | [] \<Rightarrow> (False, s));
          n = (if neg then - int (read_nat digits) else int (read_nat digits))
      in if is_digits digits \<and> - (2 ^ 63) \<le> n \<and> n < 2 ^ 63 then Some n else None)"

text \<open>The arms of the match on the name of an argument.\<close>

datatype arg_kind = IntegerArg | ListArg | FlagArg | KeyPairArg | TextArg

definition arg_kind :: "string \<Rightarrow> arg_kind" where
  "arg_kind k =
     (if k \<in> {''websocket_port'', ''tcp_port'', ''metrics_port'', ''aquavm_pool_size''} then IntegerArg
      else if k \<in> {''bootstrap_nodes'', ''service_envs'', ''external_multiaddresses''} then ListArg
      else if k = ''allow_local_addresses'' then FlagArg
      else if k \<in> {''path'', ''value'', ''format'', ''generate_on_absence'', ''secret_key''} then KeyPairArg
      else TextArg)"

definition key_arg_value :: "string \<Rightarrow> string list \<Rightarrow> string + toml" where
  "key_arg_value k vs =
     (case single vs of
        Inl e \<Rightarrow> Inl e
      | Inr v \<Rightarrow>
          if k = ''generate_on_absence'' then
            (if v = ''true'' then Inr (TBoolean True)
             else if v = ''false'' then Inr (TBoolean False)
             else Inl (''Invalid value for ROOT_KEY_PAIR_GENERATE. Must be true or false, was '' @ v))
          else Inr (TString v))"

definition insert_arg :: "string \<Rightarrow> string list \<Rightarrow> toml_table \<Rightarrow> (string + toml_table) option" where
  "insert_arg k vs config =
     (case arg_kind k of
        IntegerArg \<Rightarrow>
          Some (case single vs of
              Inl e \<Rightarrow> Inl e
            | Inr v \<Rightarrow> (case parse_i64 v of None \<Rightarrow> Inl ''invalid digit'' | Some n \<Rightarrow> Inr (AList.update k (TInteger n) config)))
      | ListArg \<Rightarrow> Some (Inr (AList.update k (TArray (map TString vs)) config))
      | FlagArg \<Rightarrow> Some (Inr (AList.update k (TBoolean True) config))
      | KeyPairArg \<Rightarrow>
          (case key_arg_value k vs of
             Inl e \<Rightarrow> Some (Inl e)
           | Inr v \<Rightarrow>
               (case map_of config ''root_key_pair'' of
                  None \<Rightarrow> Some (Inr (AList.update ''root_key_pair'' (TTable [(k, v)]) config))
                | Some (TTable t) \<Rightarrow> Some (Inr (AList.update ''root_key_pair'' (TTable (AList.update k v t)) config))
                | Some _ \<Rightarrow> None))
      | TextArg \<Rightarrow> Some (map_sum id (\<lambda>v. AList.update k (TString v) config) (single vs)))"

fun insert_args :: "arg_matches \<Rightarrow> string list \<Rightarrow> toml_table \<Rightarrow> (string + toml_table) option" where
  "insert_args m [] config = Some (Inr config)"
| "insert_args m (k # ks) config =
     (case am_values_of m k of
        None \<Rightarrow> insert_args m ks config
      | Some vs \<Rightarrow>
          (case insert_arg k vs config of
             None \<Rightarrow> None
           | Some (Inl e) \<Rightarrow> Some (Inl e)
           | Some (Inr config') \<Rightarrow> insert_args m ks config'))"

definition prefer_key :: "toml_table \<Rightarrow> toml_table" where
  "prefer_key t =
     (let t1 = (if map_of t ''secret_key'' \<noteq> None then AList.delete ''value'' (AList.delete ''path'' t) else t)
      in if map_of t1 ''value'' \<noteq> None then AList.delete ''path'' t1 else t1)"

definition resolve_key_source :: "toml_table \<Rightarrow> toml_table" where
  "resolve_key_source config =
     (case map_of config ''root_key_pair'' of
        Some (TTable t) \<Rightarrow> AList.update ''root_key_pair'' (TTable (prefer_key t)) config
      | _ \<Rightarrow> config)"

definition insert_args_to_config :: "arg_matches \<Rightarrow> toml_table \<Rightarrow> (string + toml_table) option" where
  "insert_args_to_config m config = map_option (map_sum id resolve_key_source) (insert_args m ARGS config)"

subsection \<open>Key pairs\<close>

record ('kp, 'f) key_codec =
  kc_base64_decode :: "string \<Rightarrow> bytes option"
  kc_base64_encode :: "bytes \<Rightarrow> string"
  kc_base58_decode :: "string \<Rightarrow> bytes option"
  kc_format :: "string \<Rightarrow> 'f option"
  kc_from_vec :: "bytes \<Rightarrow> 'f \<Rightarrow> 'kp option"
  kc_from_secret :: "bytes \<Rightarrow> 'f \<Rightarrow> 'kp option"
  kc_generate :: "'f \<Rightarrow> 'kp"
  kc_secret :: "'kp \<Rightarrow> bytes"
  kc_utf8 :: "bytes \<Rightarrow> string option"
  kc_to_utf8 :: "string \<Rightarrow> bytes"

definition is_space :: "char \<Rightarrow> bool" where
  "is_space c \<longleftrightarrow> c = CHR '' '' \<or> (9 \<le> (of_char c :: nat) \<and> (of_char c :: nat) \<le> 13)"

definition trim :: "string \<Rightarrow> string" where
  "trim s = rev (dropWhile is_space (rev (dropWhile is_space s)))"

definition validate_length :: "bytes \<Rightarrow> string + bytes" where
  "validate_length v =
     (if length v = 64 \<or> length v \<le> 32 then Inr v
      else Inl (''secret key length must be 32 (or 64 for keypair), was '' @ show_nat (length v)))"

definition decode_validated :: "(string \<Rightarrow> bytes option) \<Rightarrow> string \<Rightarrow> string \<Rightarrow> string + bytes" where
  "decode_validated decode msg s = (case decode s of None \<Rightarrow> Inl msg | Some v \<Rightarrow> validate_length v)"

definition decode_key_pair :: "('kp, 'f) key_codec \<Rightarrow> bytes \<Rightarrow> string \<Rightarrow> string + 'kp" where
  "decode_key_pair C v fmt =
     (case kc_format C fmt of
        None \<Rightarrow> Inl ''unknown format''
      | Some f \<Rightarrow> (case kc_from_vec C v f of None \<Rightarrow> Inl (''Error decoding keypair of format '' @ fmt) | Some kp \<Rightarrow> Inr kp))"

definition decode_secret_key :: "('kp, 'f) key_codec \<Rightarrow> bytes \<Rightarrow> string \<Rightarrow> string + 'kp" where
  "decode_secret_key C v fmt =
     (case kc_format C fmt of
        None \<Rightarrow> Inl ''unknown format''
      | Some f \<Rightarrow> (case kc_from_secret C v f of None \<Rightarrow> Inl (''Error decoding secret key of format '' @ fmt) | Some kp \<Rightarrow> Inr kp))"

definition decode_key :: "('kp, 'f) key_codec \<Rightarrow> string \<Rightarrow> string \<Rightarrow> string + 'kp" where
  "decode_key C key_string fmt =
     (let s = trim key_string;
          v = (case decode_validated (kc_base64_decode C) ''base64 decoding failed'' s of
                 Inr v \<Rightarrow> Inr v
               | Inl e64 \<Rightarrow>
                   (case decode_validated (kc_base58_decode C) ''base58 decoding failed'' s of
                      Inr v \<Rightarrow> Inr v
                    | Inl e58 \<Rightarrow> Inl (''Tried to decode secret key as base64 and as base58 from string '' @ s @
                        '', but failed. base64 decoding error:'' @ e64 @ '' base58 decoding error:'' @ e58)))
      in case v of
           Inl e \<Rightarrow> Inl e
         | Inr v \<Rightarrow> if length v > 32 then decode_key_pair C v fmt else decode_secret_key C v fmt)"

definition read_secret_key_from_file ::
    "os \<Rightarrow> ('kp, 'f) key_codec \<Rightarrow> path \<Rightarrow> string \<Rightarrow> file_system \<Rightarrow> string + 'kp" where
  "read_secret_key_from_file S C p fmt fs =
     (case read_file S p fs of
        Inl e \<Rightarrow> Inl ''Error reading secret key''
      | Inr b \<Rightarrow>
          (case kc_utf8 C b of
             None \<Rightarrow> Inl ''Error reading secret key''
           | Some s \<Rightarrow> (case decode_key C s fmt of Inl e \<Rightarrow> Inl (''failed to decode key: '' @ e) | Inr kp \<Rightarrow> Inr kp)))"

definition path_parent :: "path \<Rightarrow> path option" where
  "path_parent p = (if snd p = [] then None else Some (fst p, butlast (snd p)))"

definition create_new_key_pair ::
    "os \<Rightarrow> ('kp, 'f) key_codec \<Rightarrow> path \<Rightarrow> 'f \<Rightarrow> file_system \<Rightarrow> (string + 'kp) \<times> file_system" where
  "create_new_key_pair S C p f =
     try_then (\<lambda>fs. case path_parent p of
         None \<Rightarrow> (Inr (), fs)
       | Some d \<Rightarrow> apfst (map_sum (\<lambda>_. ''error creating directory'') id) (create_dir S d fs)) (\<lambda>_ fs.
     (let kp = kc_generate C f in
      case write_file S p (kc_to_utf8 C (kc_base64_encode C (kc_secret C kp))) fs of
        (Inl e, fs1) \<Rightarrow> (Inl ''error creating keypair file'', fs1)
      | (Inr _, fs1) \<Rightarrow> (Inr kp, fs1)))"

definition path_node :: "os \<Rightarrow> path \<Rightarrow> file_system \<Rightarrow> node option" where
  "path_node S p fs = (case path_target (os_cwd S) fs p of Inl _ \<Rightarrow> None | Inr f \<Rightarrow> fs f)"

definition load_key ::
    "os \<Rightarrow> ('kp, 'f) key_codec \<Rightarrow> path \<Rightarrow> string \<Rightarrow> bool \<Rightarrow> file_system \<Rightarrow> (string + 'kp) \<times> file_system" where
  "load_key S C p fmt generate fs =
     (case path_node S p fs of
        None \<Rightarrow>
          if generate then
            (case kc_format C fmt of
               None \<Rightarrow> (Inl ''unknown format'', fs)
             | Some f \<Rightarrow> create_new_key_pair S C p f fs)
          else (Inl ''Path to secret key does not exist'', fs)
      | Some DirNode \<Rightarrow> (Inl ''Path to secret key is a directory.'', fs)
      | Some (FileNode _) \<Rightarrow> (read_secret_key_from_file S C p fmt fs, fs))"

datatype path_or_value = KeyValue string | KeyPath path

record keypair_config =
  kf_format :: string
  kf_keypair :: "path_or_value option"
  kf_secret_key :: "string option"
  kf_generate :: bool

definition to_abs_path :: "os \<Rightarrow> path \<Rightarrow> path" where
  "to_abs_path S p = path_join (True, os_cwd S) p"

definition get_keypair ::
    "os \<Rightarrow> ('kp, 'f) key_codec \<Rightarrow> keypair_config \<Rightarrow> path_or_value \<Rightarrow> file_system \<Rightarrow> (string + 'kp) \<times> file_system" where
  "get_keypair S C k default_source fs =
     (case kf_secret_key k of
        Some s \<Rightarrow>
          (case kc_base64_decode C s of
             None \<Rightarrow> (Inl ''base64 decoding failed'', fs)
           | Some v \<Rightarrow> (decode_secret_key C v (kf_format k), fs))
      | None \<Rightarrow>
          (case (case kf_keypair k of Some src \<Rightarrow> src | None \<Rightarrow> default_source) of
             KeyPath p \<Rightarrow> load_key S C (to_abs_path S p) (kf_format k) (kf_generate k) fs
           | KeyValue v \<Rightarrow> (decode_key C v (kf_format k), fs)))"

definition default_base_dir :: path where
  "default_base_dir = (False, [''.fluence'', ''v1''])"

definition default_keypair_path :: path_or_value where
  "default_keypair_path = KeyPath (path_join default_base_dir (False, [''secret_key.ed25519'']))"

definition default_builtins_keypair_path :: path_or_value where
  "default_builtins_keypair_path = KeyPath (path_join default_base_dir (False, [''builtins_secret_key.ed25519'']))"

text \<open>The default key pairs, which must be found or made: a failure is a panic.\<close>

definition default_keypair ::
    "os \<Rightarrow> ('kp, 'f) key_codec \<Rightarrow> path_or_value \<Rightarrow> file_system \<Rightarrow> ('kp \<times> file_system) option" where
  "default_keypair S C src fs =
     (case get_keypair S C \<lparr>kf_format = ''ed25519'', kf_keypair = None, kf_secret_key = None, kf_generate = True\<rparr> src fs of
        (Inl _, _) \<Rightarrow> None
      | (Inr kp, fs1) \<Rightarrow> Some (kp, fs1))"

subsection \<open>Directories\<close>

record unresolved_dirs =
  ud_base :: path
  ud_services :: "path option"
  ud_builtins :: "path option"
  ud_avm :: "path option"
  ud_air_interpreter :: "path option"
  ud_spell :: "path option"
  ud_keypairs :: "path option"

record resolved_dirs =
  rd_base :: path
  rd_services :: path
  rd_builtins :: path
  rd_avm :: path
  rd_air_interpreter :: path
  rd_spell :: path
  rd_keypairs :: path

fun create_dirs :: "os \<Rightarrow> path list \<Rightarrow> file_system \<Rightarrow> (io_error + unit) \<times> file_system" where
  "create_dirs S [] fs = (Inr (), fs)"
| "create_dirs S (d # ds) fs = try_then (create_dir S d) (\<lambda>_. create_dirs S ds) fs"

definition or_below :: "path \<Rightarrow> path option \<Rightarrow> string \<Rightarrow> path" where
  "or_below base given name = (case given of Some p \<Rightarrow> p | None \<Rightarrow> path_join base (False, [name]))"

definition air_interpreter_path :: "string \<Rightarrow> path \<Rightarrow> path" where
  "air_interpreter_path version base = path_join base (False, [''aquamarine_'' @ version @ ''.wasm''])"

definition dirs_resolve :: "os \<Rightarrow> string \<Rightarrow> unresolved_dirs \<Rightarrow> file_system \<Rightarrow> (io_error + resolved_dirs) \<times> file_system" where
  "dirs_resolve S version u =
     (let base = to_abs_path S (ud_base u);
          services = or_below base (ud_services u) ''services'';
          builtins = or_below base (ud_builtins u) ''builtins'';
          avm = or_below base (ud_avm u) ''stepper'';
          air = (case ud_air_interpreter u of Some p \<Rightarrow> p | None \<Rightarrow> air_interpreter_path version base);
          spell = or_below base (ud_spell u) ''spell'';
          keypairs = or_below base (ud_keypairs u) ''keypairs''
      in try_then (create_dirs S [base, services, avm, builtins, spell, keypairs]) (\<lambda>_ fs.
           (case collect_results (map (\<lambda>p. canonicalize S p fs) [base, services, builtins, avm, spell, keypairs]) of
              Inr [b, s, bu, a, sp, k] \<Rightarrow>
                Inr \<lparr>rd_base = b, rd_services = s, rd_builtins = bu, rd_avm = a, rd_air_interpreter = air,
                     rd_spell = sp, rd_keypairs = k\<rparr>
            | Inl e \<Rightarrow> Inl e
            | _ \<Rightarrow> Inl IoNotFound, fs)))"

subsection \<open>The resolved configuration\<close>

datatype addr_part = IpPart string | TcpPart u16 | WsPart string

type_synonym maddr = "addr_part list"

text \<open>\<^verbatim>\<open>NodeConfig\<close> with its flattened parts \<^verbatim>\<open>ListenConfig\<close> and \<^verbatim>\<open>MetricsConfig\<close>. The settings handed through to libp2p
  alone (transport, timeouts of the protocol and of reconnection) and the unused weights are left out.\<close>

record 'kp node_config =
  nc_root_key_pair :: 'kp
  nc_builtins_key_pair :: 'kp
  nc_autodeploy_particle_ttl :: duration
  nc_autodeploy_retry_attempts :: u16
  nc_force_builtins_redeploy :: bool
  nc_tcp_port :: u16
  nc_websocket_port :: u16
  nc_listen_ip :: string
  nc_listen_multiaddrs :: "maddr list"
  nc_bootstrap_nodes :: "maddr list"
  nc_external_address :: "string option"
  nc_external_multiaddresses :: "maddr list"
  nc_metrics_enabled :: bool
  nc_metrics_port :: u16
  nc_metrics_timer_resolution :: duration
  nc_max_builtin_metrics_storage_size :: nat
  nc_services_envs :: "(bytes \<times> bytes) list"
  nc_aquavm_pool_size :: nat
  nc_aquavm_max_heap_size :: "nat option"
  nc_module_max_heap_size :: nat
  nc_module_default_heap_size :: "nat option"
  nc_kademlia :: kademlia_config
  nc_particle_queue_buffer :: nat
  nc_particle_processor_parallelism :: "nat option"
  nc_script_storage_timer_resolution :: duration
  nc_script_storage_max_failures :: u8
  nc_script_storage_particle_ttl :: duration
  nc_max_spell_particle_ttl :: duration
  nc_bootstrap_frequency :: nat
  nc_allow_local_addresses :: bool
  nc_particle_execution_timeout :: duration
  nc_management_peer_id :: peer_id

text \<open>The defaults of the fields, for a number of processors, loaded key pairs and a generated management key;
  durations in milliseconds.\<close>

definition node_config_default :: "nat \<Rightarrow> 'kp \<Rightarrow> 'kp \<Rightarrow> peer_id \<Rightarrow> 'kp node_config" where
  "node_config_default cpus root builtins management =
     \<lparr>nc_root_key_pair = root, nc_builtins_key_pair = builtins, nc_autodeploy_particle_ttl = 200000,
      nc_autodeploy_retry_attempts = 5, nc_force_builtins_redeploy = False, nc_tcp_port = 7777, nc_websocket_port = 9999,
      nc_listen_ip = ''0.0.0.0'', nc_listen_multiaddrs = [], nc_bootstrap_nodes = [], nc_external_address = None,
      nc_external_multiaddresses = [], nc_metrics_enabled = True, nc_metrics_port = 18080, nc_metrics_timer_resolution = 60000,
      nc_max_builtin_metrics_storage_size = 5, nc_services_envs = [], nc_aquavm_pool_size = cpus * 2,
      nc_aquavm_max_heap_size = None, nc_module_max_heap_size = 4 * 2 ^ 30 - 1, nc_module_default_heap_size = None,
      nc_kademlia = kademlia_config_default, nc_particle_queue_buffer = 100, nc_particle_processor_parallelism = Some (cpus * 2),
      nc_script_storage_timer_resolution = 3000, nc_script_storage_max_failures = 3, nc_script_storage_particle_ttl = 120000,
      nc_max_spell_particle_ttl = 120000, nc_bootstrap_frequency = 3, nc_allow_local_addresses = False,
      nc_particle_execution_timeout = 20000, nc_management_peer_id = management\<rparr>"

record 'kp resolved_config =
  rc_dirs :: resolved_dirs
  rc_node :: "'kp node_config"

definition config_external_addresses :: "'kp node_config \<Rightarrow> maddr list" where
  "config_external_addresses c =
     (case nc_external_address c of
        Some ip \<Rightarrow> [[IpPart ip, TcpPart (nc_tcp_port c)], [IpPart ip, TcpPart (nc_websocket_port c), WsPart ''/'']]
      | None \<Rightarrow> []) @ nc_external_multiaddresses c"

definition metrics_listen_addr :: "'kp node_config \<Rightarrow> string \<times> u16" where
  "metrics_listen_addr c = (nc_listen_ip c, nc_metrics_port c)"

definition listen_multiaddrs :: "'kp node_config \<Rightarrow> maddr list" where
  "listen_multiaddrs c =
     [[IpPart (nc_listen_ip c), TcpPart (nc_tcp_port c)],
      [IpPart (nc_listen_ip c), TcpPart (nc_websocket_port c), WsPart ''/'']]"

text \<open>The derived deserializer, which also loads the key pairs and so reads and writes files.\<close>

record 'kp config_codec =
  cc_from_slice :: "bytes \<Rightarrow> toml_table option"
  cc_deserialize :: "toml_table \<Rightarrow> file_system \<Rightarrow> (string + unresolved_dirs \<times> 'kp node_config) \<times> file_system"

definition resolve_config ::
    "os \<Rightarrow> string \<Rightarrow> 'kp config_codec \<Rightarrow> arg_matches \<Rightarrow> bytes \<Rightarrow> file_system \<Rightarrow>
     ((string + 'kp resolved_config) \<times> file_system) option" where
  "resolve_config S version C m content fs =
     (case cc_from_slice C content of
        None \<Rightarrow> Some (Inl ''deserializing config'', fs)
      | Some file \<Rightarrow>
          (case insert_args_to_config m file of
             None \<Rightarrow> None
           | Some (Inl e) \<Rightarrow> Some (Inl e, fs)
           | Some (Inr config) \<Rightarrow>
               Some (try_then (cc_deserialize C config) (\<lambda>(dirs, node).
                 try_then (\<lambda>fs. apfst (map_sum (\<lambda>_. ''creating configured directories'') id) (dirs_resolve S version dirs fs)) (\<lambda>rd fs.
                   (Inr \<lparr>rc_dirs = rd,
                      rc_node = (if am_is_present m ''local'' then node\<lparr>nc_bootstrap_nodes := []\<rparr> else node)\<rparr>, fs))) fs)))"

definition load_config ::
    "os \<Rightarrow> string \<Rightarrow> 'kp config_codec \<Rightarrow> arg_matches \<Rightarrow> file_system \<Rightarrow> ((string + 'kp resolved_config) \<times> file_system) option" where
  "load_config S version C m fs =
     (let p = (case am_values_of m ''config_file'' of
                 Some (v # _) \<Rightarrow> path_of v
               | _ \<Rightarrow> path_join default_base_dir (False, [''Config.toml'']))
      in case path_node S p fs of
           Some (FileNode _) \<Rightarrow>
             (case read_file S (to_abs_path S p) fs of
                Inl e \<Rightarrow> Some (Inl ''Failed reading config'', fs)
              | Inr content \<Rightarrow> resolve_config S version C m content fs)
         | _ \<Rightarrow> resolve_config S version C m [] fs)"

subsection \<open>Properties\<close>

definition arg_key :: "string \<Rightarrow> string" where
  "arg_key k = (if arg_kind k = KeyPairArg then ''root_key_pair'' else k)"

lemma map_sum_id_Inr_iff: "map_sum id f r = Inr y \<longleftrightarrow> (\<exists>x. r = Inr x \<and> f x = y)"
  by (cases r) auto

lemma insert_arg_other:
  assumes "insert_arg k vs config = Some (Inr config')" and "x \<noteq> arg_key k"
  shows "map_of config' x = map_of config x"
  using assms
  by (auto simp: insert_arg_def arg_key_def map_of_AList_update map_sum_id_Inr_iff
      split: arg_kind.splits sum.splits option.splits toml.splits)

lemma insert_args_other:
  assumes "insert_args m ks config = Some (Inr config')" and "\<forall>k\<in>set ks. am_values_of m k \<noteq> None \<longrightarrow> arg_key k \<noteq> x"
  shows "map_of config' x = map_of config x"
  using assms
proof (induction ks arbitrary: config)
  case (Cons k ks)
  then show ?case
    by (auto split: option.splits sum.splits) (metis Cons.IH insert_arg_other)
qed simp

lemma insert_args_split:
  assumes "insert_args m (ks @ ls) config = Some (Inr config')"
  shows "\<exists>mid. insert_args m ks config = Some (Inr mid) \<and> insert_args m ls mid = Some (Inr config')"
  using assms by (induction ks arbitrary: config) (auto split: option.splits sum.splits)

lemma resolve_key_source_other: "x \<noteq> ''root_key_pair'' \<Longrightarrow> map_of (resolve_key_source config) x = map_of config x"
  by (auto simp: resolve_key_source_def map_of_AList_update split: option.splits toml.splits)

text \<open>The merged value of an argument that is not about the key pair: what the command line says, else what the file
  says.\<close>

lemma merged_value:
  assumes merged: "insert_args_to_config m file = Some (Inr config)"
    and k: "k \<in> set ARGS" "arg_kind k \<noteq> KeyPairArg"
  shows "map_of config k =
    (case am_values_of m k of
       None \<Rightarrow> map_of file k
     | Some vs \<Rightarrow> (case insert_arg k vs [] of Some (Inr t) \<Rightarrow> map_of t k | _ \<Rightarrow> None))"
proof -
  have key: "k \<noteq> ''root_key_pair''" using k(1) by (auto simp: ARGS_def)
  from merged obtain mid where args: "insert_args m ARGS file = Some (Inr mid)" and config: "config = resolve_key_source mid"
    by (auto simp: insert_args_to_config_def map_sum_id_Inr_iff)
  obtain ks ls where ARGS: "ARGS = ks @ k # ls" using k(1) by (meson split_list)
  have distinct: "distinct ARGS" by (simp add: ARGS_def)
  have other: "\<forall>j\<in>set ks \<union> set ls. arg_key j \<noteq> k"
    using distinct key by (auto simp: ARGS arg_key_def)
  obtain c1 where 1: "insert_args m ks file = Some (Inr c1)" and 2: "insert_args m (k # ls) c1 = Some (Inr mid)"
    using insert_args_split [OF args [unfolded ARGS]] by blast
  have c1: "map_of c1 k = map_of file k" using insert_args_other [OF 1, of k] other by auto
  have "map_of mid k =
    (case am_values_of m k of
       None \<Rightarrow> map_of file k
     | Some vs \<Rightarrow> (case insert_arg k vs [] of Some (Inr t) \<Rightarrow> map_of t k | _ \<Rightarrow> None))"
  proof (cases "am_values_of m k")
    case None
    with 2 other c1 show ?thesis using insert_args_other [of m ls c1 mid k] by auto
  next
    case (Some vs)
    with 2 obtain c2 where 3: "insert_arg k vs c1 = Some (Inr c2)" and 4: "insert_args m ls c2 = Some (Inr mid)"
      by (auto split: option.splits sum.splits)
    have "map_of mid k = map_of c2 k" using insert_args_other [OF 4, of k] other by auto
    moreover have "\<exists>t. insert_arg k vs [] = Some (Inr t) \<and> map_of t k = map_of c2 k"
      using 3 k(2) by (auto simp: insert_arg_def map_of_AList_update map_sum_id_Inr_iff
          split: arg_kind.splits sum.splits option.splits)
    ultimately show ?thesis using Some by auto
  qed
  with key show ?thesis by (simp add: config resolve_key_source_other)
qed

text \<open>[command_line_wins]: Merging keeps the file's value of every setting not given on the command line, and replaces the
  others by what the command line says; settings that have no argument are untouched.\<close>

theorem command_line_wins:
  assumes "insert_args_to_config m file = Some (Inr config)" and "x \<noteq> ''root_key_pair''"
    and "x \<notin> set ARGS \<or> am_values_of m x = None"
  shows "map_of config x = map_of file x"
proof -
  from assms(1) obtain mid where args: "insert_args m ARGS file = Some (Inr mid)" and config: "config = resolve_key_source mid"
    by (auto simp: insert_args_to_config_def map_sum_id_Inr_iff)
  have "map_of mid x = map_of file x"
    using assms(2,3) by (intro insert_args_other [OF args]) (auto simp: arg_key_def split: if_splits)
  with assms(2) show ?thesis by (simp add: config resolve_key_source_other)
qed

lemma port_args: "arg_kind ''tcp_port'' = IntegerArg" "arg_kind ''websocket_port'' = IntegerArg" "arg_kind ''metrics_port'' = IntegerArg"
  "arg_kind ''bootstrap_frequency'' = TextArg"
  by (simp_all add: arg_kind_def)

lemma clap_ports:
  assumes "clap_values create_args given m"
  shows "am_values_of m ''tcp_port'' = Some (case given ''tcp_port'' of Some vs \<Rightarrow> vs | None \<Rightarrow> [''7777''])"
    and "am_values_of m ''websocket_port'' = Some (case given ''websocket_port'' of Some vs \<Rightarrow> vs | None \<Rightarrow> [''9999''])"
    and "am_values_of m ''metrics_port'' = Some (case given ''metrics_port'' of Some vs \<Rightarrow> vs | None \<Rightarrow> [''18080''])"
  using assms by (auto simp: clap_values_def create_args_def arg_new_def split: option.splits)

lemma parse_ports: "parse_i64 ''7777'' = Some 7777" "parse_i64 ''9999'' = Some 9999" "parse_i64 ''18080'' = Some 18080"
  by (simp_all add: parse_i64_def is_digits_def read_nat_def)

text \<open>[file_ports_ignored]: The ports of the configuration file never take effect: the arguments for them have default
  values, which clap reports as if they had been given, so the merged ports are those of the command line or the
  defaults 7777, 9999 and 18080, whatever the file says.\<close>

theorem file_ports_ignored:
  assumes "clap_values create_args given m" and "insert_args_to_config m file = Some (Inr config)"
    and "given ''tcp_port'' = None" "given ''websocket_port'' = None" "given ''metrics_port'' = None"
  shows "map_of config ''tcp_port'' = Some (TInteger 7777) \<and> map_of config ''websocket_port'' = Some (TInteger 9999) \<and>
    map_of config ''metrics_port'' = Some (TInteger 18080)"
proof -
  have "map_of config k = Some (TInteger n)"
    if "k \<in> set ARGS" "arg_kind k = IntegerArg" "am_values_of m k = Some [v]" "parse_i64 v = Some n" for k v n
    using merged_value [OF assms(2) that(1)] that by (simp add: insert_arg_def)
  moreover have "''tcp_port'' \<in> set ARGS" "''websocket_port'' \<in> set ARGS" "''metrics_port'' \<in> set ARGS"
    by (simp_all add: ARGS_def)
  ultimately show ?thesis
    using clap_ports [OF assms(1)] assms(3-5) port_args parse_ports by simp
qed

text \<open>[bootstrap_frequency_is_text]: The bootstrap frequency given on the command line is inserted as a string, unlike the other numbers;
  a deserializer that takes only an integer for it refuses every such configuration.\<close>

theorem bootstrap_frequency_is_text:
  assumes "am_values_of m ''bootstrap_frequency'' = Some (v # vs)" and "cc_from_slice C content = Some file"
    and "\<And>config s fs. map_of config ''bootstrap_frequency'' = Some (TString s) \<Longrightarrow> \<exists>e. fst (cc_deserialize C config fs) = Inl e"
  shows "case resolve_config S version C m content fs of None \<Rightarrow> True | Some (r, _) \<Rightarrow> \<exists>e. r = Inl e"
proof (cases "insert_args_to_config m file")
  case (Some r)
  show ?thesis
  proof (cases r)
    case (Inr config)
    have "''bootstrap_frequency'' \<in> set ARGS" by (simp add: ARGS_def)
    with merged_value [OF Some [unfolded Inr]] assms(1) have "map_of config ''bootstrap_frequency'' = Some (TString v)"
      by (simp add: port_args insert_arg_def)
    from assms(3) [OF this, of fs] show ?thesis
      by (auto simp: resolve_config_def assms(2) Some Inr try_then_def split: prod.splits)
  qed (simp add: resolve_config_def assms(2) Some)
qed (simp add: resolve_config_def assms(2))

text \<open>[root_key_has_one_source]: After merging, the root key pair has at most one source: a secret key excludes a value and a path,
  and a value excludes a path.\<close>

theorem root_key_has_one_source:
  assumes "insert_args_to_config m file = Some (Inr config)" and "map_of config ''root_key_pair'' = Some (TTable t)"
  shows "(map_of t ''secret_key'' \<noteq> None \<longrightarrow> map_of t ''value'' = None \<and> map_of t ''path'' = None) \<and>
    (map_of t ''value'' \<noteq> None \<longrightarrow> map_of t ''path'' = None)"
proof -
  from assms(1) obtain mid where config: "config = resolve_key_source mid"
    by (auto simp: insert_args_to_config_def map_sum_id_Inr_iff)
  have "\<exists>t0. t = prefer_key t0"
    using assms(2) by (auto simp: config resolve_key_source_def map_of_AList_update split: option.splits toml.splits if_splits)
  then obtain t0 where "t = prefer_key t0" ..
  then show ?thesis by (auto simp: prefer_key_def Let_def map_of_AList_delete)
qed

text \<open>[local_has_no_bootstraps]: With the flag \<^verbatim>\<open>--local\<close> a resolved configuration has no bootstrap nodes, whatever the file and the
  other arguments say.\<close>

theorem local_has_no_bootstraps:
  assumes "resolve_config S version C m content fs = Some (Inr rc, fs')" and "am_is_present m ''local''"
  shows "nc_bootstrap_nodes (rc_node rc) = []"
  using assms by (auto simp: resolve_config_def split: option.splits sum.splits elim!: try_then_InrE)

lemma decode_base64_secret:
  assumes "kc_base64_decode C (trim s) = Some v" and "length v \<le> 32"
  shows "decode_key C s fmt = decode_secret_key C v fmt"
  using assms by (simp add: decode_key_def decode_validated_def validate_length_def Let_def)

text \<open>What is assumed of the codecs: text survives the disk, base64 its encoding, and a secret key of at most 32 bytes
  determines the key pair it was taken from.\<close>

definition key_codec_works :: "('kp, 'f) key_codec \<Rightarrow> bool" where
  "key_codec_works C \<longleftrightarrow>
     (\<forall>s. kc_utf8 C (kc_to_utf8 C s) = Some s) \<and>
     (\<forall>v. kc_base64_decode C (trim (kc_base64_encode C v)) = Some v) \<and>
     (\<forall>f. length (kc_secret C (kc_generate C f)) \<le> 32 \<and>
          kc_from_secret C (kc_secret C (kc_generate C f)) f = Some (kc_generate C f))"

lemma path_target_written:
  assumes "path_target cwd fs p = Inr f" and "fs f \<noteq> Some DirNode"
  shows "path_target cwd (fs(f \<mapsto> FileNode c)) p = Inr f"
  using assms unfolding path_target_def by (auto intro: walk_update)


lemma canonical_exists: "canonicalize S p fs = Inr q \<Longrightarrow> fst q \<and> fs (snd q) \<noteq> None"
  by (auto simp: canonicalize_def split: sum.splits if_splits)

text \<open>[configured_dirs_exist]: The directories of a resolved configuration are absolute and exist.\<close>

theorem configured_dirs_exist:
  assumes "dirs_resolve S version u fs = (Inr rd, fs')"
  shows "\<forall>d\<in>{rd_base rd, rd_services rd, rd_builtins rd, rd_avm rd, rd_spell rd, rd_keypairs rd}. fst d \<and> fs' (snd d) \<noteq> None"
  using assms
  by (auto simp: dirs_resolve_def Let_def collect_results_Inr_iff elim!: try_then_InrE
      split: sum.splits list.splits dest!: canonical_exists)


subsection \<open>Samples\<close>

text \<open>No arguments on the command line: what clap hands over is the defaults.\<close>

definition no_arguments :: arg_matches where
  "no_arguments = \<lparr>am_values_of = [''tcp_port'' \<mapsto> [''7777''], ''websocket_port'' \<mapsto> [''9999''], ''metrics_port'' \<mapsto> [''18080'']],
     am_is_present = (\<lambda>_. False)\<rparr>"

definition sample_file :: toml_table where
  "sample_file = [(''tcp_port'', TInteger 1), (''script_storage_max_failures'', TInteger 10),
     (''root_key_pair'', TTable [(''path'', TString ''key''), (''secret_key'', TString ''s'')])]"

lemma no_arguments_clap: "clap_values create_args Map.empty no_arguments"
  by (simp add: clap_values_def no_arguments_def create_args_def arg_new_def)

definition sample_config :: toml_table where
  "sample_config = [(''tcp_port'', TInteger 7777), (''script_storage_max_failures'', TInteger 10),
     (''root_key_pair'', TTable [(''secret_key'', TString ''s'')]), (''websocket_port'', TInteger 9999),
     (''metrics_port'', TInteger 18080)]"

lemma no_arguments_merged: "insert_args_to_config no_arguments sample_file = Some (Inr sample_config)"
  by (simp add: insert_args_to_config_def ARGS_def no_arguments_def insert_arg_def port_args parse_ports
      sample_file_def sample_config_def resolve_key_source_def prefer_key_def Let_def)

theorem command_line_wins_witness: "map_of sample_config ''script_storage_max_failures'' = Some (TInteger 10)"
  using command_line_wins [OF no_arguments_merged, of "''script_storage_max_failures''"]
  by (simp add: ARGS_def sample_file_def)

theorem file_ports_ignored_witness:
  "map_of sample_file ''tcp_port'' = Some (TInteger 1) \<and> map_of sample_config ''tcp_port'' = Some (TInteger 7777)"
  using file_ports_ignored [OF no_arguments_clap no_arguments_merged] by (simp add: sample_file_def)

theorem root_key_has_one_source_witness:
  "insert_args_to_config no_arguments sample_file = Some (Inr sample_config) \<and>
   (\<forall>t. map_of sample_config ''root_key_pair'' = Some (TTable t) \<longrightarrow> map_of t ''path'' = None)"
  using root_key_has_one_source [OF no_arguments_merged] no_arguments_merged by (simp add: sample_config_def)

definition sample_key_codec :: "(bytes, unit) key_codec" where
  "sample_key_codec =
     \<lparr>kc_base64_decode = (\<lambda>s. Some (string_bytes (butlast (tl s)))),
      kc_base64_encode = (\<lambda>b. ''k'' @ byte_string b @ ''k''),
      kc_base58_decode = (\<lambda>s. None), kc_format = (\<lambda>s. if s = ''ed25519'' then Some () else None),
      kc_from_vec = (\<lambda>b f. None), kc_from_secret = (\<lambda>b f. Some b), kc_generate = (\<lambda>f. [1, 2, 3]),
      kc_secret = (\<lambda>b. b), kc_utf8 = (\<lambda>b. Some (byte_string b)), kc_to_utf8 = string_bytes\<rparr>"

lemma trim_between: "trim (''k'' @ s @ ''k'') = ''k'' @ s @ ''k''"
  by (simp add: trim_def is_space_def)

lemma byte_string_bytes: "byte_string (string_bytes s) = s"
proof -
  have "unat (word_of_nat (of_char c) :: u8) = of_char c" for c :: char
    by (simp add: unat_of_nat)
  then show ?thesis by (simp add: byte_string_def string_bytes_def map_idI)
qed

lemma sample_key_codec_works: "key_codec_works sample_key_codec"
  using trim_between by (simp add: key_codec_works_def sample_key_codec_def byte_string_bytes butlast_append)


end
