(* ===== verification/Connectivity.thy ===== *)
theory Connectivity
  imports Plumber Connection_Pool Kad_Behaviour
begin

section \<open>Connectivity, effectors and dispatcher\<close>

text \<open>
  \<^verbatim>\<open>particle-node/src/{connectivity,effectors,dispatcher}.rs\<close> and the client sides of the
  connection pool and of Kademlia (\<^verbatim>\<open>connection-pool/src/api.rs\<close>, \<^verbatim>\<open>kademlia/src/api.rs\<close>). An
  asynchronous function is a state machine: one state per \<^verbatim>\<open>await\<close>, holding the oneshot channel it
  waits on, and one function per continuation. The clients are composed with the models of the
  pool and of Kademlia through the two command channels and the answers on oneshot channels. A
  oneshot channel is a number, handed out in order by \<open>nt_next\<close>.
\<close>

subsection \<open>State\<close>

datatype resolution =
    ResolvedLocal | ResolvedKademlia | ResolvedNotFound | ResolvedKademliaError | ResolvedConnectionFailed

datatype task_state =
    AwaitContact outlet
  | AwaitAddresses outlet
  | AwaitConnect contact outlet
  | AwaitSend contact outlet
  | TaskSent
  | TaskReported

record send_task =
  tk_target :: peer_id
  tk_particle :: particle
  tk_state :: task_state

record 'k net =
  nt_pool :: conn_pool
  nt_pool_inbox :: "pool_command list"
  nt_pool_open :: bool
  nt_handed :: "swarm_event list"
  nt_kad :: "'k kademlia"
  nt_kad_inbox :: "kad_command list"
  nt_kad_open :: bool
  nt_next :: outlet
  nt_resolutions :: "resolution list"
  nt_send_success :: nat
  nt_send_failure :: nat
  nt_failures :: "string list"
  nt_tasks :: "send_task list"

definition net_new :: "peer_id \<Rightarrow> kademlia_config \<Rightarrow> 'k \<Rightarrow> 'k net" where
  "net_new me cfg k = \<lparr>nt_pool = conn_pool_new me, nt_pool_inbox = [], nt_pool_open = True, nt_handed = [],
     nt_kad = kademlia_new cfg k, nt_kad_inbox = [], nt_kad_open = True, nt_next = 0, nt_resolutions = [],
     nt_send_success = 0, nt_send_failure = 0, nt_failures = [], nt_tasks = []\<rparr>"

subsection \<open>Calls to the pool and to Kademlia\<close>

text \<open>Creates a oneshot channel and sends the command; \<open>None\<close> when the command channel is closed, where
  the caller continues at once with the default or with \<^verbatim>\<open>Cancelled\<close>.\<close>

definition pool_api_execute :: "(outlet \<Rightarrow> pool_command) \<Rightarrow> 'k net \<Rightarrow> outlet option \<times> 'k net" where
  "pool_api_execute cmd st =
     (let out = nt_next st; st1 = st\<lparr>nt_next := Suc out\<rparr> in
      if nt_pool_open st then (Some out, st1\<lparr>nt_pool_inbox := nt_pool_inbox st @ [cmd out]\<rparr>)
      else (None, st1))"

definition kad_api_execute :: "(outlet \<Rightarrow> kad_command) \<Rightarrow> 'k net \<Rightarrow> outlet option \<times> 'k net" where
  "kad_api_execute cmd st =
     (let out = nt_next st; st1 = st\<lparr>nt_next := Suc out\<rparr> in
      if nt_kad_open st then (Some out, st1\<lparr>nt_kad_inbox := nt_kad_inbox st @ [cmd out]\<rparr>)
      else (None, st1))"

definition kad_api_add_contact :: "contact \<Rightarrow> 'k net \<Rightarrow> bool \<times> 'k net" where
  "kad_api_add_contact c st =
     (if nt_kad_open st then (True, st\<lparr>nt_kad_inbox := nt_kad_inbox st @ [KAddContact c]\<rparr>) else (False, st))"

subsection \<open>Sending a particle to one target\<close>

definition count_resolution :: "resolution \<Rightarrow> 'k net \<Rightarrow> 'k net" where
  "count_resolution r st = st\<lparr>nt_resolutions := nt_resolutions st @ [r]\<rparr>"

definition report_failure :: "particle \<Rightarrow> 'k net \<Rightarrow> task_state \<times> 'k net" where
  "report_failure p st = (TaskReported, st\<lparr>nt_failures := nt_failures st @ [pt_id p]\<rparr>)"

definition after_send :: "particle \<Rightarrow> send_status \<Rightarrow> 'k net \<Rightarrow> task_state \<times> 'k net" where
  "after_send p sent st =
     (if sent = SendOk then (TaskSent, st\<lparr>nt_send_success := Suc (nt_send_success st)\<rparr>)
      else report_failure p (st\<lparr>nt_send_failure := Suc (nt_send_failure st)\<rparr>))"

definition conn_send :: "contact \<Rightarrow> particle \<Rightarrow> 'k net \<Rightarrow> task_state \<times> 'k net" where
  "conn_send c p st =
     (case pool_api_execute (SendCmd c p) st of
        (Some out, st1) \<Rightarrow> (AwaitSend c out, st1)
      | (None, st1) \<Rightarrow> after_send p send_status_default st1)"

definition after_connect :: "particle \<Rightarrow> contact \<Rightarrow> bool \<Rightarrow> 'k net \<Rightarrow> task_state \<times> 'k net" where
  "after_connect p c ok st =
     (if ok then conn_send c p (count_resolution ResolvedKademlia st)
      else report_failure p (count_resolution ResolvedConnectionFailed st))"

definition discovered_contact :: "peer_id \<Rightarrow> kademlia_error + multiaddr list \<Rightarrow> kademlia_error + contact option" where
  "discovered_contact target r =
     map_sum id (\<lambda>addrs. if addrs = [] then None else Some (contact_new target addrs)) r"

definition after_addresses ::
    "peer_id \<Rightarrow> particle \<Rightarrow> kademlia_error + multiaddr list \<Rightarrow> 'k net \<Rightarrow> task_state \<times> 'k net" where
  "after_addresses target p r st =
     (case discovered_contact target r of
        Inr (Some c) \<Rightarrow>
          (case pool_api_execute (ConnectCmd c) st of
             (Some out, st1) \<Rightarrow> (AwaitConnect c out, st1)
           | (None, st1) \<Rightarrow> after_connect p c False st1)
      | Inr None \<Rightarrow> report_failure p (count_resolution ResolvedNotFound st)
      | Inl _ \<Rightarrow> report_failure p (count_resolution ResolvedKademliaError st))"

definition after_contact :: "peer_id \<Rightarrow> particle \<Rightarrow> contact option \<Rightarrow> 'k net \<Rightarrow> task_state \<times> 'k net" where
  "after_contact target p found st =
     (case found of
        Some c \<Rightarrow> conn_send c p (count_resolution ResolvedLocal st)
      | None \<Rightarrow>
          (case kad_api_execute (KDiscoverPeer target) st of
             (Some out, st1) \<Rightarrow> (AwaitAddresses out, st1)
           | (None, st1) \<Rightarrow> after_addresses target p (Inl Cancelled) st1))"

definition start_send :: "peer_id \<Rightarrow> particle \<Rightarrow> 'k net \<Rightarrow> task_state \<times> 'k net" where
  "start_send target p st =
     (case pool_api_execute (GetContactCmd target) st of
        (Some out, st1) \<Rightarrow> (AwaitContact out, st1)
      | (None, st1) \<Rightarrow> after_contact target p None st1)"

fun spawn_sends :: "particle \<Rightarrow> peer_id list \<Rightarrow> 'k net \<Rightarrow> 'k net" where
  "spawn_sends p [] st = st"
| "spawn_sends p (target # ts) st =
     (let (s, st1) = start_send target p st
      in spawn_sends p ts (st1\<lparr>nt_tasks := nt_tasks st1 @
           [\<lparr>tk_target = target, tk_particle = p, tk_state = s\<rparr>]\<rparr>))"

text \<open>Effects of an expired particle are dropped without a report; otherwise one concurrent task per
  next peer.\<close>

definition effectors_execute :: "128 word \<Rightarrow> routing_effects \<Rightarrow> 'k net \<Rightarrow> 'k net" where
  "effectors_execute now eff st =
     (if particle_is_expired now (re_particle eff) then st
      else spawn_sends (re_particle eff) (re_next_peers eff) st)"

text \<open>One element of the effects stream: the error of an execution is reported when it names a particle.\<close>

definition process_effects ::
    "128 word \<Rightarrow> aquamarine_api_error + routing_effects \<Rightarrow> 'k net \<Rightarrow> 'k net" where
  "process_effects now effects st =
     (case effects of
        Inr eff \<Rightarrow> effectors_execute now eff st
      | Inl err \<Rightarrow>
          (case into_particle_id err of
             Some i \<Rightarrow> st\<lparr>nt_failures := nt_failures st @ [i]\<rparr>
           | None \<Rightarrow> st))"

subsection \<open>Answers\<close>

text \<open>What a waiting task can receive: an answer on its channel, nothing because the other side was
  dropped (\<open>None\<close>), or, while sending, the expiry of \<^verbatim>\<open>send_timeout\<close>. The channels are typed, so an
  answer of another type cannot arrive.\<close>

datatype answer =
    PoolAnswer "reply option"
  | KadAnswer "kad_reply option"
  | SendTimeout duration string

fun task_resume :: "answer \<Rightarrow> peer_id \<Rightarrow> particle \<Rightarrow> task_state \<Rightarrow> 'k net \<Rightarrow> (task_state \<times> 'k net) option" where
  "task_resume (PoolAnswer (Some (ReplyContact _ c))) target p (AwaitContact _) st = Some (after_contact target p c st)"
| "task_resume (PoolAnswer None) target p (AwaitContact _) st = Some (after_contact target p None st)"
| "task_resume (KadAnswer (Some (ReplyAddrs _ r))) target p (AwaitAddresses _) st = Some (after_addresses target p r st)"
| "task_resume (KadAnswer None) target p (AwaitAddresses _) st = Some (after_addresses target p (Inl Cancelled) st)"
| "task_resume (PoolAnswer (Some (ReplyBool _ ok))) target p (AwaitConnect c _) st = Some (after_connect p c ok st)"
| "task_resume (PoolAnswer None) target p (AwaitConnect c _) st = Some (after_connect p c False st)"
| "task_resume (PoolAnswer (Some (ReplyStatus _ s))) target p (AwaitSend _ _) st = Some (after_send p s st)"
| "task_resume (PoolAnswer None) target p (AwaitSend _ _) st = Some (after_send p send_status_default st)"
| "task_resume (SendTimeout after e) target p (AwaitSend _ _) st = Some (after_send p (TimedOut after e) st)"
| "task_resume _ _ _ _ _ = None"

fun awaited_pool :: "task_state \<Rightarrow> outlet multiset" where
  "awaited_pool (AwaitContact out) = {#out#}"
| "awaited_pool (AwaitConnect _ out) = {#out#}"
| "awaited_pool (AwaitSend _ out) = {#out#}"
| "awaited_pool _ = {#}"

fun awaited_kad :: "task_state \<Rightarrow> outlet multiset" where
  "awaited_kad (AwaitAddresses out) = {#out#}"
| "awaited_kad _ = {#}"

text \<open>Which answers can arrive: what the pool or Kademlia sent on the awaited channel, any status from
  the connection handler that took the channel over with the particle, a cancellation when the
  owner of the channel is gone, and a timeout at any time.\<close>

definition handed_outlets :: "'k net \<Rightarrow> outlet multiset" where
  "handed_outlets st = sum_list (map event_outlets (nt_handed st))"

fun answer_available :: "answer \<Rightarrow> task_state \<Rightarrow> 'k net \<Rightarrow> bool" where
  "answer_available (PoolAnswer (Some r)) s st =
     (awaited_pool s = {#reply_outlet r#} \<and>
      (r \<in> set (cp_replies (nt_pool st)) \<or> (reply_outlet r \<in># handed_outlets st)))"
| "answer_available (PoolAnswer None) s st =
     (awaited_pool s \<noteq> {#} \<and> (\<not> nt_pool_open st \<or> awaited_pool s \<subseteq># handed_outlets st))"
| "answer_available (KadAnswer (Some r)) s st =
     (awaited_kad s = addrs_reply_outlet r \<and> r \<in> set (kd_replies (nt_kad st)))"
| "answer_available (KadAnswer None) s st = (awaited_kad s \<noteq> {#} \<and> \<not> nt_kad_open st)"
| "answer_available (SendTimeout _ _) s st = True"

definition resume_task :: "nat \<Rightarrow> answer \<Rightarrow> 'k net \<Rightarrow> 'k net option" where
  "resume_task i a st =
     (if i < length (nt_tasks st) then
        (let t = nt_tasks st ! i in
         if answer_available a (tk_state t) st then
           map_option (\<lambda>(s, st1). st1\<lparr>nt_tasks := (nt_tasks st1)[i := t\<lparr>tk_state := s\<rparr>]\<rparr>)
             (task_resume a (tk_target t) (tk_particle t) (tk_state t) st)
         else None)
      else None)"

subsection \<open>Steps of the composed system\<close>

datatype net_input =
    EffectsIn "128 word" "aquamarine_api_error + routing_effects"
  | DialBootstrap multiaddr
  | BootstrapKad contact
  | PollPool "outlet_ready list"
  | PoolEstablished "outlet \<Rightarrow> bool" peer_id multiaddr "multiaddr list option"
  | PoolClosed "outlet \<Rightarrow> bool" peer_id multiaddr nat
  | PoolDialFailure "outlet \<Rightarrow> bool" "peer_id option" dial_error
  | PoolInParticle particle
  | PoolDiscovered peer_id "multiaddr list"
  | PollKad instant
  | KadIn kad_event
  | AnswerIn nat answer
  | PoolDown
  | KadDown

definition drive_pool :: "pool_input \<Rightarrow> 'k net \<Rightarrow> 'k net option" where
  "drive_pool i st = map_option (\<lambda>(es, pool). st\<lparr>nt_pool := pool, nt_handed := nt_handed st @ es\<rparr>) (pool_step i (nt_pool st))"

fun net_step :: "'k kad_api \<Rightarrow> net_input \<Rightarrow> 'k net \<Rightarrow> 'k net option" where
  "net_step K (EffectsIn now eff) st = Some (process_effects now eff st)"
| "net_step K (DialBootstrap addr) st = Some (snd (pool_api_execute (DialCmd addr) st))"
| "net_step K (BootstrapKad c) st = Some (snd (kad_api_execute KBootstrap (snd (kad_api_add_contact c st))))"
| "net_step K (PollPool ready) st =
     (if nt_pool_open st
      then drive_pool (PollStep ready (nt_pool_inbox st)) (st\<lparr>nt_pool_inbox := []\<rparr>) else None)"
| "net_step K (PoolEstablished alive p a failed) st = drive_pool (EstablishedStep alive p a failed) st"
| "net_step K (PoolClosed alive p a n) st = drive_pool (ClosedStep alive p a n) st"
| "net_step K (PoolDialFailure alive p err) st = drive_pool (DialFailureStep alive p err) st"
| "net_step K (PoolInParticle p) st = drive_pool (InParticleStep p) st"
| "net_step K (PoolDiscovered p addrs) st = drive_pool (DiscoveredStep p addrs) st"
| "net_step K (PollKad now) st =
     (if nt_kad_open st
      then Some (st\<lparr>nt_kad := kd_poll K now (nt_kad_inbox st) (nt_kad st), nt_kad_inbox := []\<rparr>) else None)"
| "net_step K (KadIn ev) st = Some (st\<lparr>nt_kad := inject_kad_event K ev (nt_kad st)\<rparr>)"
| "net_step K (AnswerIn i a) st = resume_task i a st"
| "net_step K PoolDown st = Some (st\<lparr>nt_pool_open := False\<rparr>)"
| "net_step K KadDown st = Some (st\<lparr>nt_kad_open := False\<rparr>)"

fun net_run :: "'k kad_api \<Rightarrow> net_input list \<Rightarrow> 'k net \<Rightarrow> 'k net option" where
  "net_run K [] st = Some st"
| "net_run K (i # is) st = Option.bind (net_step K i st) (net_run K is)"

subsection \<open>Dispatching incoming particles\<close>

text \<open>\<^verbatim>\<open>for_each_concurrent(limit, f)\<close> of the \<^verbatim>\<open>futures\<close> crate takes the next element while fewer than
  \<^verbatim>\<open>limit\<close> futures run; no limit, or a limit of zero, means no bound. Here the queue of incoming
  particles and the particles whose hand-over to Aquamarine is pending on back pressure.\<close>

record dispatcher =
  ds_parallelism :: "nat option"
  ds_queue :: "particle list"
  ds_running :: "particle list"
  ds_to_aquamarine :: "aqua_command list"
  ds_expired :: nat

definition dispatcher_new :: "nat option \<Rightarrow> dispatcher" where
  "dispatcher_new n = \<lparr>ds_parallelism = n, ds_queue = [], ds_running = [], ds_to_aquamarine = [], ds_expired = 0\<rparr>"

definition may_start :: "dispatcher \<Rightarrow> bool" where
  "may_start d \<longleftrightarrow> (case ds_parallelism d of None \<Rightarrow> True | Some n \<Rightarrow> n = 0 \<or> length (ds_running d) < n)"

datatype sink_state = SinkReady | SinkDisconnected | SinkFull

definition aqua_send_command ::
    "sink_state \<Rightarrow> aqua_command \<Rightarrow> string option \<Rightarrow> aqua_command list \<Rightarrow>
     (aquamarine_api_error + unit) \<times> aqua_command list" where
  "aqua_send_command s cmd i cmds =
     (case s of
        SinkReady \<Rightarrow> (Inr (), cmds @ [cmd])
      | SinkDisconnected \<Rightarrow> (Inl (AquamarineDied i), cmds)
      | SinkFull \<Rightarrow> (Inl (AquamarineQueueFull i), cmds))"

definition aqua_execute ::
    "sink_state \<Rightarrow> particle \<Rightarrow> service_function option \<Rightarrow> aqua_command list \<Rightarrow>
     (aquamarine_api_error + unit) \<times> aqua_command list" where
  "aqua_execute s p f cmds = aqua_send_command s (IngestCmd p f) (Some (pt_id p)) cmds"

definition aqua_add_service ::
    "sink_state \<Rightarrow> string \<Rightarrow> (string \<rightharpoonup> service_function) \<Rightarrow> aqua_command list \<Rightarrow>
     (aquamarine_api_error + unit) \<times> aqua_command list" where
  "aqua_add_service s service fns cmds = aqua_send_command s (AddServiceCmd service fns None) None cmds"

definition aqua_remove_service ::
    "sink_state \<Rightarrow> string \<Rightarrow> aqua_command list \<Rightarrow> (aquamarine_api_error + unit) \<times> aqua_command list" where
  "aqua_remove_service s service cmds = aqua_send_command s (RemoveServiceCmd service) None cmds"

datatype dispatch_input = ParticleIn particle | StartNext "128 word" | HandedOver nat sink_state

fun process_particles :: "dispatch_input \<Rightarrow> dispatcher \<Rightarrow> dispatcher option" where
  "process_particles (ParticleIn p) d = Some (d\<lparr>ds_queue := ds_queue d @ [p]\<rparr>)"
| "process_particles (StartNext now) d =
     (case ds_queue d of
        [] \<Rightarrow> None
      | p # ps \<Rightarrow>
          if \<not> may_start d then None
          else if particle_is_expired now p then Some (d\<lparr>ds_queue := ps, ds_expired := Suc (ds_expired d)\<rparr>)
          else Some (d\<lparr>ds_queue := ps, ds_running := ds_running d @ [p]\<rparr>))"
| "process_particles (HandedOver i sink) d =
     (if i < length (ds_running d)
      then Some (d\<lparr>ds_running := remove_nth i (ds_running d),
             ds_to_aquamarine := snd (aqua_execute sink (ds_running d ! i) None (ds_to_aquamarine d))\<rparr>)
      else None)"

fun dispatcher_run :: "dispatch_input list \<Rightarrow> dispatcher \<Rightarrow> dispatcher option" where
  "dispatcher_run [] d = Some d"
| "dispatcher_run (i # is) d = Option.bind (process_particles i d) (dispatcher_run is)"

subsection \<open>Servers that keep their callers' channels\<close>

text \<open>What the clients rely on: a server holds the oneshot channels it was given until it answers them
  or passes them on with what it emits.\<close>

locale channel_server =
  fixes serve :: "'i \<Rightarrow> 's \<Rightarrow> ('e list \<times> 's) option"
    and held :: "'s \<Rightarrow> outlet multiset"
    and given :: "'i \<Rightarrow> outlet multiset"
    and passed :: "'e \<Rightarrow> outlet multiset"
    and wf :: "'s \<Rightarrow> bool"
  assumes serve_conserves:
    "wf s \<Longrightarrow> serve i s = Some (es, s') \<Longrightarrow> held s' + sum_list (map passed es) = held s + given i"
    and serve_wf: "wf s \<Longrightarrow> serve i s = Some (es, s') \<Longrightarrow> wf s'"
begin

lemma serve_keeps_channels:
  assumes "wf s" and "serve i s = Some (es, s')" and "inbox = given i + inbox'"
  shows "inbox' + held s' + sum_list (map passed (done_before @ es)) =
         inbox + held s + sum_list (map passed done_before)"
  using serve_conserves [OF assms(1,2)] assms(3) by (simp add: algebra_simps)

end

interpretation pool_server: channel_server pool_step accounted step_outlets event_outlets pool_wf
  by unfold_locales (use pool_step_accounted in blast)+

definition kad_serve :: "'k kad_api \<Rightarrow> kad_input \<Rightarrow> 'k kademlia \<Rightarrow> (unit list \<times> 'k kademlia) option" where
  "kad_serve K i st = Some ([], kad_run K [i] st)"

interpretation kad_server: channel_server "kad_serve K" kad_accounted input_discoveries "\<lambda>_. {#}" kad_wf for K
proof
  fix s :: "'a kademlia" and i es s'
  assume "kad_wf s" "kad_serve K i s = Some (es, s')"
  then show "kad_accounted s' + sum_list (map (\<lambda>_. {#}) es) = kad_accounted s + input_discoveries i" "kad_wf s'"
    using kad_run_accounted [of s K "[i]"] kd_poll_pending [of s K] inject_kad_event_accounted [of s K]
    by (cases i; auto simp: kad_serve_def)+
qed

subsection \<open>Continuations\<close>

definition pool_asked :: "'k net \<Rightarrow> outlet multiset" where
  "pool_asked st = sum_list (map command_outlets (nt_pool_inbox st))"

definition kad_asked :: "'k net \<Rightarrow> outlet multiset" where
  "kad_asked st = sum_list (map discovery_outlets (nt_kad_inbox st))"

definition net_frame :: "'k net \<Rightarrow> 'k net \<Rightarrow> bool" where
  "net_frame st st' \<longleftrightarrow>
     nt_pool st' = nt_pool st \<and> nt_handed st' = nt_handed st \<and> nt_kad st' = nt_kad st \<and>
     nt_pool_open st' = nt_pool_open st \<and> nt_kad_open st' = nt_kad_open st \<and> nt_tasks st' = nt_tasks st \<and>
     nt_next st \<le> nt_next st'"

text \<open>What running a task up to its next \<^verbatim>\<open>await\<close> changes: it asks exactly on the channel it then waits
  on, which is new, and it reports a failure exactly when it ends without having sent.\<close>

definition advances :: "particle \<Rightarrow> 'k net \<Rightarrow> task_state \<times> 'k net \<Rightarrow> bool" where
  "advances p st r \<longleftrightarrow>
     (let (s, st') = r in
      net_frame st st' \<and>
      pool_asked st' = pool_asked st + awaited_pool s \<and>
      kad_asked st' = kad_asked st + awaited_kad s \<and>
      (\<forall>out. out \<in># awaited_pool s + awaited_kad s \<longrightarrow> nt_next st \<le> out \<and> out < nt_next st') \<and>
      nt_failures st' = nt_failures st @ (if s = TaskReported then [pt_id p] else []) \<and>
      nt_send_success st' = nt_send_success st + (if s = TaskSent then 1 else 0))"

lemmas advance_defs = advances_def net_frame_def pool_asked_def kad_asked_def pool_api_execute_def kad_api_execute_def
  count_resolution_def report_failure_def Let_def

lemma after_send_advances: "advances p st (after_send p s st)"
  by (simp add: after_send_def advance_defs)

lemma conn_send_advances: "advances p st (conn_send c p st)"
  by (auto simp: conn_send_def after_send_def advance_defs)

lemma after_connect_advances: "advances p st (after_connect p c ok st)"
  by (auto simp: after_connect_def conn_send_def after_send_def advance_defs)

lemma after_addresses_advances: "advances p st (after_addresses target p r st)"
  by (auto simp: after_addresses_def after_connect_def advance_defs split: sum.splits option.splits)

lemma advances_skip:
  assumes "advances p (st\<lparr>nt_next := Suc (nt_next st)\<rparr>) r"
  shows "advances p st r"
  using assms by (auto simp: advance_defs Suc_le_eq less_imp_le split: prod.splits)

lemma after_contact_advances: "advances p st (after_contact target p found st)"
proof (cases found)
  case None
  then show ?thesis
    using after_addresses_advances [THEN advances_skip, of p st target "Inl Cancelled"]
    by (auto simp: after_contact_def kad_api_execute_def advances_def net_frame_def pool_asked_def kad_asked_def Let_def)
next
  case (Some c)
  then show ?thesis
    using conn_send_advances [of p "count_resolution ResolvedLocal st" c]
    by (auto simp: after_contact_def advances_def net_frame_def pool_asked_def kad_asked_def count_resolution_def)
qed

lemma start_send_advances: "advances p st (start_send target p st)"
  using after_contact_advances [THEN advances_skip, of p st target None]
  by (auto simp: start_send_def pool_api_execute_def advances_def net_frame_def pool_asked_def kad_asked_def Let_def)

lemma task_resume_advances: "task_resume a target p s st = Some r \<Longrightarrow> advances p st r"
  by (cases "(a, target, p, s, st)" rule: task_resume.cases)
    (auto intro: after_contact_advances after_addresses_advances after_connect_advances after_send_advances)

subsection \<open>Every waiting task can still be answered\<close>

definition pool_channels :: "'k net \<Rightarrow> outlet multiset" where
  "pool_channels st = pool_asked st + accounted (nt_pool st) + handed_outlets st"

definition kad_channels :: "'k net \<Rightarrow> outlet multiset" where
  "kad_channels st = kad_asked st + kad_accounted (nt_kad st)"

definition waiting_on_pool :: "'k net \<Rightarrow> outlet multiset" where
  "waiting_on_pool st = sum_list (map (awaited_pool \<circ> tk_state) (nt_tasks st))"

definition waiting_on_kad :: "'k net \<Rightarrow> outlet multiset" where
  "waiting_on_kad st = sum_list (map (awaited_kad \<circ> tk_state) (nt_tasks st))"

definition fresh_channels :: "outlet \<Rightarrow> outlet multiset \<Rightarrow> bool" where
  "fresh_channels n M \<longleftrightarrow> (\<forall>out. count M out \<le> 1 \<and> (out \<in># M \<longrightarrow> out < n))"

definition net_inv :: "'k net \<Rightarrow> bool" where
  "net_inv st \<longleftrightarrow> pool_wf (nt_pool st) \<and> kad_wf (nt_kad st) \<and>
     fresh_channels (nt_next st) (pool_channels st) \<and> fresh_channels (nt_next st) (kad_channels st) \<and>
     waiting_on_pool st \<subseteq># pool_channels st \<and> waiting_on_kad st \<subseteq># kad_channels st"

lemma fresh_channels_mono: "fresh_channels n M \<Longrightarrow> n \<le> m \<Longrightarrow> fresh_channels m M"
  by (auto simp: fresh_channels_def intro: less_le_trans)

lemma fresh_channels_add:
  assumes "fresh_channels n M" and "N = {#} \<or> (\<exists>out. N = {#out#} \<and> n \<le> out \<and> out < m)" and "n \<le> m"
  shows "fresh_channels m (M + N)"
proof -
  have "count M out = 0" if "n \<le> out" for out
    using assms(1) that by (metis fresh_channels_def leD not_in_iff)
  with assms show ?thesis by (force simp: fresh_channels_def)
qed

lemma sum_list_map_update:
  fixes f :: "'a \<Rightarrow> 'b::cancel_comm_monoid_add"
  assumes "i < length xs"
  shows "sum_list (map f (xs[i := x])) + f (xs ! i) = sum_list (map f xs) + f x"
  using assms by (simp add: upd_conv_take_nth_drop algebra_simps)
    (metis (no_types, lifting) add.left_commute id_take_nth_drop list.simps(9) map_append sum_list.Cons sum_list.append)

lemma awaited_shape:
  "awaited_pool s = {#} \<or> (\<exists>out. awaited_pool s = {#out#})"
  "awaited_kad s = {#} \<or> (\<exists>out. awaited_kad s = {#out#})"
  by (cases s; simp)+

lemma advances_channels:
  assumes "advances p st (s, st')"
  shows "pool_channels st' = pool_channels st + awaited_pool s" "kad_channels st' = kad_channels st + awaited_kad s"
    and "nt_tasks st' = nt_tasks st"
    and "fresh_channels (nt_next st) M \<Longrightarrow> fresh_channels (nt_next st') (M + awaited_pool s)"
    and "fresh_channels (nt_next st) M \<Longrightarrow> fresh_channels (nt_next st') (M + awaited_kad s)"
proof -
  show "pool_channels st' = pool_channels st + awaited_pool s" "kad_channels st' = kad_channels st + awaited_kad s"
    "nt_tasks st' = nt_tasks st"
    using assms by (auto simp: advances_def net_frame_def pool_channels_def kad_channels_def handed_outlets_def)
  show "fresh_channels (nt_next st') (M + awaited_pool s)" "fresh_channels (nt_next st') (M + awaited_kad s)"
    if "fresh_channels (nt_next st) M"
    using that assms awaited_shape [of s]
    by (intro fresh_channels_add [where n = "nt_next st"]; force simp: advances_def net_frame_def)+
qed

lemma net_inv_advances:
  assumes inv: "net_inv st" and adv: "advances p st (s, st')"
    and pool: "waiting_on_pool st'' \<subseteq># waiting_on_pool st + awaited_pool s"
    and kad: "waiting_on_kad st'' \<subseteq># waiting_on_kad st + awaited_kad s"
    and st'': "st'' = st'\<lparr>nt_tasks := ts\<rparr>"
  shows "net_inv st''"
proof -
  have same: "pool_channels st'' = pool_channels st'" "kad_channels st'' = kad_channels st'" "nt_next st'' = nt_next st'"
    "nt_pool st'' = nt_pool st" "nt_kad st'' = nt_kad st"
    using adv by (simp_all add: st'' pool_channels_def kad_channels_def pool_asked_def kad_asked_def
        handed_outlets_def advances_def net_frame_def)
  have "waiting_on_pool st'' \<subseteq># pool_channels st + awaited_pool s" "waiting_on_kad st'' \<subseteq># kad_channels st + awaited_kad s"
    using inv pool kad unfolding net_inv_def by (meson mset_subset_eq_mono_add_right_cancel subset_mset.order_trans)+
  with inv adv show ?thesis
    by (auto simp: net_inv_def same advances_channels)
qed

lemma spawn_sends_inv: "net_inv st \<Longrightarrow> net_inv (spawn_sends p ts st)"
proof (induction ts arbitrary: st)
  case (Cons target ts)
  obtain s st1 where start: "start_send target p st = (s, st1)" by fastforce
  note adv = start_send_advances [of p st target, unfolded start]
  let ?st = "st1\<lparr>nt_tasks := nt_tasks st1 @ [\<lparr>tk_target = target, tk_particle = p, tk_state = s\<rparr>]\<rparr>"
  have "net_inv ?st"
    by (rule net_inv_advances [OF Cons.prems adv _ _ refl])
      (simp_all add: waiting_on_pool_def waiting_on_kad_def advances_channels(3) [OF adv])
  with Cons.IH [of ?st] show ?case by (simp add: start)
qed simp

lemma resume_task_inv:
  assumes "net_inv st" and "resume_task i a st = Some st'"
  shows "net_inv st'"
proof -
  let ?t = "nt_tasks st ! i"
  from assms(2) obtain s st1 where i: "i < length (nt_tasks st)"
    and res: "task_resume a (tk_target ?t) (tk_particle ?t) (tk_state ?t) st = Some (s, st1)"
    and st': "st' = st1\<lparr>nt_tasks := (nt_tasks st1)[i := ?t\<lparr>tk_state := s\<rparr>]\<rparr>"
    by (auto simp: resume_task_def Let_def split: if_splits)
  note adv = task_resume_advances [OF res]
  have "waiting_on_pool st' + awaited_pool (tk_state ?t) = waiting_on_pool st + awaited_pool s"
    "waiting_on_kad st' + awaited_kad (tk_state ?t) = waiting_on_kad st + awaited_kad s"
    using sum_list_map_update [OF i, of "awaited_pool \<circ> tk_state"] sum_list_map_update [OF i, of "awaited_kad \<circ> tk_state"]
    by (simp_all add: waiting_on_pool_def waiting_on_kad_def st' advances_channels(3) [OF adv])
  then have "waiting_on_pool st' \<subseteq># waiting_on_pool st + awaited_pool s"
    "waiting_on_kad st' \<subseteq># waiting_on_kad st + awaited_kad s"
    by (metis mset_subset_eq_add_left)+
  then show ?thesis by (rule net_inv_advances [OF assms(1) adv _ _ st'])
qed

lemma net_inv_same:
  assumes "net_inv st" and "pool_wf (nt_pool st')" "kad_wf (nt_kad st')"
    and "pool_channels st' = pool_channels st" "kad_channels st' = kad_channels st"
    and "nt_tasks st' = nt_tasks st" "nt_next st \<le> nt_next st'"
  shows "net_inv st'"
  using assms by (auto simp: net_inv_def waiting_on_pool_def waiting_on_kad_def intro: fresh_channels_mono)

lemma drive_pool_inv:
  assumes "net_inv (st\<lparr>nt_pool_inbox := cmds @ rest\<rparr>)" and "step_outlets i = sum_list (map command_outlets cmds)"
    and "drive_pool i (st\<lparr>nt_pool_inbox := rest\<rparr>) = Some st'"
  shows "net_inv st'"
proof -
  from assms(3) obtain es pool where step: "pool_step i (nt_pool st) = Some (es, pool)"
    and st': "st' = st\<lparr>nt_pool_inbox := rest, nt_pool := pool, nt_handed := nt_handed st @ es\<rparr>"
    by (auto simp: drive_pool_def)
  have wf: "pool_wf (nt_pool st)" using assms(1) by (simp add: net_inv_def)
  note kept = pool_server.serve_keeps_channels [OF wf step,
      of "pool_asked (st\<lparr>nt_pool_inbox := cmds @ rest\<rparr>)" "pool_asked st'" "nt_handed st"]
  have "pool_channels st' = pool_channels (st\<lparr>nt_pool_inbox := cmds @ rest\<rparr>)"
    using kept assms(2) by (simp add: pool_channels_def pool_asked_def handed_outlets_def st' add_ac)
  moreover have "pool_wf pool" by (rule pool_server.serve_wf [OF wf step])
  ultimately show ?thesis
    using assms(1) by (intro net_inv_same [OF assms(1)]) (auto simp: st' net_inv_def kad_channels_def kad_asked_def)
qed

lemma drive_pool_event_inv:
  assumes "net_inv st" and "step_outlets i = {#}" and "drive_pool i st = Some st'"
  shows "net_inv st'"
  using drive_pool_inv [of "[]" "nt_pool_inbox st" st i st'] assms by simp

lemma drive_kad_inv:
  assumes "net_inv st" and "kad_asked st = input_discoveries i + kad_asked (st\<lparr>nt_kad_inbox := rest\<rparr>)"
    and "st' = st\<lparr>nt_kad := kad_run K [i] (nt_kad st), nt_kad_inbox := rest\<rparr>"
  shows "net_inv st'"
proof -
  have wf: "kad_wf (nt_kad st)" using assms(1) by (simp add: net_inv_def)
  have step: "kad_serve K i (nt_kad st) = Some ([], kad_run K [i] (nt_kad st))" by (simp add: kad_serve_def)
  from kad_server.serve_keeps_channels [OF wf step assms(2), of "[]"] have "kad_channels st' = kad_channels st"
    by (simp add: kad_channels_def kad_asked_def assms(3))
  moreover have "kad_wf (kad_run K [i] (nt_kad st))" by (rule kad_server.serve_wf [OF wf step])
  ultimately show ?thesis
    using assms(1) by (intro net_inv_same [OF assms(1)])
      (auto simp: assms(3) net_inv_def pool_channels_def pool_asked_def handed_outlets_def)
qed

lemma pool_call_inv:
  assumes "net_inv st" and "command_outlets (cmd (nt_next st)) = {#nt_next st#}"
  shows "net_inv (snd (pool_api_execute cmd st))"
proof -
  let ?st = "snd (pool_api_execute cmd st)"
  have "fresh_channels (nt_next ?st) (pool_channels ?st)"
  proof (cases "nt_pool_open st")
    case True
    with assms have "pool_channels ?st = pool_channels st + {#nt_next st#}"
      by (simp add: pool_api_execute_def Let_def pool_channels_def pool_asked_def handed_outlets_def)
    with assms(1) show ?thesis
      using fresh_channels_add [of "nt_next st" "pool_channels st" "{#nt_next st#}" "nt_next ?st"]
      by (simp add: net_inv_def pool_api_execute_def Let_def)
  qed (use assms in \<open>auto simp: pool_api_execute_def Let_def net_inv_def pool_channels_def pool_asked_def
      handed_outlets_def intro: fresh_channels_mono\<close>)
  moreover have "pool_channels st \<subseteq># pool_channels ?st"
    by (simp add: pool_api_execute_def Let_def pool_channels_def pool_asked_def handed_outlets_def)
  ultimately show ?thesis
    using assms(1) by (auto simp: net_inv_def pool_api_execute_def Let_def waiting_on_pool_def waiting_on_kad_def
        kad_channels_def kad_asked_def intro: fresh_channels_mono subset_mset.order_trans)
qed

lemma kad_bootstrap_call_inv:
  assumes "net_inv st"
  shows "net_inv (snd (kad_api_execute KBootstrap (snd (kad_api_add_contact c st))))"
  using assms by (intro net_inv_same [OF assms])
    (auto simp: net_inv_def kad_api_execute_def kad_api_add_contact_def Let_def pool_channels_def pool_asked_def
      handed_outlets_def kad_channels_def kad_asked_def)

lemma net_step_inv:
  assumes inv: "net_inv st" and step: "net_step K i st = Some st'"
  shows "net_inv st'"
proof (cases i)
  case (EffectsIn now eff)
  have "net_inv (st\<lparr>nt_failures := fs\<rparr>)" for fs
    using inv by (intro net_inv_same [OF inv]) (auto simp: net_inv_def pool_channels_def pool_asked_def
        handed_outlets_def kad_channels_def kad_asked_def)
  with inv step EffectsIn show ?thesis
    by (auto simp: process_effects_def effectors_execute_def spawn_sends_inv split: sum.splits option.splits)
next
  case (PollPool ready)
  with inv step show ?thesis
    using drive_pool_inv [of "nt_pool_inbox st" "[]" st "PollStep ready (nt_pool_inbox st)" st']
    by (simp split: if_splits)
next
  case (PollKad now)
  with inv step show ?thesis
    using drive_kad_inv [of st "KadPoll now (nt_kad_inbox st)" "[]" st' K]
    by (simp add: kad_asked_def split: if_splits)
next
  case (KadIn ev)
  with inv step show ?thesis
    using drive_kad_inv [of st "KadEvent ev" "nt_kad_inbox st" st' K] by (auto simp: kad_asked_def)
next
  case (AnswerIn j a)
  with inv step show ?thesis by (simp add: resume_task_inv)
next
  case (DialBootstrap addr)
  with inv step pool_call_inv [of st "DialCmd addr"] show ?thesis by auto
next
  case (BootstrapKad c)
  with inv step kad_bootstrap_call_inv [of st c] show ?thesis by auto
next
  case PoolDown
  with inv step show ?thesis
    by (intro net_inv_same [OF inv]) (auto simp: net_inv_def pool_channels_def pool_asked_def handed_outlets_def
        kad_channels_def kad_asked_def)
next
  case KadDown
  with inv step show ?thesis
    by (intro net_inv_same [OF inv]) (auto simp: net_inv_def pool_channels_def pool_asked_def handed_outlets_def
        kad_channels_def kad_asked_def)
qed (use inv step in \<open>auto dest: drive_pool_event_inv [OF inv, rotated]\<close>)

lemma net_run_inv: "net_inv st \<Longrightarrow> net_run K is st = Some st' \<Longrightarrow> net_inv st'"
  by (induction "is" arbitrary: st) (auto simp: bind_eq_Some_conv intro: net_step_inv)

lemma net_inv_new: "net_inv (net_new me cfg k)"
  by (simp add: net_inv_def net_new_def pool_wf_def conn_pool_new_def kad_wf_def kademlia_new_def fresh_channels_def
      pool_channels_def kad_channels_def pool_asked_def kad_asked_def handed_outlets_def accounted_def pool_pending_def
      pool_replied_def kad_accounted_def waiters_def waiting_on_pool_def waiting_on_kad_def)

subsection \<open>Every target is settled once\<close>

fun issued :: "net_input \<Rightarrow> (peer_id \<times> particle) list" where
  "issued (EffectsIn now (Inr eff)) =
     (if particle_is_expired now (re_particle eff) then []
      else map (\<lambda>target. (target, re_particle eff)) (re_next_peers eff))"
| "issued _ = []"

fun execution_failures :: "net_input \<Rightarrow> string list" where
  "execution_failures (EffectsIn now (Inl err)) = (case into_particle_id err of Some i \<Rightarrow> [i] | None \<Rightarrow> [])"
| "execution_failures _ = []"

definition task_key :: "send_task \<Rightarrow> peer_id \<times> particle" where
  "task_key t = (tk_target t, tk_particle t)"

definition reported_ids :: "send_task list \<Rightarrow> string multiset" where
  "reported_ids ts = sum_list (map (\<lambda>t. if tk_state t = TaskReported then {#pt_id (tk_particle t)#} else {#}) ts)"

definition sent_count :: "send_task list \<Rightarrow> nat" where
  "sent_count ts = sum_list (map (\<lambda>t. if tk_state t = TaskSent then 1 else 0) ts)"

text \<open>How many more answers a task can take.\<close>

fun task_rank :: "task_state \<Rightarrow> nat" where
  "task_rank (AwaitContact _) = 4"
| "task_rank (AwaitAddresses _) = 3"
| "task_rank (AwaitConnect _ _) = 2"
| "task_rank (AwaitSend _ _) = 1"
| "task_rank _ = 0"

definition ranks :: "send_task list \<Rightarrow> nat" where
  "ranks ts = sum_list (map (task_rank \<circ> tk_state) ts)"

lemma task_rank_le: "task_rank s \<le> 4"
  by (cases s) auto

lemma resume_rank: "task_resume a target p s st = Some (s', st') \<Longrightarrow> task_rank s' < task_rank s"
  by (cases "(a, target, p, s, st)" rule: task_resume.cases)
    (auto simp: after_contact_def after_addresses_def after_connect_def conn_send_def after_send_def report_failure_def
      split: option.splits sum.splits if_splits prod.splits)

lemma resume_unsettled: "task_resume a target p s st = Some r \<Longrightarrow> s \<noteq> TaskSent \<and> s \<noteq> TaskReported"
  by (cases "(a, target, p, s, st)" rule: task_resume.cases) auto

definition settled_frame :: "'k net \<Rightarrow> 'k net \<Rightarrow> net_input \<Rightarrow> bool" where
  "settled_frame st st' i \<longleftrightarrow>
     map task_key (nt_tasks st') = map task_key (nt_tasks st) @ issued i \<and>
     mset (nt_failures st') + reported_ids (nt_tasks st) =
       mset (nt_failures st) + reported_ids (nt_tasks st') + mset (execution_failures i) \<and>
     nt_send_success st' + sent_count (nt_tasks st) = nt_send_success st + sent_count (nt_tasks st')"

lemma spawn_sends_settled:
  "map task_key (nt_tasks (spawn_sends p ts st)) = map task_key (nt_tasks st) @ map (\<lambda>target. (target, p)) ts \<and>
   mset (nt_failures (spawn_sends p ts st)) + reported_ids (nt_tasks st) =
     mset (nt_failures st) + reported_ids (nt_tasks (spawn_sends p ts st)) \<and>
   nt_send_success (spawn_sends p ts st) + sent_count (nt_tasks st) =
     nt_send_success st + sent_count (nt_tasks (spawn_sends p ts st)) \<and>
   ranks (nt_tasks (spawn_sends p ts st)) \<le> ranks (nt_tasks st) + 4 * length ts"
proof (induction ts arbitrary: st)
  case (Cons target ts)
  obtain s st1 where start: "start_send target p st = (s, st1)" by fastforce
  have adv: "nt_tasks st1 = nt_tasks st"
    "nt_failures st1 = nt_failures st @ (if s = TaskReported then [pt_id p] else [])"
    "nt_send_success st1 = nt_send_success st + (if s = TaskSent then 1 else 0)"
    using start_send_advances [of p st target] by (simp_all add: start advances_def net_frame_def)
  show ?case
    using Cons.IH [of "st1\<lparr>nt_tasks := nt_tasks st1 @ [\<lparr>tk_target = target, tk_particle = p, tk_state = s\<rparr>]\<rparr>"]
      task_rank_le [of s]
    by (auto simp: start adv task_key_def reported_ids_def sent_count_def ranks_def split: if_splits)
qed simp

lemma resume_task_settled:
  assumes "resume_task i a st = Some st'"
  shows "settled_frame st st' (AnswerIn i a) \<and> ranks (nt_tasks st') < ranks (nt_tasks st)"
proof -
  let ?t = "nt_tasks st ! i"
  from assms obtain s st1 where i: "i < length (nt_tasks st)"
    and res: "task_resume a (tk_target ?t) (tk_particle ?t) (tk_state ?t) st = Some (s, st1)"
    and st': "st' = st1\<lparr>nt_tasks := (nt_tasks st1)[i := ?t\<lparr>tk_state := s\<rparr>]\<rparr>"
    by (auto simp: resume_task_def Let_def split: if_splits)
  have adv: "nt_tasks st1 = nt_tasks st"
    "nt_failures st1 = nt_failures st @ (if s = TaskReported then [pt_id (tk_particle ?t)] else [])"
    "nt_send_success st1 = nt_send_success st + (if s = TaskSent then 1 else 0)"
    using task_resume_advances [OF res] by (simp_all add: advances_def net_frame_def)
  note upd = sum_list_map_update [OF i, where x = "?t\<lparr>tk_state := s\<rparr>"]
  have "map task_key (nt_tasks st') = map task_key (nt_tasks st)"
    using i by (simp add: st' adv map_update task_key_def list_update_same_conv)
  moreover have "ranks (nt_tasks st') + task_rank (tk_state ?t) = ranks (nt_tasks st) + task_rank s"
    using upd [of "task_rank \<circ> tk_state"] by (simp add: ranks_def st' adv)
  moreover have "reported_ids (nt_tasks st') =
      reported_ids (nt_tasks st) + (if s = TaskReported then {#pt_id (tk_particle ?t)#} else {#})"
    "sent_count (nt_tasks st') = sent_count (nt_tasks st) + (if s = TaskSent then 1 else 0)"
    using upd [of "\<lambda>t. if tk_state t = TaskReported then {#pt_id (tk_particle t)#} else {#}"]
      upd [of "\<lambda>t. if tk_state t = TaskSent then 1 else 0 :: nat"] resume_unsettled [OF res]
    by (simp_all add: reported_ids_def sent_count_def st' adv)
  ultimately show ?thesis
    using resume_rank [OF res] by (auto simp: settled_frame_def st' adv)
qed

fun is_answer :: "net_input \<Rightarrow> bool" where
  "is_answer (AnswerIn _ _) = True"
| "is_answer _ = False"

lemma drive_pool_frame:
  "drive_pool i st = Some st' \<Longrightarrow> nt_tasks st' = nt_tasks st \<and> nt_failures st' = nt_failures st \<and>
     nt_send_success st' = nt_send_success st"
  by (auto simp: drive_pool_def)

lemma net_step_settled:
  assumes "net_step K i st = Some st'"
  shows "settled_frame st st' i \<and>
    ranks (nt_tasks st') + (if is_answer i then 1 else 0) \<le> ranks (nt_tasks st) + 4 * length (issued i)"
proof (cases i)
  case (EffectsIn now eff)
  with assms show ?thesis
    by (auto simp: process_effects_def effectors_execute_def settled_frame_def spawn_sends_settled
        split: sum.splits option.splits)
next
  case (AnswerIn j a)
  with assms resume_task_settled [of j a st st'] show ?thesis by auto
next
  case (PollPool ready)
  with assms drive_pool_frame [of _ "st\<lparr>nt_pool_inbox := []\<rparr>" st'] show ?thesis
    by (auto simp: settled_frame_def split: if_splits)
qed (use assms in \<open>auto simp: settled_frame_def pool_api_execute_def kad_api_execute_def kad_api_add_contact_def Let_def
  dest!: drive_pool_frame split: if_splits\<close>)

lemma telescope:
  fixes a0 :: "'a::cancel_comm_monoid_add"
  assumes "a1 + r0 = a0 + r1 + e" and "a2 + r1 = a1 + r2 + e'"
  shows "a2 + r0 = a0 + r2 + (e + e')"
proof -
  have "(a1 + r0) + (a2 + r1) = (a0 + r1 + e) + (a1 + r2 + e')" using assms by simp
  then have "(a2 + r0) + (a1 + r1) = (a0 + r2 + (e + e')) + (a1 + r1)" by (simp add: add_ac)
  then show ?thesis by simp
qed

lemma net_run_settled:
  "net_run K is st = Some st' \<Longrightarrow>
   map task_key (nt_tasks st') = map task_key (nt_tasks st) @ concat (map issued is) \<and>
   mset (nt_failures st') + reported_ids (nt_tasks st) =
     mset (nt_failures st) + reported_ids (nt_tasks st') + mset (concat (map execution_failures is)) \<and>
   nt_send_success st' + sent_count (nt_tasks st) = nt_send_success st + sent_count (nt_tasks st') \<and>
   ranks (nt_tasks st') + length (filter is_answer is) \<le> ranks (nt_tasks st) + 4 * length (concat (map issued is))"
proof (induction "is" arbitrary: st)
  case (Cons i "is")
  from Cons.prems obtain st1 where step: "net_step K i st = Some st1" and run: "net_run K is st1 = Some st'"
    by (auto simp: bind_eq_Some_conv)
  note now = net_step_settled [OF step, unfolded settled_frame_def] and later = Cons.IH [OF run]
  have "mset (nt_failures st') + reported_ids (nt_tasks st) = mset (nt_failures st) + reported_ids (nt_tasks st') +
      (mset (execution_failures i) + mset (concat (map execution_failures is)))"
    by (rule telescope) (use now later in blast)+
  moreover have "nt_send_success st' + sent_count (nt_tasks st) = nt_send_success st + sent_count (nt_tasks st')"
    using now later by linarith
  moreover have "ranks (nt_tasks st') + length (filter is_answer (i # is)) \<le>
      ranks (nt_tasks st) + 4 * length (concat (map issued (i # is)))"
    using now later by (simp split: if_splits)
  ultimately show ?case using now later by simp
qed simp

subsection \<open>Properties\<close>

text \<open>C10 [no_send_is_forgotten]: In every state the node can reach, each concurrent send waits on a channel that is still in
  a command queue, held by the pool or by Kademlia, answered, or taken over by a connection
  handler, and no two sends wait on the same channel.\<close>

theorem no_send_is_forgotten:
  assumes "net_run K inputs (net_new me cfg k) = Some st"
  shows "waiting_on_pool st \<subseteq># pool_channels st \<and> waiting_on_kad st \<subseteq># kad_channels st \<and>
    (\<forall>out. count (waiting_on_pool st) out \<le> 1 \<and> count (waiting_on_kad st) out \<le> 1)"
proof -
  have inv: "net_inv st" by (rule net_run_inv [OF net_inv_new assms])
  then have "waiting_on_pool st \<subseteq># pool_channels st" "waiting_on_kad st \<subseteq># kad_channels st"
    "\<And>out. count (pool_channels st) out \<le> 1" "\<And>out. count (kad_channels st) out \<le> 1"
    by (simp_all add: net_inv_def fresh_channels_def)
  then show ?thesis by (meson mset_subset_eq_count order_trans)
qed

text \<open>C9 [targets_settled_once]: Each next peer of each live particle gets exactly one send, in order; the reported failures are
  exactly one per send that ended without success, plus one per failed execution that names its
  particle; and successes are counted once per completed send. Expired particles cause neither.\<close>

theorem targets_settled_once:
  assumes "net_run K inputs (net_new me cfg k) = Some st"
  shows "map task_key (nt_tasks st) = concat (map issued inputs) \<and>
    mset (nt_failures st) = reported_ids (nt_tasks st) + mset (concat (map execution_failures inputs)) \<and>
    nt_send_success st = sent_count (nt_tasks st)"
  using net_run_settled [OF assms] by (simp add: net_new_def reported_ids_def sent_count_def)


text \<open>A send to peer 9: the pool does not know it, Kademlia is asked and then shut down.\<close>

definition sample_inputs :: "net_input list" where
  "sample_inputs =
     [EffectsIn 1000 (Inr \<lparr>re_particle = sample_particle 1000 50, re_next_peers = [9]\<rparr>),
      EffectsIn 2000 (Inr \<lparr>re_particle = sample_particle 1000 50, re_next_peers = [8]\<rparr>),
      EffectsIn 2000 (Inl (ParticleExpired ''p2'')),
      PollPool [], AnswerIn 0 (PoolAnswer (Some (ReplyContact 0 None))), PollKad 0, KadDown,
      AnswerIn 0 (KadAnswer None)]"

definition sample_net :: "(peer_id \<times> multiaddr) list net" where
  "sample_net = net_new 1 kademlia_config_default []"

lemma sample_expired:
  "\<not> particle_is_expired 1000 (sample_particle 1000 50)" "particle_is_expired 2000 (sample_particle 1000 50)"
  by (simp_all add: particle_is_expired_iff sample_particle_def)

lemma sample_id: "pt_id (sample_particle ts ttl) = ''p1''"
  by (simp add: sample_particle_def)

lemma sample_run:
  "\<exists>st. net_run sample_kad sample_inputs sample_net = Some st \<and> nt_failures st = [''p2'', ''p1'']"
  by (simp add: sample_inputs_def sample_net_def net_new_def process_effects_def effectors_execute_def sample_expired
      start_send_def pool_api_execute_def Let_def drive_pool_def cp_poll_def conn_pool_new_def cp_get_contact_def
      get_contact_impl_def reply_all_def resume_task_def after_contact_def kad_api_execute_def kd_poll_def
      discover_peer_def sample_kad_def kademlia_new_def kd_reply_def kademlia_config_default_def is_banned_def has_timed_out_def
      after_addresses_def discovered_contact_def report_failure_def count_resolution_def sample_id)

theorem no_send_is_forgotten_witness:
  "\<exists>st. net_run sample_kad sample_inputs sample_net = Some st \<and> nt_failures st = [''p2'', ''p1''] \<and>
     waiting_on_pool st \<subseteq># pool_channels st"
  using sample_run no_send_is_forgotten [of sample_kad sample_inputs 1 kademlia_config_default "[]"]
  unfolding sample_net_def by blast

theorem targets_settled_once_witness:
  "\<exists>st. net_run sample_kad sample_inputs sample_net = Some st \<and>
     map task_key (nt_tasks st) = [(9, sample_particle 1000 50)]"
proof -
  obtain st where run: "net_run sample_kad sample_inputs sample_net = Some st" using sample_run by blast
  from targets_settled_once [OF this [unfolded sample_net_def], THEN conjunct1]
  have "map task_key (nt_tasks st) = [(9, sample_particle 1000 50)]"
    by (simp add: sample_inputs_def sample_expired)
  with run show ?thesis by (intro exI conjI)
qed


end
