(* ===== verification/Node.thy ===== *)
theory Node
  imports Connectivity
begin

section \<open>The node: bootstrapping, identification, dispatching and the main loop\<close>

text \<open>
  \<^verbatim>\<open>particle-node/src/{connectivity,dispatcher,tasks,node}.rs\<close> and \<^verbatim>\<open>behaviour/identify.rs\<close>: the
  background tasks of the connectivity component, the limit on concurrently dispatched particles,
  the handling of Identify messages and the loop that drives the node until it is told to exit.
\<close>

subsection \<open>Running Kademlia's bootstrap\<close>

fun bootstrap_connected :: "multiaddr list \<Rightarrow> lifecycle_event \<Rightarrow> contact option" where
  "bootstrap_connected nodes (Connected c) =
     (if find (\<lambda>a. a \<in> set nodes) (ct_addresses c) = None then None else Some c)"
| "bootstrap_connected nodes (Disconnected _) = None"

text \<open>The loop over the enumerated connections; \<open>None\<close> is the panic of the remainder by zero.\<close>

fun bootstrap_loop :: "nat \<Rightarrow> nat \<Rightarrow> contact list \<Rightarrow> contact list option" where
  "bootstrap_loop frequency n [] = Some []"
| "bootstrap_loop frequency n (c # cs) =
     (if frequency = 0 then None
      else map_option (\<lambda>rest. if n mod frequency = 0 then c # rest else rest) (bootstrap_loop frequency (Suc n) cs))"

definition kademlia_bootstrap :: "multiaddr list \<Rightarrow> nat \<Rightarrow> lifecycle_event list \<Rightarrow> contact list option" where
  "kademlia_bootstrap nodes frequency events =
     bootstrap_loop frequency 0 (List.map_filter (bootstrap_connected nodes) events)"

subsection \<open>Reconnecting to bootstrap nodes\<close>

definition reconnect_max :: duration where
  "reconnect_max = 60000"

definition reconnect_delta :: duration where
  "reconnect_delta = 5000"

text \<open>The loop of \<^verbatim>\<open>reconnect\<close> on the answers of successive dials: the pauses it makes and the contact it
  ends with, if any of the dials has succeeded.\<close>

fun reconnect_loop :: "duration \<Rightarrow> contact option list \<Rightarrow> duration list \<times> contact option" where
  "reconnect_loop delay [] = ([], None)"
| "reconnect_loop delay (Some c # dials) = ([], Some c)"
| "reconnect_loop delay (None # dials) =
     (let delay' = min (delay + reconnect_delta) reconnect_max;
          (pauses, r) = reconnect_loop delay' dials
      in (delay' # pauses, r))"

definition reconnect :: "contact option list \<Rightarrow> duration list \<times> contact option" where
  "reconnect dials = reconnect_loop 0 dials"

fun bootstrap_disconnected :: "multiaddr list \<Rightarrow> lifecycle_event \<Rightarrow> multiaddr list option" where
  "bootstrap_disconnected nodes (Disconnected c) = Some (filter (\<lambda>a. a \<in> set nodes) (ct_addresses c))"
| "bootstrap_disconnected nodes (Connected _) = None"

text \<open>The addresses handed to \<^verbatim>\<open>reconnect\<close>, in order, and the value of the metric
  \<^verbatim>\<open>bootstrap_disconnected\<close>, which the filter increments.\<close>

definition reconnect_bootstraps :: "multiaddr list \<Rightarrow> lifecycle_event list \<Rightarrow> multiaddr list \<times> nat" where
  "reconnect_bootstraps nodes events =
     (let disconnections = List.map_filter (bootstrap_disconnected nodes) events
      in (nodes @ concat disconnections, length disconnections))"

subsection \<open>Identify\<close>

text \<open>The protocols of a multiaddress come from \<^verbatim>\<open>libp2p\<close>, and whether an address is global from the
  standard library's (unstable) \<^verbatim>\<open>is_global\<close>: both are parameters.\<close>

datatype protocol = Ip4 u32 | Ip6 "128 word" | Memory u64 | OtherProtocol string

record addressing =
  ad_protocols :: "multiaddr \<Rightarrow> protocol list"
  ad_ip4_global :: "u32 \<Rightarrow> bool"
  ad_ip6_global :: "128 word \<Rightarrow> bool"

definition is_local_maddr :: "addressing \<Rightarrow> multiaddr \<Rightarrow> bool" where
  "is_local_maddr A maddr \<longleftrightarrow>
     list_ex (\<lambda>p. case p of
         Ip4 a \<Rightarrow> \<not> ad_ip4_global A a
       | Ip6 a \<Rightarrow> \<not> ad_ip6_global A a
       | Memory _ \<Rightarrow> True
       | OtherProtocol _ \<Rightarrow> False) (ad_protocols A maddr)"

text \<open>\<^verbatim>\<open>unique\<close> of \<^verbatim>\<open>itertools\<close> keeps first occurrences.\<close>

fun unique_addresses :: "multiaddr list \<Rightarrow> multiaddr list \<Rightarrow> multiaddr list" where
  "unique_addresses seen [] = []"
| "unique_addresses seen (a # as) =
     (if a \<in> set seen then unique_addresses seen as else a # unique_addresses (a # seen) as)"

definition filter_addresses :: "addressing \<Rightarrow> multiaddr list \<Rightarrow> bool \<Rightarrow> multiaddr list" where
  "filter_addresses A addresses allow_local =
     (let addresses = unique_addresses [] addresses
      in if allow_local then addresses else filter (\<lambda>a. \<not> is_local_maddr A a) addresses)"

record identify_info =
  ii_protocols :: "string list"
  ii_listen_addrs :: "multiaddr list"

datatype identify_event =
    IdentifyReceived peer_id identify_info
  | IdentifyError peer_id string
  | IdentifySent peer_id
  | IdentifyPushed peer_id

fun contains_str :: "string \<Rightarrow> string \<Rightarrow> bool" where
  "contains_str pat [] = (pat = [])"
| "contains_str pat (c # cs) = (take (length pat) (c # cs) = pat \<or> contains_str pat cs)"

definition supports_kademlia :: "identify_info \<Rightarrow> bool" where
  "supports_kademlia info = list_ex (contains_str ''/ipfs/kad/1.0.0'') (ii_protocols info)"

fun inject_identify_event ::
    "addressing \<Rightarrow> 'k kad_api \<Rightarrow> identify_event \<Rightarrow> bool \<Rightarrow> 'k net \<Rightarrow> 'k net" where
  "inject_identify_event A K (IdentifyReceived p info) allow_local st =
     (let addresses = filter_addresses A (ii_listen_addrs info) allow_local;
          st1 = st\<lparr>nt_pool := cp_add_discovered_addresses p addresses (nt_pool st)\<rparr>
      in if supports_kademlia info
         then st1\<lparr>nt_kad := add_kad_node K p addresses (nt_kad st1)\<rparr> else st1)"
| "inject_identify_event A K _ allow_local st = st"

subsection \<open>Task groups\<close>

text \<open>Join handles are numbers; \<open>ready\<close> says which tasks have completed.\<close>

definition tasks_poll :: "(nat \<Rightarrow> bool) \<Rightarrow> nat list \<Rightarrow> bool \<times> nat list" where
  "tasks_poll ready tasks = (let left = filter (\<lambda>t. \<not> ready t) tasks in (left = [], left))"

subsection \<open>The main loop\<close>

datatype exit_event = ExitRequested | ExitDropped | ExitStreamEnded

datatype node_event =
    SwarmIdentify identify_event
  | SwarmOther
  | MetricsEnded "string option"
  | ConnectivityEnded
  | DispatcherEnded
  | ExitEvent exit_event

datatype node_task = MetricsBackendTask | ScriptStorageTask | EventBusTask | SorcererTask | DispatcherTask
  | ConnectivityTask | VmPoolTask

definition shutdown_order :: "node_task list" where
  "shutdown_order = [MetricsBackendTask, ScriptStorageTask, EventBusTask, SorcererTask, DispatcherTask,
     ConnectivityTask, VmPoolTask]"

text \<open>The flag says whether the loop was left; afterwards the tasks are cancelled in order.\<close>

fun node_loop ::
    "addressing \<Rightarrow> 'k kad_api \<Rightarrow> node_event list \<Rightarrow> 'k net \<Rightarrow> node_task list option \<times> 'k net" where
  "node_loop A K [] st = (None, st)"
| "node_loop A K (SwarmIdentify i # es) st = node_loop A K es (inject_identify_event A K i True st)"
| "node_loop A K (ExitEvent e # es) st = (if e = ExitRequested then (Some shutdown_order, st) else node_loop A K es st)"
| "node_loop A K (_ # es) st = node_loop A K es st"

subsection \<open>Properties\<close>

lemma bootstrap_loop_nths:
  "0 < f \<Longrightarrow> bootstrap_loop f n cs = Some (nths cs {i. (n + i) mod f = 0})"
proof (induction cs arbitrary: n)
  case (Cons c cs)
  then show ?case by (simp add: nths_Cons)
qed simp

text \<open>C38 [bootstrap_schedule]: Kademlia's bootstrap runs for exactly the connections to bootstrap nodes whose number, counted
  from zero, is a multiple of the configured frequency: the first, the (N+1)st, the (2N+1)st and so
  on. With frequency zero the task panics at the first such connection.\<close>

theorem bootstrap_schedule:
  "kademlia_bootstrap nodes frequency events =
     (let conns = List.map_filter (bootstrap_connected nodes) events
      in if frequency = 0 \<and> conns \<noteq> [] then None else Some (nths conns {i. i mod frequency = 0}))"
proof (cases "List.map_filter (bootstrap_connected nodes) events")
  case Nil
  then show ?thesis by (simp add: kademlia_bootstrap_def)
next
  case (Cons c cs)
  show ?thesis
  proof (cases "frequency = 0")
    case False
    with Cons bootstrap_loop_nths [of frequency 0 "c # cs"] show ?thesis
      by (simp add: kademlia_bootstrap_def del: bootstrap_loop.simps)
  qed (simp add: kademlia_bootstrap_def Cons)
qed

lemma reconnect_loop_pauses:
  "reconnect_loop (min (reconnect_delta * k) reconnect_max) dials =
     (map (\<lambda>i. min (reconnect_delta * (k + Suc i)) reconnect_max) [0..<length (takeWhile (\<lambda>d. d = None) dials)],
      case dropWhile (\<lambda>d. d = None) dials of [] \<Rightarrow> None | d # _ \<Rightarrow> d)"
proof (induction dials arbitrary: k)
  case (Cons d dials)
  show ?case
  proof (cases d)
    case None
    have "min (min (reconnect_delta * k) reconnect_max + reconnect_delta) reconnect_max =
        min (reconnect_delta * Suc k) reconnect_max"
      by (simp add: min_def reconnect_delta_def reconnect_max_def)
    with None Cons.IH [of "Suc k"] show ?thesis
      by (simp add: upt_rec [of 0] map_Suc_upt [symmetric] comp_def del: upt_Suc)
  qed simp
qed simp

text \<open>[reconnect_backs_off]: Reconnecting to a bootstrap node dials until the first success, pausing 5, 10, 15, \<dots> seconds
  and never more than 60 between attempts, and ends with the contact of that dial.\<close>

theorem reconnect_backs_off:
  "reconnect dials =
     (map (\<lambda>i. min (5000 * Suc i) 60000) [0..<length (takeWhile (\<lambda>d. d = None) dials)],
      case dropWhile (\<lambda>d. d = None) dials of [] \<Rightarrow> None | d # _ \<Rightarrow> d)"
  using reconnect_loop_pauses [of 0 dials] by (simp add: reconnect_def reconnect_delta_def reconnect_max_def)

text \<open>[disconnections_overcounted]: The metric for lost bootstrap connections counts every disconnection, whether or not the peer
  is a bootstrap node; only the addresses dialled again are filtered.\<close>

theorem disconnections_overcounted:
  "snd (reconnect_bootstraps nodes events) = length (filter (\<lambda>e. \<exists>c. e = Disconnected c) events) \<and>
   set (fst (reconnect_bootstraps nodes events)) = set nodes"
proof -
  have "bootstrap_disconnected nodes e \<noteq> None \<longleftrightarrow> (\<exists>c. e = Disconnected c)" for e
    by (cases e) auto
  then have "length (List.map_filter (bootstrap_disconnected nodes) events) =
      length (filter (\<lambda>e. \<exists>c. e = Disconnected c) events)"
    by (simp add: List.map_filter_def)
  moreover have "set (the (bootstrap_disconnected nodes e)) \<subseteq> set nodes" if "bootstrap_disconnected nodes e \<noteq> None" for e
    using that by (cases e) auto
  ultimately show ?thesis by (force simp: reconnect_bootstraps_def List.map_filter_def)
qed

lemma unique_addresses_spec:
  "distinct (unique_addresses seen as) \<and> set (unique_addresses seen as) = set as - set seen"
  by (induction seen as rule: unique_addresses.induct) auto

text \<open>[identify_addresses]: The addresses taken from an Identify message are those the peer announced, each once, and, when
  local addresses are not allowed, only those none of whose protocols is local.\<close>

theorem identify_addresses:
  "distinct (filter_addresses A addrs allow) \<and>
   set (filter_addresses A addrs allow) = {a \<in> set addrs. allow \<or> \<not> is_local_maddr A a}"
  using unique_addresses_spec [of "[]" addrs] by (auto simp: filter_addresses_def Let_def)

lemma identify_inv:
  assumes "net_inv st"
  shows "net_inv (inject_identify_event A K i allow st)"
proof (cases i)
  case (IdentifyReceived p info)
  let ?addrs = "filter_addresses A (ii_listen_addrs info) allow"
  let ?st = "st\<lparr>nt_pool := cp_add_discovered_addresses p ?addrs (nt_pool st)\<rparr>"
  have inv: "net_inv ?st"
    by (rule drive_pool_event_inv [OF assms, of "DiscoveredStep p ?addrs"]) (simp_all add: drive_pool_def)
  then have "net_inv (?st\<lparr>nt_kad := add_kad_node K p ?addrs (nt_kad st)\<rparr>)"
    by (intro net_inv_same [OF inv]) (auto simp: net_inv_def pool_channels_def pool_asked_def handed_outlets_def
        kad_channels_def kad_asked_def add_kad_node_def kad_accounted_def kad_wf_def)
  with inv show ?thesis by (simp add: IdentifyReceived Let_def)
qed (use assms in simp_all)

text \<open>[node_loop_ends]: The main loop is left exactly when the exit is requested, and then every background task is
  cancelled, the runtime pool last; a dropped exit channel, ended tasks and metrics errors keep it
  running. Until then it keeps the channel invariant of the connectivity layer.\<close>

theorem node_loop_ends:
  assumes "net_inv st"
  shows "(fst (node_loop A K events st) = (if ExitEvent ExitRequested \<in> set events then Some shutdown_order else None)) \<and>
    net_inv (snd (node_loop A K events st))"
  using assms by (induction A K events st rule: node_loop.induct) (auto simp: identify_inv)

theorem node_loop_ends_witness:
  "fst (node_loop \<lparr>ad_protocols = (\<lambda>_. []), ad_ip4_global = (\<lambda>_. True), ad_ip6_global = (\<lambda>_. True)\<rparr> sample_kad
     [ExitEvent ExitDropped, SwarmIdentify (IdentifyReceived 3 \<lparr>ii_protocols = [''/ipfs/kad/1.0.0''], ii_listen_addrs = [4, 4]\<rparr>),
      DispatcherEnded, ExitEvent ExitRequested] sample_net) = Some shutdown_order"
  using node_loop_ends [OF net_inv_new, of
      "\<lparr>ad_protocols = (\<lambda>_. []), ad_ip4_global = (\<lambda>_. True), ad_ip6_global = (\<lambda>_. True)\<rparr>" sample_kad
      "[ExitEvent ExitDropped, SwarmIdentify (IdentifyReceived 3 \<lparr>ii_protocols = [''/ipfs/kad/1.0.0''], ii_listen_addrs = [4, 4]\<rparr>),
      DispatcherEnded, ExitEvent ExitRequested]" 1 kademlia_config_default "[]", THEN conjunct1]
  unfolding sample_net_def [symmetric] by (simp del: node_loop.simps)

subsection \<open>The dispatcher\<close>

text \<open>Hand-overs that found the channel to Aquamarine closed lose their particle.\<close>

fun arrived :: "dispatch_input \<Rightarrow> particle list" where
  "arrived (ParticleIn p) = [p]"
| "arrived _ = []"

fun undelivered :: "dispatch_input \<Rightarrow> nat" where
  "undelivered (HandedOver _ SinkReady) = 0"
| "undelivered (HandedOver _ _) = 1"
| "undelivered _ = 0"

definition dispatcher_ok :: "dispatcher \<Rightarrow> bool" where
  "dispatcher_ok d \<longleftrightarrow> (\<forall>n. ds_parallelism d = Some n \<longrightarrow> 0 < n \<longrightarrow> length (ds_running d) \<le> n)"

definition dispatched :: "dispatcher \<Rightarrow> nat" where
  "dispatched d = length (ds_queue d) + length (ds_running d) + length (ds_to_aquamarine d) + ds_expired d"

lemma process_particles_ok:
  assumes "process_particles i d = Some d'"
  shows "ds_parallelism d' = ds_parallelism d \<and> (dispatcher_ok d \<longrightarrow> dispatcher_ok d') \<and>
    dispatched d' + undelivered i = dispatched d + length (arrived i)"
  using assms
proof (cases i)
  case (HandedOver j sink)
  with assms show ?thesis
    by (cases sink) (auto simp: dispatcher_ok_def dispatched_def aqua_execute_def aqua_send_command_def length_remove_nth
        split: if_splits)
qed (auto simp: dispatcher_ok_def dispatched_def may_start_def split: list.splits if_splits option.splits)

lemma dispatcher_run_ok:
  "dispatcher_run inputs d = Some d' \<Longrightarrow> dispatcher_ok d \<Longrightarrow>
   ds_parallelism d' = ds_parallelism d \<and> dispatcher_ok d' \<and>
   dispatched d' + sum_list (map undelivered inputs) = dispatched d + length (concat (map arrived inputs))"
proof (induction inputs arbitrary: d)
  case (Cons i inputs)
  from Cons.prems(1) obtain d1 where 1: "process_particles i d = Some d1" and 2: "dispatcher_run inputs d1 = Some d'"
    by (auto simp: bind_eq_Some_conv)
  from process_particles_ok [OF 1] Cons.IH [OF 2] Cons.prems(2) show ?case by simp
qed simp



end
