(* ===== verification/Event_Bus.thy ===== *)
theory Event_Bus
  imports Connection_Pool
begin

section \<open>The spell event bus\<close>

text \<open>
  \<^verbatim>\<open>crates/spell-event-bus/src/{config,bus,api}.rs\<close>. Instants, system time and durations are in
  nanoseconds; reading a clock is a parameter. The heap of scheduled spells is a list, from which
  the first entry with the least \<open>run_at\<close> is taken; its order stands for the heap's choice among
  equal ones. One iteration of the bus's loop handles one input: a command, a peer event, or the
  firing of its timer.
\<close>

type_synonym spell_id = string

subsection \<open>Trigger configurations\<close>

text \<open>The user's configuration, of \<^verbatim>\<open>fluence_spell_dtos\<close>.\<close>

record clock_config =
  start_sec :: u32
  end_sec :: u32
  period_sec :: u32

record connection_pool_config =
  cc_connect :: bool
  cc_disconnect :: bool

record user_trigger_config =
  uc_clock :: clock_config
  uc_connections :: connection_pool_config

datatype peer_event_type = PeConnected | PeDisconnected

record timer_config =
  tc_period :: duration
  tc_start_at :: instant
  tc_end_at :: "instant option"

datatype trigger_config = TimerTrigger timer_config | PeerTrigger "peer_event_type list"

type_synonym spell_trigger_configs = "trigger_config list"

datatype config_error = InvalidPeriod | InvalidEndSec

definition MAX_PERIOD_YEAR :: nat where
  "MAX_PERIOD_YEAR = 100"

definition MAX_PERIOD_SEC :: nat where
  "MAX_PERIOD_SEC = 60 * 60 * 24 * 365 * MAX_PERIOD_YEAR"

definition from_secs :: "nat \<Rightarrow> duration" where
  "from_secs s = s * 10 ^ 9"

definition to_instant :: "nat \<Rightarrow> instant \<Rightarrow> nat \<Rightarrow> instant option" where
  "to_instant sys_now now timestamp =
     (if from_secs timestamp < sys_now then None else Some (now + (from_secs timestamp - sys_now)))"

definition timer_periodic :: "duration \<Rightarrow> instant \<Rightarrow> instant option \<Rightarrow> timer_config" where
  "timer_periodic period start_at end_at = \<lparr>tc_period = period, tc_start_at = start_at, tc_end_at = end_at\<rparr>"

definition timer_oneshot :: "instant \<Rightarrow> timer_config" where
  "timer_oneshot start_at = \<lparr>tc_period = 0, tc_start_at = start_at, tc_end_at = Some start_at\<rparr>"

definition from_clock_config :: "nat \<Rightarrow> instant \<Rightarrow> clock_config \<Rightarrow> config_error + timer_config" where
  "from_clock_config sys_now now clock =
     (if unat (period_sec clock) > MAX_PERIOD_SEC then Inl InvalidPeriod
      else
        (let end_at =
           (if end_sec clock = 0 then Inr None
            else if end_sec clock < start_sec clock then Inl InvalidEndSec
            else (case to_instant sys_now now (unat (end_sec clock)) of
                    Some e \<Rightarrow> Inr (Some e)
                  | None \<Rightarrow> Inl InvalidEndSec))
         in case end_at of
              Inl e \<Rightarrow> Inl e
            | Inr end_at \<Rightarrow>
                (let start_at = (case to_instant sys_now now (unat (start_sec clock)) of
                                   Some s \<Rightarrow> s | None \<Rightarrow> now)
                 in Inr (if period_sec clock = 0 then timer_oneshot start_at
                         else timer_periodic (from_secs (unat (period_sec clock))) start_at end_at))))"

definition from_connection_config :: "connection_pool_config \<Rightarrow> peer_event_type list option" where
  "from_connection_config c =
     (let events = (if cc_connect c then [PeConnected] else []) @ (if cc_disconnect c then [PeDisconnected] else [])
      in if events = [] then None else Some events)"

definition from_user_config ::
    "nat \<Rightarrow> instant \<Rightarrow> user_trigger_config \<Rightarrow> config_error + spell_trigger_configs option" where
  "from_user_config sys_now now cfg =
     (case (if start_sec (uc_clock cfg) \<noteq> 0
            then map_sum id (\<lambda>t. [TimerTrigger t]) (from_clock_config sys_now now (uc_clock cfg))
            else Inr []) of
        Inl e \<Rightarrow> Inl e
      | Inr timers \<Rightarrow>
          (let triggers = timers @
             (case from_connection_config (uc_connections cfg) of
                Some es \<Rightarrow> [PeerTrigger es] | None \<Rightarrow> [])
           in Inr (if triggers \<noteq> [] then Some triggers else None)))"

subsection \<open>Events\<close>

record timer_event = te_timestamp :: u64

record peer_event =
  pv_peer_id :: peer_id
  pv_connected :: bool

datatype trigger_info = TimerInfo timer_event | PeerInfo peer_event

record trigger_event =
  tr_spell_id :: spell_id
  tr_info :: trigger_info

record trigger_info_aqua =
  aqua_timer :: "timer_event list"
  aqua_peer :: "peer_event list"

fun peer_event_from :: "lifecycle_event \<Rightarrow> peer_event" where
  "peer_event_from (Connected c) = \<lparr>pv_peer_id = ct_peer_id c, pv_connected = True\<rparr>"
| "peer_event_from (Disconnected c) = \<lparr>pv_peer_id = ct_peer_id c, pv_connected = False\<rparr>"

definition get_type :: "peer_event \<Rightarrow> peer_event_type" where
  "get_type e = (if pv_connected e then PeConnected else PeDisconnected)"

fun aqua_from_info :: "trigger_info \<Rightarrow> trigger_info_aqua" where
  "aqua_from_info (TimerInfo t) = \<lparr>aqua_timer = [t], aqua_peer = []\<rparr>"
| "aqua_from_info (PeerInfo p) = \<lparr>aqua_timer = [], aqua_peer = [p]\<rparr>"

text \<open>\<open>None\<close> is the \<^verbatim>\<open>unreachable!\<close> panic.\<close>

definition info_from_aqua :: "trigger_info_aqua \<Rightarrow> trigger_info option" where
  "info_from_aqua i =
     (case (aqua_timer i, aqua_peer i) of
        (t # _, []) \<Rightarrow> Some (TimerInfo t)
      | ([], p # _) \<Rightarrow> Some (PeerInfo p)
      | _ \<Rightarrow> None)"

subsection \<open>Subscriptions\<close>

record periodic =
  per_id :: spell_id
  per_period :: duration
  per_end_at :: "instant option"

record scheduled =
  sch_data :: periodic
  run_at :: instant

definition scheduled_at :: "periodic \<Rightarrow> instant \<Rightarrow> scheduled option" where
  "scheduled_at data now =
     (if (case per_end_at data of Some e \<Rightarrow> e \<le> now | None \<Rightarrow> False) then None
      else Some \<lparr>sch_data = data, run_at = now + per_period data\<rparr>)"

record subscribers_state =
  peer_subscribers :: "peer_event_type \<Rightarrow> spell_id list"
  sub_scheduled :: "scheduled list"

definition subscribers_new :: subscribers_state where
  "subscribers_new = \<lparr>peer_subscribers = (\<lambda>_. []), sub_scheduled = []\<rparr>"

definition add_peer_subscriber ::
    "spell_id \<Rightarrow> peer_event_type list \<Rightarrow> (peer_event_type \<Rightarrow> spell_id list) \<Rightarrow> peer_event_type \<Rightarrow> spell_id list" where
  "add_peer_subscriber sid event_types subs = fold (\<lambda>t s. s(t := s t @ [sid])) event_types subs"

definition subscribe_one :: "spell_id \<Rightarrow> trigger_config \<Rightarrow> subscribers_state \<Rightarrow> subscribers_state" where
  "subscribe_one sid cfg st =
     (case cfg of
        TimerTrigger c \<Rightarrow>
          st\<lparr>sub_scheduled := sub_scheduled st @
               [\<lparr>sch_data = \<lparr>per_id = sid, per_period = tc_period c, per_end_at = tc_end_at c\<rparr>,
                 run_at = tc_start_at c\<rparr>]\<rparr>
      | PeerTrigger es \<Rightarrow> st\<lparr>peer_subscribers := add_peer_subscriber sid es (peer_subscribers st)\<rparr>)"

definition subscribe :: "spell_id \<Rightarrow> spell_trigger_configs \<Rightarrow> subscribers_state \<Rightarrow> subscribers_state" where
  "subscribe sid cfgs st = fold (subscribe_one sid) cfgs st"

definition unsubscribe :: "spell_id \<Rightarrow> subscribers_state \<Rightarrow> subscribers_state" where
  "unsubscribe sid st =
     st\<lparr>sub_scheduled := filter (\<lambda>s. per_id (sch_data s) \<noteq> sid) (sub_scheduled st),
        peer_subscribers := (\<lambda>t. filter (\<lambda>i. i \<noteq> sid) (peer_subscribers st t))\<rparr>"

fun least_run_at :: "scheduled list \<Rightarrow> instant option" where
  "least_run_at [] = None"
| "least_run_at (s # ss) = (case least_run_at ss of None \<Rightarrow> Some (run_at s) | Some m \<Rightarrow> Some (min (run_at s) m))"

definition pop_scheduled :: "scheduled list \<Rightarrow> (scheduled \<times> scheduled list) option" where
  "pop_scheduled ss =
     (case least_run_at ss of
        None \<Rightarrow> None
      | Some m \<Rightarrow>
          (case filter (\<lambda>s. run_at s = m) ss of
             [] \<Rightarrow> None
           | s # _ \<Rightarrow> Some (s, remove1 s ss)))"

definition next_scheduled_in :: "instant \<Rightarrow> subscribers_state \<Rightarrow> duration option" where
  "next_scheduled_in now st = map_option (\<lambda>m. m - now) (least_run_at (sub_scheduled st))"

subsection \<open>The loop\<close>

datatype bus_action = Subscribe spell_trigger_configs | Unsubscribe

datatype bus_input =
    CommandInput spell_id bus_action
  | PeerEventInput peer_event
  | TimerInput u64 instant \<comment> \<open>the system time in seconds and the instant at which the spell is rescheduled\<close>

record event_bus =
  eb_state :: subscribers_state
  eb_sent :: "trigger_event list"

definition event_bus_new :: event_bus where
  "event_bus_new = \<lparr>eb_state = subscribers_new, eb_sent = []\<rparr>"

text \<open>\<open>open_channel\<close>: whether the receiver of trigger events is still there. A failed send aborts
  the rest of the iteration.\<close>

definition bus_step :: "bool \<Rightarrow> bus_input \<Rightarrow> event_bus \<Rightarrow> event_bus" where
  "bus_step open_channel inp bus =
     (case inp of
        CommandInput sid (Subscribe cfg) \<Rightarrow> bus\<lparr>eb_state := subscribe sid cfg (eb_state bus)\<rparr>
      | CommandInput sid Unsubscribe \<Rightarrow> bus\<lparr>eb_state := unsubscribe sid (eb_state bus)\<rparr>
      | PeerEventInput e \<Rightarrow>
          if open_channel then
            bus\<lparr>eb_sent := eb_sent bus @
              map (\<lambda>sid. \<lparr>tr_spell_id = sid, tr_info = PeerInfo e\<rparr>) (peer_subscribers (eb_state bus) (get_type e))\<rparr>
          else bus
      | TimerInput timestamp now \<Rightarrow>
          (case pop_scheduled (sub_scheduled (eb_state bus)) of
             None \<Rightarrow> bus
           | Some (s, rest) \<Rightarrow>
               if open_channel then
                 bus\<lparr>eb_state := (eb_state bus)\<lparr>sub_scheduled :=
                       (case scheduled_at (sch_data s) now of None \<Rightarrow> rest | Some s' \<Rightarrow> rest @ [s'])\<rparr>,
                     eb_sent := eb_sent bus @
                       [\<lparr>tr_spell_id = per_id (sch_data s), tr_info = TimerInfo \<lparr>te_timestamp = timestamp\<rparr>\<rparr>]\<rparr>
               else bus\<lparr>eb_state := (eb_state bus)\<lparr>sub_scheduled := rest\<rparr>\<rparr>))"

subsection \<open>Properties\<close>

lemma least_run_at_Some:
  "ss \<noteq> [] \<Longrightarrow> \<exists>m. least_run_at ss = Some m \<and> m \<in> run_at ` set ss \<and> (\<forall>s\<in>set ss. m \<le> run_at s)"
proof (induction ss)
  case (Cons s ss)
  show ?case
  proof (cases "ss = []")
    case False
    with Cons.IH obtain m where m: "least_run_at ss = Some m" "m \<in> run_at ` set ss" "\<forall>s\<in>set ss. m \<le> run_at s"
      by blast
    have "min (run_at s) m \<le> run_at s'" if "s' \<in> set (s # ss)" for s'
      using that m(3) by (auto intro: min.coboundedI2)
    moreover have "min (run_at s) m \<in> run_at ` set (s # ss)" using m(2) by (auto simp: min_def)
    ultimately show ?thesis using m(1) by simp
  qed simp
qed simp

lemma pop_scheduled_spec:
  "pop_scheduled ss = None \<longleftrightarrow> ss = []"
  "pop_scheduled ss = Some (s, rest) \<Longrightarrow>
     s \<in> set ss \<and> mset ss = add_mset s (mset rest) \<and> (\<forall>s'\<in>set ss. run_at s \<le> run_at s')"
proof -
  show "pop_scheduled ss = None \<longleftrightarrow> ss = []"
  proof
    assume none: "pop_scheduled ss = None"
    show "ss = []"
    proof (rule ccontr)
      assume "ss \<noteq> []"
      from least_run_at_Some [OF this] obtain m where m: "least_run_at ss = Some m" "m \<in> run_at ` set ss" by blast
      then have "filter (\<lambda>s. run_at s = m) ss \<noteq> []" by (auto simp: filter_empty_conv)
      with none m(1) show False by (auto simp: pop_scheduled_def split: list.splits)
    qed
  qed (simp add: pop_scheduled_def)
  assume pop: "pop_scheduled ss = Some (s, rest)"
  then have "ss \<noteq> []" by (auto simp: pop_scheduled_def)
  from least_run_at_Some [OF this] obtain m where m: "least_run_at ss = Some m" "\<forall>s\<in>set ss. m \<le> run_at s" by blast
  with pop obtain more where "filter (\<lambda>s. run_at s = m) ss = s # more" and rest: "rest = remove1 s ss"
    by (auto simp: pop_scheduled_def split: list.splits)
  then have "s \<in> set (filter (\<lambda>s. run_at s = m) ss)" by (metis list.set_intros(1))
  with m(2) rest show "s \<in> set ss \<and> mset ss = add_mset s (mset rest) \<and> (\<forall>s'\<in>set ss. run_at s \<le> run_at s')" by auto
qed

definition subscribed :: "spell_id \<Rightarrow> subscribers_state \<Rightarrow> bool" where
  "subscribed sid st \<longleftrightarrow> (\<exists>t. sid \<in> set (peer_subscribers st t)) \<or>
     (\<exists>s\<in>set (sub_scheduled st). per_id (sch_data s) = sid)"

fun bus_run :: "(bool \<times> bus_input) list \<Rightarrow> event_bus \<Rightarrow> event_bus" where
  "bus_run [] bus = bus"
| "bus_run ((op, i) # is) bus = bus_run is (bus_step op i bus)"

lemma add_peer_subscriber_mem:
  "x \<in> set (add_peer_subscriber sid es subs t) \<longleftrightarrow> x \<in> set (subs t) \<or> (x = sid \<and> t \<in> set es)"
  unfolding add_peer_subscriber_def by (induction es arbitrary: subs) auto

lemma subscribe_other:
  "x \<noteq> sid \<Longrightarrow> subscribed x (subscribe sid cfgs st) = subscribed x st"
  unfolding subscribe_def
proof (induction cfgs arbitrary: st)
  case (Cons c cfgs)
  have "subscribed x (subscribe_one sid c st) = subscribed x st"
    using Cons.prems by (cases c) (auto simp: subscribe_one_def subscribed_def add_peer_subscriber_mem)
  with Cons show ?case by simp
qed simp

lemma bus_step_unsubscribed:
  assumes "\<not> subscribed x (eb_state bus)" and "\<forall>cfg. i \<noteq> CommandInput x (Subscribe cfg)"
  shows "\<not> subscribed x (eb_state (bus_step op i bus)) \<and>
    filter (\<lambda>e. tr_spell_id e = x) (eb_sent (bus_step op i bus)) = filter (\<lambda>e. tr_spell_id e = x) (eb_sent bus)"
proof (cases i)
  case (CommandInput sid act)
  show ?thesis
  proof (cases act)
    case (Subscribe cfg)
    with CommandInput assms show ?thesis by (auto simp: bus_step_def subscribe_other)
  next
    case Unsubscribe
    with CommandInput assms(1) show ?thesis by (auto simp: bus_step_def unsubscribe_def subscribed_def)
  qed
next
  case (PeerEventInput e)
  with assms show ?thesis by (auto simp: bus_step_def subscribed_def filter_empty_conv)
next
  case (TimerInput ts now)
  show ?thesis
  proof (cases "pop_scheduled (sub_scheduled (eb_state bus))")
    case None
    with TimerInput assms show ?thesis by (simp add: bus_step_def)
  next
    case (Some sr)
    obtain s rest where sr: "sr = (s, rest)" by (cases sr)
    have "mset (sub_scheduled (eb_state bus)) = add_mset s (mset rest)"
      using pop_scheduled_spec(2) Some sr by blast
    then have s: "set (sub_scheduled (eb_state bus)) = insert s (set rest)"
      by (metis set_mset_add_mset_insert set_mset_mset)
    with assms(1) have "per_id (sch_data s) \<noteq> x" by (auto simp: subscribed_def)
    with TimerInput Some sr assms(1) s show ?thesis
      by (auto simp: bus_step_def subscribed_def scheduled_at_def split: option.splits)
  qed
qed

lemma bus_run_unsubscribed:
  "\<not> subscribed x (eb_state bus) \<Longrightarrow> \<forall>(op, i)\<in>set is. \<forall>cfg. i \<noteq> CommandInput x (Subscribe cfg) \<Longrightarrow>
   filter (\<lambda>e. tr_spell_id e = x) (eb_sent (bus_run is bus)) = filter (\<lambda>e. tr_spell_id e = x) (eb_sent bus)"
proof (induction "is" bus rule: bus_run.induct)
  case (2 op i "is" bus)
  have "\<forall>cfg. i \<noteq> CommandInput x (Subscribe cfg)" using "2.prems"(2) by auto
  from bus_step_unsubscribed [OF "2.prems"(1) this, of op] "2.IH" "2.prems"(2) show ?case by auto
qed simp

text \<open>[unsubscribed_never_triggered]: After a spell is unsubscribed no trigger event is sent for it, whatever commands for
  other spells, peer events and timers follow, until it is subscribed again.\<close>

theorem unsubscribed_never_triggered:
  assumes "\<forall>(op, i)\<in>set is. \<forall>cfg. i \<noteq> CommandInput x (Subscribe cfg)"
  shows "filter (\<lambda>e. tr_spell_id e = x) (eb_sent (bus_run is (bus_step op0 (CommandInput x Unsubscribe) bus))) =
         filter (\<lambda>e. tr_spell_id e = x) (eb_sent bus)"
proof -
  let ?bus = "bus_step op0 (CommandInput x Unsubscribe) bus"
  have "\<not> subscribed x (eb_state ?bus)" "eb_sent ?bus = eb_sent bus"
    by (auto simp: bus_step_def subscribed_def unsubscribe_def)
  with bus_run_unsubscribed [OF _ assms] show ?thesis by simp
qed

definition on_connect :: spell_trigger_configs where
  "on_connect = [PeerTrigger [PeConnected]]"

definition connect_event :: bus_input where
  "connect_event = PeerEventInput \<lparr>pv_peer_id = 4, pv_connected = True\<rparr>"

theorem unsubscribed_never_triggered_witness:
  "filter (\<lambda>e. tr_spell_id e = ''s1'')
     (eb_sent (bus_run [(True, CommandInput ''s2'' (Subscribe on_connect)), (True, connect_event)]
       (bus_step True (CommandInput ''s1'' Unsubscribe)
         (bus_step True (CommandInput ''s1'' (Subscribe on_connect)) event_bus_new)))) = []"
  using unsubscribed_never_triggered [of "[(True, CommandInput ''s2'' (Subscribe on_connect)), (True, connect_event)]"
      "''s1''" True "bus_step True (CommandInput ''s1'' (Subscribe on_connect)) event_bus_new"]
  by (simp add: connect_event_def event_bus_new_def bus_step_def)

text \<open>[timer_schedule]: When the timer fires with a spell scheduled, the spell sent is one of those with the earliest
  time, and it alone; all others stay scheduled. It is scheduled again one period after the present
  instant exactly if its end has not come. In particular a spell with no period is triggered once, and a period of at
  least a second puts the next run in the future.\<close>

theorem timer_schedule:
  assumes "bus' = bus_step True (TimerInput ts now) bus" and "sub_scheduled (eb_state bus) \<noteq> []"
  shows "\<exists>s rest. mset (sub_scheduled (eb_state bus)) = add_mset s (mset rest) \<and>
     (\<forall>s'\<in>set (sub_scheduled (eb_state bus)). run_at s \<le> run_at s') \<and>
     eb_sent bus' = eb_sent bus @ [\<lparr>tr_spell_id = per_id (sch_data s), tr_info = TimerInfo \<lparr>te_timestamp = ts\<rparr>\<rparr>] \<and>
     sub_scheduled (eb_state bus') =
       (if \<exists>e. per_end_at (sch_data s) = Some e \<and> e \<le> now then rest
        else rest @ [\<lparr>sch_data = sch_data s, run_at = now + per_period (sch_data s)\<rparr>]) \<and>
     peer_subscribers (eb_state bus') = peer_subscribers (eb_state bus)"
proof -
  obtain s rest where pop: "pop_scheduled (sub_scheduled (eb_state bus)) = Some (s, rest)"
    using assms(2) pop_scheduled_spec(1) by (metis not_Some_eq prod.collapse)
  from pop_scheduled_spec(2) [OF pop] show ?thesis
    by (intro exI [of _ s] exI [of _ rest])
       (auto simp: assms(1) bus_step_def pop scheduled_at_def split: option.splits)
qed

definition oneshot_bus :: event_bus where
  "oneshot_bus = bus_step True (CommandInput ''s1'' (Subscribe [TimerTrigger (timer_oneshot 5)])) event_bus_new"

theorem timer_schedule_witness:
  "sub_scheduled (eb_state (bus_step True (TimerInput 9 6) oneshot_bus)) = []"
proof -
  have one: "sub_scheduled (eb_state oneshot_bus) =
      [\<lparr>sch_data = \<lparr>per_id = ''s1'', per_period = 0, per_end_at = Some 5\<rparr>, run_at = 5\<rparr>]"
    by (simp add: oneshot_bus_def bus_step_def subscribe_def subscribe_one_def timer_oneshot_def event_bus_new_def
        subscribers_new_def)
  then have "sub_scheduled (eb_state oneshot_bus) \<noteq> []" by simp
  from timer_schedule [OF refl this, of 9 6] one show ?thesis by (auto split: if_splits)
qed

text \<open>[spell_runs_after_its_end]: A periodic spell can be triggered after its end: when it fires before its end with less
  than a period to go, it is scheduled again for a time after the end, and that entry is not dropped
  before it fires.\<close>

theorem spell_runs_after_its_end:
  assumes "sub_scheduled (eb_state bus) = [\<lparr>sch_data = d, run_at = r\<rparr>]" and "per_end_at d = Some e"
    and "r \<le> now" and "now < e" and "e < now + per_period d"
  shows "let bus1 = bus_step True (TimerInput ts1 now) bus; late = now + per_period d;
             bus2 = bus_step True (TimerInput ts2 late) bus1 in
         next_scheduled_in now (eb_state bus1) = Some (per_period d) \<and> e < late \<and>
         eb_sent bus2 = eb_sent bus @ [\<lparr>tr_spell_id = per_id d, tr_info = TimerInfo \<lparr>te_timestamp = ts1\<rparr>\<rparr>,
                                       \<lparr>tr_spell_id = per_id d, tr_info = TimerInfo \<lparr>te_timestamp = ts2\<rparr>\<rparr>]"
  using assms by (simp add: bus_step_def pop_scheduled_def scheduled_at_def next_scheduled_in_def Let_def)

definition periodic_bus :: event_bus where
  "periodic_bus = bus_step True (CommandInput ''s1'' (Subscribe [TimerTrigger (timer_periodic 10 5 (Some 8))])) event_bus_new"

theorem spell_runs_after_its_end_witness:
  "length (eb_sent (bus_step True (TimerInput 2 16) (bus_step True (TimerInput 1 6) periodic_bus))) = 2"
  using spell_runs_after_its_end [of periodic_bus "\<lparr>per_id = ''s1'', per_period = 10, per_end_at = Some 8\<rparr>" 5 8 6 1 2]
  by (simp add: periodic_bus_def bus_step_def subscribe_def subscribe_one_def timer_periodic_def event_bus_new_def
      subscribers_new_def Let_def)

lemma from_clock_config_Inr:
  assumes "from_clock_config sys_now now clock = Inr t"
  shows "unat (period_sec clock) \<le> MAX_PERIOD_SEC \<and> now \<le> tc_start_at t \<and>
     (\<forall>e. tc_end_at t = Some e \<longrightarrow> tc_start_at t \<le> e) \<and>
     (period_sec clock = 0 \<longrightarrow> t = timer_oneshot (tc_start_at t)) \<and>
     (period_sec clock \<noteq> 0 \<longrightarrow> 10 ^ 9 \<le> tc_period t)"
proof -
  have "0 < unat (period_sec clock)" if "period_sec clock \<noteq> 0" using that by (simp add: unat_gt_0)
  moreover have "unat (start_sec clock) \<le> unat (end_sec clock)" if "\<not> end_sec clock < start_sec clock"
    using that by (simp add: word_less_nat_alt)
  ultimately show ?thesis
    using assms
    by (auto simp: from_clock_config_def Let_def timer_oneshot_def timer_periodic_def from_secs_def to_instant_def
        split: if_splits option.splits)
qed

lemma from_clock_config_Inl:
  "from_clock_config sys_now now clock = Inl e \<Longrightarrow>
     MAX_PERIOD_SEC < unat (period_sec clock) \<and> e = InvalidPeriod \<or>
     end_sec clock \<noteq> 0 \<and> e = InvalidEndSec \<and>
       (end_sec clock < start_sec clock \<or> from_secs (unat (end_sec clock)) < sys_now)"
  by (auto simp: from_clock_config_def Let_def to_instant_def split: if_splits option.splits)

text \<open>[trigger_config_validation]: A trigger configuration is rejected exactly when it has a clock (a start other than
  zero) whose period exceeds the maximum or whose end, if given, is before its start or has
  passed. An accepted clock gives a timer that starts no earlier than now and, if it has an end
  and a period, does not end before it starts; a configuration with neither clock nor peer
  events gives no subscription at all.\<close>

theorem trigger_config_validation:
  "(case from_user_config sys_now now cfg of
      Inl e \<Rightarrow> start_sec (uc_clock cfg) \<noteq> 0 \<and>
        (MAX_PERIOD_SEC < unat (period_sec (uc_clock cfg)) \<and> e = InvalidPeriod \<or>
         end_sec (uc_clock cfg) \<noteq> 0 \<and> e = InvalidEndSec \<and>
           (end_sec (uc_clock cfg) < start_sec (uc_clock cfg) \<or> from_secs (unat (end_sec (uc_clock cfg))) < sys_now))
    | Inr None \<Rightarrow> start_sec (uc_clock cfg) = 0 \<and> \<not> cc_connect (uc_connections cfg) \<and> \<not> cc_disconnect (uc_connections cfg)
    | Inr (Some triggers) \<Rightarrow> triggers \<noteq> [] \<and>
        (\<forall>t. TimerTrigger t \<in> set triggers \<longrightarrow> now \<le> tc_start_at t \<and>
           (\<forall>e. tc_end_at t = Some e \<longrightarrow> tc_start_at t \<le> e) \<and> (tc_period t = 0 \<longrightarrow> t = timer_oneshot (tc_start_at t))))"
proof (cases "start_sec (uc_clock cfg) = 0")
  case True
  then show ?thesis by (auto simp: from_user_config_def from_connection_config_def)
next
  case False
  show ?thesis
  proof (cases "from_clock_config sys_now now (uc_clock cfg)")
    case (Inl e)
    with False from_clock_config_Inl [OF Inl] show ?thesis by (simp add: from_user_config_def)
  next
    case (Inr t)
    note ok = from_clock_config_Inr [OF Inr]
    have "tc_period t = 0 \<longrightarrow> t = timer_oneshot (tc_start_at t)" using ok by (cases "period_sec (uc_clock cfg) = 0") auto
    with ok False Inr show ?thesis
      by (auto simp: from_user_config_def split: option.splits)
  qed
qed

definition sample_user_config :: user_trigger_config where
  "sample_user_config = \<lparr>uc_clock = \<lparr>start_sec = 10, end_sec = 5, period_sec = 1\<rparr>,
     uc_connections = \<lparr>cc_connect = False, cc_disconnect = False\<rparr>\<rparr>"

theorem trigger_config_validation_witness:
  "from_user_config 0 0 sample_user_config = Inl InvalidEndSec"
  using trigger_config_validation [where sys_now = 0 and now = 0 and cfg = sample_user_config]
  by (simp add: sample_user_config_def from_user_config_def from_clock_config_def MAX_PERIOD_SEC_def MAX_PERIOD_YEAR_def)

text \<open>[trigger_info_roundtrip]: What a spell's script is given as the trigger is read back as the same trigger, and the
  conversion never reaches its unreachable case on such values.\<close>

theorem trigger_info_roundtrip: "info_from_aqua (aqua_from_info i) = Some i"
  by (cases i) (simp_all add: info_from_aqua_def)

end
