(* ===== verification/Spells.thy ===== *)
theory Spells
  imports App_Services Event_Bus Key_Manager Functions
begin

section \<open>Spells\<close>

text \<open>
  \<^verbatim>\<open>sorcerer/src/{sorcerer,spells,script_executor,utils}.rs\<close> and \<^verbatim>\<open>spell-storage/src/storage.rs\<close>. A spell is a service of the blueprint
  \<open>spell\<close>, owned by the scope peer id of the peer that installed it and subscribed to triggers; when it is triggered, the sorcerer
  makes a particle with its script, signs it with the key of the scope and executes it.

  \<^item> The sorcerer's shared components are one state: services, key manager, event bus, the set of registered spells (a
    list without repetition) and the particles handed to the plumber.
  \<^item> What is random or comes from outside in one operation is an environment: the random ids and the clock, indexed by the order
    of use, a fresh key pair, and whether the event bus and the plumber answer.
  \<^item> The results of a spell's own functions are values of \<^verbatim>\<open>fluence_spell_dtos\<close>; their deserialization is a
    parameter, as are serde's texts.
\<close>

record 'v spell_value =
  sv_value :: 'v
  sv_success :: bool
  sv_error :: string

record ('app, 'k, 'pk, 'err) spell_api =
  sp_services :: "'app service_api"
  sp_keys :: "'k keypair_api"
  sp_crypto :: "('k, 'pk, 'err) crypto"
  sp_render :: render
  sp_unit :: "jvalue \<Rightarrow> string + unit spell_value"
  sp_string :: "jvalue \<Rightarrow> string + string spell_value"
  sp_u32 :: "jvalue \<Rightarrow> string + u32 option spell_value" \<comment> \<open>\<open>None\<close>: absent\<close>
  sp_script :: "jvalue \<Rightarrow> string + string spell_value"
  sp_trigger_config_value :: "jvalue \<Rightarrow> string + user_trigger_config spell_value"
  sp_trigger_config :: "jvalue \<Rightarrow> user_trigger_config option"
  sp_trigger_config_json :: "user_trigger_config \<Rightarrow> jvalue"
  sp_trigger_text :: "trigger_info_aqua \<Rightarrow> string option"
  sp_debug_args :: "jvalue list \<Rightarrow> string"

datatype event_bus_error = SendError string | ReplyError string

record 'k spell_env =
  se_uuid :: "nat \<Rightarrow> string"
  se_now_ms :: "nat \<Rightarrow> u64"
  se_sys_now :: nat
  se_now :: instant
  se_fresh_key :: 'k
  se_key_write_ok :: bool
  se_bus_error :: "spell_id \<Rightarrow> bus_action \<Rightarrow> event_bus_error option"
  se_execute_error :: "string option"

record ('app, 'k) sorcerer =
  so_services :: "'app app_services"
  so_blueprint :: string
  so_spells :: "string list"
  so_bus :: event_bus
  so_keys :: "'k key_manager"
  so_particle_ttl :: nat \<comment> \<open>in milliseconds\<close>
  so_executed :: "particle list"

subsection \<open>Names and outcomes\<close>

fun jerror_text :: "render \<Rightarrow> jerror \<Rightarrow> string" where
  "jerror_text render (JErrorText s) = s"
| "jerror_text render (JErrorFrom c fs) = render c fs"

definition quote :: string where
  "quote = [CHR 0x27]"

fun process_func_outcome ::
    "render \<Rightarrow> string \<Rightarrow> (jvalue \<Rightarrow> string + 'v spell_value) \<Rightarrow> function_outcome \<Rightarrow> string \<Rightarrow> string \<Rightarrow> jerror + 'v" where
  "process_func_outcome render tname de (NotDefined a params) sid fname =
     Inl (JErrorText (''Service with id '' @ quote @ service_id a @ quote @ '' not found (function '' @ function_name a @ '')''))"
| "process_func_outcome render tname de Empty sid fname =
     Inl (JErrorText (''Function '' @ sid @ ''.'' @ fname @ '' has not returned any result''))"
| "process_func_outcome render tname de (OutcomeErr e) sid fname = Inl (JErrorText (jerror_text render e))"
| "process_func_outcome render tname de (OutcomeOk v) sid fname =
     (case de v of
        Inl e \<Rightarrow> Inl (JErrorText (''Result of a function '' @ sid @ ''.'' @ fname @ '' cannot be parsed to '' @ tname @ '': '' @ e))
      | Inr r \<Rightarrow>
          if sv_success r then Inr (sv_value r)
          else Inl (JErrorText (''Function '' @ sid @ ''.'' @ fname @ '' executed with error: '' @ sv_error r)))"

fun split_underscore :: "string \<Rightarrow> string list" where
  "split_underscore [] = [[]]"
| "split_underscore (c # cs) =
     (if c = CHR ''_'' then [] # split_underscore cs
      else (case split_underscore cs of [] \<Rightarrow> [[c]] | w # ws \<Rightarrow> (c # w) # ws))"

definition parse_spell_id_from :: "string \<Rightarrow> jerror + string" where
  "parse_spell_id_from particle_id =
     (if take 6 particle_id = ''spell_'' then
        (case split_underscore particle_id of
           _ # sid # _ \<Rightarrow> Inr sid
         | _ \<Rightarrow> Inl (JErrorText ''Invalid particle id format''))
      else Inl (JErrorText (''Expected spell particle id to start with '' @ quote @ ''spell_'' @ quote @ '': '' @ particle_id)))"

subsection \<open>Calls to a spell\<close>

text \<open>\<open>k\<close> counts the calls of one operation.\<close>

definition call_spell ::
    "('app, 'k, 'pk, 'err) spell_api \<Rightarrow> 'k spell_env \<Rightarrow> nat \<Rightarrow> string \<Rightarrow> (jvalue \<Rightarrow> string + 'v spell_value) \<Rightarrow>
     string \<Rightarrow> string \<Rightarrow> jvalue list \<Rightarrow> string option \<Rightarrow> peer_id \<Rightarrow> u32 \<Rightarrow>
     ('app, 'k) sorcerer \<Rightarrow> (jerror + 'v) \<times> ('app, 'k) sorcerer" where
  "call_spell A env k tname de sid fname fargs pid peer ttl so =
     (let (out, services) = call_function (sp_services A) (se_uuid env k) (se_now_ms env k) ttl sid fname fargs pid peer (so_services so)
      in (process_func_outcome (sp_render A) tname de out sid fname, so\<lparr>so_services := services\<rparr>))"

definition call_unit where
  "call_unit A env k = call_spell A env k ''fluence_spell_dtos::value::UnitValue'' (sp_unit A)"

definition scope_of ::
    "('app, 'k, 'pk, 'err) spell_api \<Rightarrow> 'k spell_env \<Rightarrow> peer_id \<Rightarrow> ('app, 'k) sorcerer \<Rightarrow> (jerror + peer_id) \<times> ('app, 'k) sorcerer" where
  "scope_of A env peer so =
     (case get_scope_peer_id (sp_keys A) (se_key_write_ok env) (se_fresh_key env) peer (so_keys so) of
        Inl e \<Rightarrow> (Inl (JErrorFrom (case e of CannotExtractRSASecretKey \<Rightarrow> ''CannotExtractRSASecretKey''
                                     | SerializePersistedKeypair \<Rightarrow> ''SerializePersistedKeypair''
                                     | WriteErrorPersistedKeypair _ \<Rightarrow> ''WriteErrorPersistedKeypair'') []), so)
      | Inr (p, km) \<Rightarrow> (Inr p, so\<lparr>so_keys := km\<rparr>))"

definition lift_arg :: "args_error + 'a \<Rightarrow> 's \<Rightarrow> (jerror + 'a) \<times> 's" where
  "lift_arg r s = (map_sum args_jerror id r, s)"

definition trigger_config_of ::
    "'k spell_env \<Rightarrow> user_trigger_config \<Rightarrow> 's \<Rightarrow> (jerror + spell_trigger_configs option) \<times> 's" where
  "trigger_config_of env cfg s =
     (map_sum (\<lambda>e. JErrorFrom (case e of InvalidPeriod \<Rightarrow> ''InvalidPeriod'' | InvalidEndSec \<Rightarrow> ''InvalidEndSec'') []) id
        (from_user_config (se_sys_now env) (se_now env) cfg), s)"

text \<open>\<^verbatim>\<open>SpellEventBusApi::send\<close>: a command that the bus processes and answers, or an error.\<close>

definition bus_send ::
    "'k spell_env \<Rightarrow> spell_id \<Rightarrow> bus_action \<Rightarrow> ('app, 'k) sorcerer \<Rightarrow> (event_bus_error + unit) \<times> ('app, 'k) sorcerer" where
  "bus_send env sid action so =
     (case se_bus_error env sid action of
        Some e \<Rightarrow> (Inl e, so)
      | None \<Rightarrow> (Inr (), so\<lparr>so_bus := bus_step True (CommandInput sid action) (so_bus so)\<rparr>))"

fun bus_error_text :: "render \<Rightarrow> event_bus_error \<Rightarrow> string" where
  "bus_error_text render (SendError s) = render ''SendError'' [s]"
| "bus_error_text render (ReplyError s) = render ''ReplyError'' [s]"

definition service_call ::
    "('app, 'k, 'pk, 'err) spell_api \<Rightarrow> ('app app_services \<Rightarrow> (service_error + 'a) \<times> 'app app_services) \<Rightarrow>
     ('app, 'k) sorcerer \<Rightarrow> (jerror + 'a) \<times> ('app, 'k) sorcerer" where
  "service_call A f so =
     (let (r, services) = f (so_services so)
      in (map_sum (service_jerror (sa_peer_to_string (sp_services A))) id r, so\<lparr>so_services := services\<rparr>))"

subsection \<open>Registered spells\<close>

definition register_spell :: "string \<Rightarrow> ('app, 'k) sorcerer \<Rightarrow> ('app, 'k) sorcerer" where
  "register_spell sid so = so\<lparr>so_spells := List.insert sid (so_spells so)\<rparr>"

definition unregister_spell :: "string \<Rightarrow> ('app, 'k) sorcerer \<Rightarrow> ('app, 'k) sorcerer" where
  "unregister_spell sid so = so\<lparr>so_spells := filter (\<lambda>i. i \<noteq> sid) (so_spells so)\<rparr>"

definition has_spell :: "string \<Rightarrow> ('app, 'k) sorcerer \<Rightarrow> bool" where
  "has_spell sid so = (sid \<in> set (so_spells so))"

definition restore_spells :: "'app app_services \<Rightarrow> module_repository \<Rightarrow> string list" where
  "restore_spells services modules =
     (let spell_blueprints = map bp_id (filter (\<lambda>bp. bp_name bp = ''spell'') (get_blueprints modules))
      in map fst (filter (\<lambda>(_, bp). bp \<in> set spell_blueprints) (list_services_with_blueprints services)))"

subsection \<open>The functions of the service \<open>spell\<close>\<close>

lemma remove_service_total: "remove_service A x peer spell st \<noteq> None"
  using get_service_InrD(1)
  by (fastforce simp: remove_service_def remove_allowed_def Let_def split: sum.splits if_splits option.splits)

text \<open>By the lemma, the last case does not arise.\<close>

definition remove_spell_service ::
    "'app service_api \<Rightarrow> string \<Rightarrow> peer_id \<Rightarrow> 'app app_services \<Rightarrow> (service_error + unit) \<times> 'app app_services" where
  "remove_spell_service A sid peer st =
     (case remove_service A sid peer True st of Some r \<Rightarrow> r | None \<Rightarrow> (Inl (NoSuchService sid), st))"

text \<open>The three calls that fill a new spell.\<close>

definition fill_spell where
  "fill_spell A env sid peer ttl script init_data user_config =
     try_then (call_unit A env 1 sid ''set_script_source_to_file'' [JString script] None peer ttl) (\<lambda>_.
     try_then (call_unit A env 2 sid ''set_json_fields'' [JString init_data] None peer ttl) (\<lambda>_.
     call_unit A env 3 sid ''set_trigger_config'' [sp_trigger_config_json A user_config] None peer ttl))"

definition subscribe_new_spell ::
    "('app, 'k, 'pk, 'err) spell_api \<Rightarrow> 'k spell_env \<Rightarrow> string \<Rightarrow> particle_params \<Rightarrow> spell_trigger_configs \<Rightarrow>
     ('app, 'k) sorcerer \<Rightarrow> (jerror + unit) \<times> ('app, 'k) sorcerer" where
  "subscribe_new_spell A env sid params cfg so =
     (case bus_send env sid (Subscribe cfg) so of
        (Inr _, so1) \<Rightarrow> (Inr (), so1)
      | (Inl err, so1) \<Rightarrow>
          try_then (service_call A (remove_spell_service (sp_services A) sid (pp_init_peer_id params)))
            (\<lambda>_ so2. (Inl (JErrorText (''can't install a spell due to an internal error while subscribing to the triggers: '' @
                bus_error_text (sp_render A) err)), so2))
            (unregister_spell sid so1))"

definition spell_install ::
    "('app, 'k, 'pk, 'err) spell_api \<Rightarrow> 'k spell_env \<Rightarrow> args \<Rightarrow> particle_params \<Rightarrow>
     ('app, 'k) sorcerer \<Rightarrow> (jerror + jvalue) \<times> ('app, 'k) sorcerer" where
  "spell_install A env sargs params =
     (let (script_r, it1) = args_next de_string ''script'' (function_args sargs);
          (data_r, it2) = args_next de_string ''data'' it1;
          (config_r, it3) = args_next (sp_trigger_config A) ''config'' it2
      in try_then (lift_arg script_r) (\<lambda>script.
         try_then (lift_arg data_r) (\<lambda>init_data.
         try_then (lift_arg config_r) (\<lambda>user_config.
         try_then (trigger_config_of env user_config) (\<lambda>config.
         try_then (scope_of A env (pp_init_peer_id params)) (\<lambda>peer.
         try_then (\<lambda>so. service_call A (create_service (sp_services A) (se_uuid env 0) (so_blueprint so) peer) so) (\<lambda>sid so.
         try_then (fill_spell A env sid peer (pp_ttl params) script init_data user_config) (\<lambda>_.
         try_then (case config of
             Some cfg \<Rightarrow> subscribe_new_spell A env sid params cfg
           | None \<Rightarrow> (\<lambda>so. (Inr (), so))) (\<lambda>_ so. (Inr (JString sid), so)))
           (register_spell sid so))))))))"

definition spell_list :: "('app, 'k) sorcerer \<Rightarrow> jerror + jvalue" where
  "spell_list so = Inr (JArray (map JString (so_spells so)))"

definition spell_remove ::
    "('app, 'k, 'pk, 'err) spell_api \<Rightarrow> 'k spell_env \<Rightarrow> args \<Rightarrow> particle_params \<Rightarrow>
     ('app, 'k) sorcerer \<Rightarrow> (jerror + unit) \<times> ('app, 'k) sorcerer" where
  "spell_remove A env a params =
     try_then (lift_arg (fst (args_next de_string ''spell_id'' (function_args a)))) (\<lambda>sid.
     try_then (scope_of A env (pp_init_peer_id params)) (\<lambda>peer so.
       case bus_send env sid Unsubscribe so of
         (Inl err, so1) \<Rightarrow>
           (Inl (JErrorText (''can't remove a spell '' @ sid @
              '' due to an internal error while unsubscribing from the triggers: '' @ bus_error_text (sp_render A) err)), so1)
       | (Inr _, so1) \<Rightarrow>
           service_call A (remove_spell_service (sp_services A) sid peer) (unregister_spell sid so1)))"

definition resubscribe_spell ::
    "'k spell_env \<Rightarrow> string \<Rightarrow> spell_trigger_configs option \<Rightarrow> ('app, 'k) sorcerer \<Rightarrow> (event_bus_error + unit) \<times> ('app, 'k) sorcerer" where
  "resubscribe_spell env sid config =
     try_then (bus_send env sid Unsubscribe) (\<lambda>_.
       case config of Some cfg \<Rightarrow> bus_send env sid (Subscribe cfg) | None \<Rightarrow> (\<lambda>so. (Inr (), so)))"

definition spell_update_config ::
    "('app, 'k, 'pk, 'err) spell_api \<Rightarrow> 'k spell_env \<Rightarrow> args \<Rightarrow> particle_params \<Rightarrow>
     ('app, 'k) sorcerer \<Rightarrow> (jerror + unit) \<times> ('app, 'k) sorcerer" where
  "spell_update_config A env a params =
     (let (sid_r, it1) = args_next de_string ''spell_id'' (function_args a);
          (config_r, it2) = args_next (sp_trigger_config A) ''config'' it1
      in try_then (lift_arg sid_r) (\<lambda>sid.
         try_then (scope_of A env (pp_init_peer_id params)) (\<lambda>peer.
         try_then (lift_arg config_r) (\<lambda>user_config.
         try_then (trigger_config_of env user_config) (\<lambda>config.
         try_then (call_unit A env 0 sid ''set_trigger_config'' [sp_trigger_config_json A user_config] None peer (pp_ttl params)) (\<lambda>_ so.
           case resubscribe_spell env sid config so of
             (Inl err, so1) \<Rightarrow>
               (Inl (JErrorText (''can't update a spell '' @ sid @
                  '' config due to an internal error while updating the triggers: '' @ bus_error_text (sp_render A) err)), so1)
           | (Inr _, so1) \<Rightarrow> (Inr (), so1)))))))"

definition get_spell_id :: "particle_params \<Rightarrow> jerror + jvalue" where
  "get_spell_id params = map_sum id JString (parse_spell_id_from (pp_id params))"

definition get_spell_arg where
  "get_spell_arg A env a params so =
     (case parse_spell_id_from (pp_id params) of
        Inl e \<Rightarrow> (Inl e, so)
      | Inr sid \<Rightarrow>
          (let key = function_name a;
               (r, so1) = call_spell A env 0 ''fluence_spell_dtos::value::StringValue'' (sp_string A) sid ''get_string'' [JString key]
                 (Some (pp_id params)) (pp_init_peer_id params) (pp_ttl params) so
           in (map_sum (\<lambda>e. JErrorText (''Failed to get argument '' @ key @ '' for spell '' @ sid @ '': '' @ jerror_text (sp_render A) e))
                 JString r, so1)))"

definition store_error where
  "store_error A env a params so =
     (case parse_spell_id_from (pp_id params) of
        Inl e \<Rightarrow> (Inl e, so)
      | Inr sid \<Rightarrow>
          (let fargs = function_args a @ [JInt (uint (pp_timestamp params))];
               (r, so1) = call_unit A env 0 sid ''store_error'' fargs (Some (pp_id params)) (pp_init_peer_id params) (pp_ttl params) so
           in (map_sum (\<lambda>e. JErrorText (''Failed to store error '' @ sp_debug_args A fargs @ '' for spell '' @ sid @ '': '' @
                 jerror_text (sp_render A) e)) id r, so1)))"

definition store_response where
  "store_response A env a params so =
     (case parse_spell_id_from (pp_id params) of
        Inl e \<Rightarrow> (Inl e, so)
      | Inr sid \<Rightarrow>
          (let (r, so1) = call_unit A env 0 sid ''set_json_fields'' (function_args a) (Some (pp_id params)) (pp_init_peer_id params)
                 (pp_ttl params) so
           in (map_sum (\<lambda>e. JErrorText (''Failed to store response '' @ sp_debug_args A (function_args a) @ '' for spell '' @ sid @ '': '' @
                 jerror_text (sp_render A) e)) id r, so1)))"

definition scope_get_peer_id where
  "scope_get_peer_id A env params =
     try_then (scope_of A env (pp_init_peer_id params)) (\<lambda>p so. (Inr (JString (ka_to_base58 (sp_keys A) p)), so))"

subsection \<open>Executing a triggered spell\<close>

definition script_ttl :: "('app, 'k) sorcerer \<Rightarrow> u32" where
  "script_ttl so = word_of_nat (so_particle_ttl so)"

definition get_spell_counter ::
    "('app, 'k, 'pk, 'err) spell_api \<Rightarrow> 'k spell_env \<Rightarrow> string \<Rightarrow> peer_id \<Rightarrow> ('app, 'k) sorcerer \<Rightarrow>
     (jerror + u32) \<times> ('app, 'k) sorcerer" where
  "get_spell_counter A env sid peer so =
     (let (r, so1) = call_spell A env 0 ''fluence_spell_dtos::value::U32Value'' (sp_u32 A) sid ''get_u32'' [JString ''counter''] None peer
            (script_ttl so) so
      in (map_sum id (\<lambda>n. case n of None \<Rightarrow> 0 | Some n \<Rightarrow> n) r, so1))"

definition set_spell_next_counter ::
    "('app, 'k, 'pk, 'err) spell_api \<Rightarrow> 'k spell_env \<Rightarrow> string \<Rightarrow> u32 \<Rightarrow> peer_id \<Rightarrow> ('app, 'k) sorcerer \<Rightarrow>
     (jerror + unit) \<times> ('app, 'k) sorcerer" where
  "set_spell_next_counter A env sid next_counter peer so =
     call_unit A env 1 sid ''set_u32'' [JString ''counter'', JInt (uint next_counter)] None peer (script_ttl so) so"

definition get_spell_script ::
    "('app, 'k, 'pk, 'err) spell_api \<Rightarrow> 'k spell_env \<Rightarrow> string \<Rightarrow> peer_id \<Rightarrow> ('app, 'k) sorcerer \<Rightarrow>
     (jerror + string) \<times> ('app, 'k) sorcerer" where
  "get_spell_script A env sid peer so =
     call_spell A env 2 ''fluence_spell_dtos::value::ScriptValue'' (sp_script A) sid ''get_script_source_from_file'' [] None peer
       (script_ttl so) so"

definition spell_particle_id :: "string \<Rightarrow> u32 \<Rightarrow> string" where
  "spell_particle_id sid counter = ''spell_'' @ sid @ ''_'' @ show_nat (unat counter)"

definition make_spell_particle ::
    "('app, 'k, 'pk, 'err) spell_api \<Rightarrow> 'k spell_env \<Rightarrow> string \<Rightarrow> peer_id \<Rightarrow> ('app, 'k) sorcerer \<Rightarrow>
     (jerror + particle) \<times> ('app, 'k) sorcerer" where
  "make_spell_particle A env sid peer so =
     (case get_scope_keypair peer (so_keys so) of
        None \<Rightarrow> (Inl (JErrorFrom ''ScopeKeypairMissing'' [sid]), so)
      | Some kp \<Rightarrow>
          try_then (get_spell_counter A env sid peer) (\<lambda>counter.
          try_then (set_spell_next_counter A env sid (counter + 1) peer) (\<lambda>_.
          try_then (get_spell_script A env sid peer) (\<lambda>script so1.
            (case particle_sign (sp_crypto A) kp \<lparr>pt_id = spell_particle_id sid counter, pt_init_peer_id = peer,
                    pt_timestamp = se_now_ms env 3, pt_ttl = script_ttl so1, pt_script = script, pt_signature = [], pt_data = []\<rparr> of
               Inl _ \<Rightarrow> Inl (JErrorFrom ''ParticleSigningFailed'' [sid])
             | Inr p \<Rightarrow> Inr p, so1)))) so)"

definition store_trigger ::
    "('app, 'k, 'pk, 'err) spell_api \<Rightarrow> 'k spell_env \<Rightarrow> trigger_event \<Rightarrow> peer_id \<Rightarrow> ('app, 'k) sorcerer \<Rightarrow>
     (jerror + unit) \<times> ('app, 'k) sorcerer" where
  "store_trigger A env event peer so =
     (case sp_trigger_text A (aqua_from_info (tr_info event)) of
        None \<Rightarrow> (Inl (JErrorFrom ''SerdeError'' []), so)
      | Some text \<Rightarrow>
          call_unit A env 4 (tr_spell_id event) ''list_push_string'' [JString ''trigger_mailbox'', JString text] None peer
            (script_ttl so) so)"

definition execute_particle_now ::
    "'k spell_env \<Rightarrow> particle \<Rightarrow> ('app, 'k) sorcerer \<Rightarrow> (jerror + unit) \<times> ('app, 'k) sorcerer" where
  "execute_particle_now env p so =
     (case se_execute_error env of
        Some e \<Rightarrow> (Inl (JErrorFrom e []), so)
      | None \<Rightarrow> (Inr (), so\<lparr>so_executed := so_executed so @ [p]\<rparr>))"

text \<open>The error is logged and dropped.\<close>

definition execute_script ::
    "('app, 'k, 'pk, 'err) spell_api \<Rightarrow> 'k spell_env \<Rightarrow> trigger_event \<Rightarrow> ('app, 'k) sorcerer \<Rightarrow> ('app, 'k) sorcerer" where
  "execute_script A env event so =
     snd (try_then (\<lambda>so. service_call A (\<lambda>st. (get_service_owner (tr_spell_id event) st, st)) so) (\<lambda>peer.
          try_then (make_spell_particle A env (tr_spell_id event) peer) (\<lambda>particle.
          try_then (store_trigger A env event peer) (\<lambda>_.
          execute_particle_now env particle))) so)"

subsection \<open>Start\<close>

definition resubscribe_one ::
    "('app, 'k, 'pk, 'err) spell_api \<Rightarrow> 'k spell_env \<Rightarrow> string \<Rightarrow> ('app, 'k) sorcerer \<Rightarrow> ('app, 'k) sorcerer" where
  "resubscribe_one A env sid so =
     snd (try_then (service_call A (\<lambda>st. (get_service_owner sid st, st))) (\<lambda>owner.
          try_then (\<lambda>so. call_spell A env 0 ''fluence_spell_dtos::value::TriggerConfigValue'' (sp_trigger_config_value A) sid
              ''get_trigger_config'' [] None owner (script_ttl so) so) (\<lambda>user_config.
          try_then (trigger_config_of env user_config) (\<lambda>config so.
            case config of
              None \<Rightarrow> (Inr (), so)
            | Some cfg \<Rightarrow> apfst (map_sum (\<lambda>e. JErrorText (bus_error_text (sp_render A) e)) id) (bus_send env sid (Subscribe cfg) so)))) so)"

definition resubscribe_spells ::
    "('app, 'k, 'pk, 'err) spell_api \<Rightarrow> (string \<Rightarrow> 'k spell_env) \<Rightarrow> ('app, 'k) sorcerer \<Rightarrow> ('app, 'k) sorcerer" where
  "resubscribe_spells A envs so = fold (\<lambda>sid. resubscribe_one A (envs sid) sid) (so_spells so) so"

text \<open>The modules of the spell service, from a directory or from the distribution crate (\<open>source\<close>), and its blueprint.\<close>

fun add_spell_modules ::
    "module_api \<Rightarrow> (module_config \<Rightarrow> module_error + bytes) \<Rightarrow> module_config list \<Rightarrow> module_repository \<Rightarrow>
     (module_error + hash list) \<times> module_repository" where
  "add_spell_modules A source [] r = (Inr [], r)"
| "add_spell_modules A source (cfg # cfgs) r =
     (case source cfg of
        Inl e \<Rightarrow> (Inl e, r)
      | Inr content \<Rightarrow>
          (case add_module A content cfg r of
             (Inl e, r1) \<Rightarrow> (Inl e, r1)
           | (Inr h, r1) \<Rightarrow>
               (case add_spell_modules A source cfgs r1 of
                  (Inl e, r2) \<Rightarrow> (Inl e, r2)
                | (Inr hs, r2) \<Rightarrow> (Inr (h # hs), r2))))"

definition load_spell_blueprint ::
    "module_api \<Rightarrow> (module_config \<Rightarrow> module_error + bytes) \<Rightarrow> module_config list \<Rightarrow> module_repository \<Rightarrow>
     (module_error + string) \<times> module_repository" where
  "load_spell_blueprint A source cfgs r =
     (case add_spell_modules A source cfgs r of
        (Inl e, r1) \<Rightarrow> (Inl e, r1)
      | (Inr hs, r1) \<Rightarrow> repo_add_blueprint A \<lparr>ab_name = ''spell'', ab_dependencies = map HashDep hs\<rparr> r1)"

definition find_spell_module :: "directory \<Rightarrow> module_config \<Rightarrow> module_error + bytes" where
  "find_spell_module spells_dir cfg =
     (let path = (case mc_load_from cfg of Some p \<Rightarrow> p | None \<Rightarrow> mc_name cfg @ ''.wasm'')
      in case map_of spells_dir path of None \<Rightarrow> Inl (ModuleNotFound path) | Some content \<Rightarrow> Inr content)"

definition find_distro_module :: "(string \<Rightarrow> bytes option) \<Rightarrow> module_config \<Rightarrow> module_error + bytes" where
  "find_distro_module spell_modules cfg =
     (case spell_modules (mc_name cfg) of None \<Rightarrow> Inl (ModuleNotFound (mc_name cfg)) | Some content \<Rightarrow> Inr content)"

text \<open>The configuration of the directory, if it has one, takes precedence over the distributed one.\<close>

definition spell_storage_create ::
    "module_api \<Rightarrow> (bytes \<Rightarrow> module_config list option) \<Rightarrow> module_config list \<Rightarrow> (string \<Rightarrow> bytes option) \<Rightarrow> directory \<Rightarrow>
     'app app_services \<Rightarrow> module_repository \<Rightarrow> (module_error + string \<times> string list) \<times> module_repository" where
  "spell_storage_create A load_config distro_config distro_modules spells_dir services r =
     (let (res, r1) =
        (case map_of spells_dir ''Config.toml'' of
           Some content \<Rightarrow>
             (case load_config content of
                None \<Rightarrow> (Inl IncorrectModuleConfig, r)
              | Some cfgs \<Rightarrow> load_spell_blueprint A (find_spell_module spells_dir) cfgs r)
         | None \<Rightarrow> load_spell_blueprint A (find_distro_module distro_modules) distro_config r)
      in case res of
           Inl e \<Rightarrow> (Inl e, r1)
         | Inr bp \<Rightarrow> (Inr (bp, restore_spells services r1), r1))"

subsection \<open>The table of functions\<close>

datatype spell_function =
    SpellInstall | SpellRemove | SpellList | SpellUpdateConfig
  | GetSpellId | GetSpellArg | ErrorHandler | ResponseHandler | GetScopePeerId

record spell_builtin =
  sb_service_id :: string
  sb_functions :: "(string \<times> spell_function) list"
  sb_unhandled :: "spell_function option"

definition make_spell_builtins :: "spell_builtin list" where
  "make_spell_builtins =
     [\<lparr>sb_service_id = ''spell'', sb_functions = [(''install'', SpellInstall), (''remove'', SpellRemove), (''list'', SpellList),
         (''update_trigger_config'', SpellUpdateConfig)], sb_unhandled = None\<rparr>,
      \<lparr>sb_service_id = ''getDataSrv'', sb_functions = [(''spell_id'', GetSpellId)], sb_unhandled = Some GetSpellArg\<rparr>,
      \<lparr>sb_service_id = ''errorHandlingSrv'', sb_functions = [(''error'', ErrorHandler)], sb_unhandled = None\<rparr>,
      \<lparr>sb_service_id = ''callbackSrv'', sb_functions = [(''response'', ResponseHandler)], sb_unhandled = None\<rparr>,
      \<lparr>sb_service_id = ''scope'', sb_functions = [(''get_peer_id'', GetScopePeerId)], sb_unhandled = None\<rparr>]"

fun spell_function_call ::
    "('app, 'k, 'pk, 'err) spell_api \<Rightarrow> 'k spell_env \<Rightarrow> spell_function \<Rightarrow> args \<Rightarrow> particle_params \<Rightarrow>
     ('app, 'k) sorcerer \<Rightarrow> function_outcome \<times> ('app, 'k) sorcerer" where
  "spell_function_call A env SpellInstall a params so = apfst wrap (spell_install A env a params so)"
| "spell_function_call A env SpellRemove a params so = apfst wrap_unit (spell_remove A env a params so)"
| "spell_function_call A env SpellList a params so = (wrap (spell_list so), so)"
| "spell_function_call A env SpellUpdateConfig a params so = apfst wrap_unit (spell_update_config A env a params so)"
| "spell_function_call A env GetSpellId a params so = (wrap (get_spell_id params), so)"
| "spell_function_call A env GetSpellArg a params so = apfst wrap (get_spell_arg A env a params so)"
| "spell_function_call A env ErrorHandler a params so = apfst wrap_unit (store_error A env a params so)"
| "spell_function_call A env ResponseHandler a params so = apfst wrap_unit (store_response A env a params so)"
| "spell_function_call A env GetScopePeerId a params so = apfst wrap (scope_get_peer_id A env params so)"

subsection \<open>What calls leave alone\<close>

definition calls_only :: "('app, 'k) sorcerer \<Rightarrow> ('app, 'k) sorcerer \<Rightarrow> bool" where
  "calls_only so so' \<longleftrightarrow> (\<exists>st. so' = so\<lparr>so_services := st\<rparr> \<and> registry_of st = registry_of (so_services so) \<and>
     as_aliases st = as_aliases (so_services so) \<and> mr_blueprints (as_modules st) = mr_blueprints (as_modules (so_services so)) \<and>
     management_peer_id st = management_peer_id (so_services so) \<and>
     builtins_management_peer_id st = builtins_management_peer_id (so_services so))"

lemma calls_only_refl: "calls_only so so"
  unfolding calls_only_def by (intro exI [of _ "so_services so"]) simp

lemma calls_only_trans: "calls_only so1 so2 \<Longrightarrow> calls_only so2 so3 \<Longrightarrow> calls_only so1 so3"
  unfolding calls_only_def by (elim exE conjE) (simp, blast)

lemma calls_onlyD:
  assumes "calls_only so so'"
  shows "so_bus so' = so_bus so" "so_spells so' = so_spells so" "so_keys so' = so_keys so" "so_executed so' = so_executed so"
    "so_particle_ttl so' = so_particle_ttl so" "so_blueprint so' = so_blueprint so"
    "registry_of (so_services so') = registry_of (so_services so)" "as_aliases (so_services so') = as_aliases (so_services so)"
    "mr_blueprints (as_modules (so_services so')) = mr_blueprints (as_modules (so_services so))"
    "management_peer_id (so_services so') = management_peer_id (so_services so)"
    "builtins_management_peer_id (so_services so') = builtins_management_peer_id (so_services so)"
  using assms by (auto simp: calls_only_def)

lemma call_spell_frame:
  assumes "call_spell A env k tname de sid fname fargs pid peer ttl so = (r, so')"
  shows "calls_only so so'"
proof -
  obtain out st where call: "call_function (sp_services A) (se_uuid env k) (se_now_ms env k) ttl sid fname fargs pid peer (so_services so) = (out, st)"
    by fastforce
  with assms have "so' = so\<lparr>so_services := st\<rparr>" by (auto simp: call_spell_def)
  with call_service_frame [OF call [unfolded call_function_def]] show ?thesis by (auto simp: calls_only_def)
qed

lemma try_calls_only:
  assumes "try_then m f so = (r, so')" and "\<And>r1 so1. m so = (r1, so1) \<Longrightarrow> calls_only so so1"
    and "\<And>x so1. f x so1 = (r, so') \<Longrightarrow> calls_only so1 so'"
  shows "calls_only so so'"
  using assms(1)
proof (rule try_then_inv)
  show "calls_only so so1" if "m so = (r1, so1)" for r1 so1 using assms(2) that .
  show "calls_only so so'" if "m so = (Inr x, so1)" "f x so1 = (r, so')" for x so1
    using assms(2) [OF that(1)] assms(3) [OF that(2)] by (rule calls_only_trans)
qed

lemma fill_spell_frame:
  assumes "fill_spell A env sid peer ttl script init_data cfg so = (r, so')"
  shows "calls_only so so'"
  using assms unfolding fill_spell_def call_unit_def
  by (rule try_calls_only) (auto intro: call_spell_frame elim!: try_calls_only)

lemma scope_of_frame:
  assumes "scope_of A env p so = (r, so')"
  shows "\<exists>km. so' = so\<lparr>so_keys := km\<rparr>"
  using assms by (auto simp: scope_of_def split: sum.splits intro: exI [of _ "so_keys so"])

lemma scope_of_keypair:
  assumes "scope_of A env p so = (Inr s, so')" and "km_wf (sp_keys A) (so_keys so)"
  shows "\<exists>kp. get_scope_keypair s (so_keys so') = Some kp \<and> ka_get_peer_id (sp_keys A) kp = s"
proof -
  from assms(1) obtain km where "get_scope_peer_id (sp_keys A) (se_key_write_ok env) (se_fresh_key env) p (so_keys so) = Inr (s, km)"
    and so': "so' = so\<lparr>so_keys := km\<rparr>"
    by (auto simp: scope_of_def split: sum.splits)
  with get_scope_is_scope(2) [OF assms(2)] show ?thesis by auto
qed

subsection \<open>Properties\<close>

lemma unsubscribe_not_subscribed: "\<not> subscribed sid (eb_state (bus_step True (CommandInput sid Unsubscribe) bus))"
  by (auto simp: bus_step_def unsubscribe_def subscribed_def)

lemma spell_remove_steps:
  assumes "function_args a = [JString sid]" and "scope_of A env (pp_init_peer_id params) so = (Inr peer, so1)"
    and "se_bus_error env sid Unsubscribe = None"
  shows "spell_remove A env a params so =
     service_call A (remove_spell_service (sp_services A) sid peer)
       (unregister_spell sid (so1\<lparr>so_bus := bus_step True (CommandInput sid Unsubscribe) (so_bus so1)\<rparr>))"
  using assms by (simp add: spell_remove_def args_next_def args_deserialize_def lift_arg_def bus_send_def try_then_def)


text \<open>[stranger_disables_spell]: A peer that may not remove a spell can still disable it: its removal is refused and the
  service stays, but by then the spell has been unsubscribed from all its triggers and is no longer listed.\<close>

theorem stranger_disables_spell:
  assumes "function_args a = [JString sid]" and "scope_of A env (pp_init_peer_id params) so = (Inr peer, so1)"
    and "se_bus_error env sid Unsubscribe = None" and "map_of (as_services (so_services so)) sid = Some s"
    and "get_blueprint_from_cache (srv_blueprint_id s) (as_modules (so_services so)) = Inr bp" and "bp_name bp = ''spell''"
    and "peer \<notin> {srv_owner_id s, management_peer_id (so_services so), builtins_management_peer_id (so_services so)}"
  shows "\<exists>e so'. spell_remove A env a params so = (Inl e, so') \<and> so_services so' = so_services so \<and>
     \<not> has_spell sid so' \<and> \<not> subscribed sid (eb_state (so_bus so'))"
proof -
  obtain km where so1: "so1 = so\<lparr>so_keys := km\<rparr>" using scope_of_frame [OF assms(2)] by blast
  have "get_service (as_services (so_services so)) (as_aliases (so_services so)) sid = Inr (s, sid)"
    using assms(4) by (simp add: get_service_def)
  then have "remove_allowed sid peer True (so_services so) = Inl (Forbidden peer ''remove_service'' ''only creator can remove service'')"
    using assms(5-7) by (simp add: remove_allowed_def)
  then have "remove_spell_service (sp_services A) sid peer (so_services so) =
      (Inl (Forbidden peer ''remove_service'' ''only creator can remove service''), so_services so)"
    by (simp add: remove_spell_service_def remove_service_def)
  then show ?thesis
    unfolding spell_remove_steps [OF assms(1-3)] using unsubscribe_not_subscribed
    by (auto simp: service_call_def unregister_spell_def so1 has_spell_def)
qed

lemma create_service_registry:
  assumes "create_service A uuid bp peer st = (Inr i, st')"
  shows "i = uuid \<and> registry_of st' = (registry_of st)(uuid \<mapsto>
       \<lparr>ps_service_id = uuid, ps_blueprint_id = bp, ps_aliases = [], ps_owner_id = peer\<rparr>) \<and>
     as_modules st' = as_modules st \<and> as_aliases st' = as_aliases st \<and>
     management_peer_id st' = management_peer_id st \<and> builtins_management_peer_id st' = builtins_management_peer_id st"
  using assms
  by (auto simp: create_service_def create_service_inner_def registry_of_def update_conv' persisted_from_service_def fun_eq_iff
      split: prod.splits sum.splits)

lemma service_call_InrD:
  assumes "service_call A f so = (Inr x, so')"
  shows "\<exists>st'. f (so_services so) = (Inr x, st') \<and> so' = so\<lparr>so_services := st'\<rparr>"
  using assms by (cases "f (so_services so)"; cases "fst (f (so_services so))") (auto simp: service_call_def)

text \<open>The steps of an installation up to the creation of the service.\<close>

lemma spell_install_steps:
  assumes "function_args a = script # data # cfg # rest" and "de_string script = Some src" and "de_string data = Some init"
    and "sp_trigger_config A cfg = Some user_config" and "from_user_config (se_sys_now env) (se_now env) user_config = Inr config"
    and "scope_of A env (pp_init_peer_id params) so = (Inr peer, so1)"
    and "service_call A (create_service (sp_services A) (se_uuid env 0) (so_blueprint so1) peer) so1 = (Inr sid, so2)"
  shows "spell_install A env a params so =
     try_then (fill_spell A env sid peer (pp_ttl params) src init user_config) (\<lambda>_.
       try_then (case config of Some cfg \<Rightarrow> subscribe_new_spell A env sid params cfg | None \<Rightarrow> (\<lambda>so. (Inr (), so)))
         (\<lambda>_ so. (Inr (JString sid), so))) (register_spell sid so2)"
  using assms
  by (simp add: spell_install_def args_next_def args_deserialize_def lift_arg_def trigger_config_of_def try_then_def)


text \<open>[failed_install_keeps_service]: An installation that fails after the service has been created leaves it behind. If one of
  the calls that fill the spell fails, the service exists and is listed, with no trigger. If the event bus refuses the
  subscription, the spell is taken from the list, but the service is not removed unless the caller's own peer id (not its
  scope, which owns the service) may remove it: the caller is told that removal is forbidden.\<close>

theorem failed_install_keeps_service:
  assumes "function_args a = script # data # cfg # rest" and "de_string script = Some src" and "de_string data = Some init"
    and "sp_trigger_config A cfg = Some user_config" and "from_user_config (se_sys_now env) (se_now env) user_config = Inr config"
    and "scope_of A env (pp_init_peer_id params) so = (Inr peer, so1)"
    and "service_call A (create_service (sp_services A) (se_uuid env 0) (so_blueprint so1) peer) so1 = (Inr sid, so2)"
    and "fill_spell A env sid peer (pp_ttl params) src init user_config (register_spell sid so2) = (r, so3)"
  shows "(\<forall>e. r = Inl e \<longrightarrow> (\<exists>so'. spell_install A env a params so = (Inl e, so') \<and> has_spell sid so' \<and>
       registry_of (so_services so') sid \<noteq> None \<and> so_bus so' = so_bus so)) \<and>
    (\<forall>c err bp. r = Inr () \<and> config = Some c \<and> se_bus_error env sid (Subscribe c) = Some err \<and>
       get_blueprint_from_cache (so_blueprint so) (as_modules (so_services so)) = Inr bp \<and> bp_name bp = ''spell'' \<and>
       pp_init_peer_id params \<notin> {peer, management_peer_id (so_services so), builtins_management_peer_id (so_services so)} \<longrightarrow>
       (\<exists>so'. spell_install A env a params so = (Inl (JErrorFrom ''Forbidden'' [sa_peer_to_string (sp_services A) (pp_init_peer_id params),
           ''remove_service'', ''only creator can remove service'']), so') \<and>
         \<not> has_spell sid so' \<and> registry_of (so_services so') sid \<noteq> None))"
proof -
  note install = spell_install_steps [OF assms(1-7)]
  obtain km where so1: "so1 = so\<lparr>so_keys := km\<rparr>" using scope_of_frame [OF assms(6)] by blast
  obtain st where st: "create_service (sp_services A) (se_uuid env 0) (so_blueprint so) peer (so_services so) = (Inr sid, st)"
      "so2 = so1\<lparr>so_services := st\<rparr>"
    using service_call_InrD [OF assms(7)] by (auto simp: so1)
  note created = create_service_registry [OF st(1)]
  note frame = calls_onlyD [OF fill_spell_frame [OF assms(8)]]
  have kept: "registry_of (so_services so3) sid = Some \<lparr>ps_service_id = sid, ps_blueprint_id = so_blueprint so, ps_aliases = [],
      ps_owner_id = peer\<rparr>" "so_bus so3 = so_bus so" "has_spell sid so3"
    using frame created by (simp_all add: register_spell_def st(2) so1 has_spell_def)
  have "\<exists>so'. spell_install A env a params so = (Inl e, so') \<and> has_spell sid so' \<and>
       registry_of (so_services so') sid \<noteq> None \<and> so_bus so' = so_bus so" if "r = Inl e" for e
    using that assms(8) kept by (intro exI [of _ so3]) (simp add: install)
  moreover have "\<exists>so'. spell_install A env a params so = (Inl (JErrorFrom ''Forbidden'' [sa_peer_to_string (sp_services A) (pp_init_peer_id params),
           ''remove_service'', ''only creator can remove service'']), so') \<and> \<not> has_spell sid so' \<and> registry_of (so_services so') sid \<noteq> None"
    if r: "r = Inr ()" "config = Some c" "se_bus_error env sid (Subscribe c) = Some err"
      and bp: "get_blueprint_from_cache (so_blueprint so) (as_modules (so_services so)) = Inr bp" "bp_name bp = ''spell''"
      and peer: "pp_init_peer_id params \<notin> {peer, management_peer_id (so_services so), builtins_management_peer_id (so_services so)}"
    for c err bp
  proof -
    let ?init = "pp_init_peer_id params"
    obtain s where s: "map_of (as_services (so_services so3)) sid = Some s" "srv_blueprint_id s = so_blueprint so" "srv_owner_id s = peer"
      using kept(1) by (auto simp: registry_of_def persisted_from_service_def)
    have "mr_blueprints (as_modules (so_services so3)) = mr_blueprints (as_modules (so_services so))"
      "management_peer_id (so_services so3) = management_peer_id (so_services so)"
      "builtins_management_peer_id (so_services so3) = builtins_management_peer_id (so_services so)"
      using frame created by (simp_all add: register_spell_def st(2) so1)
    then have "remove_allowed sid ?init True (so_services so3) = Inl (Forbidden ?init ''remove_service'' ''only creator can remove service'')"
      using s bp peer by (auto simp: remove_allowed_def get_service_def get_blueprint_from_cache_def split: option.splits)
    then have "remove_spell_service (sp_services A) sid ?init (so_services so3) =
        (Inl (Forbidden ?init ''remove_service'' ''only creator can remove service''), so_services so3)"
      by (simp add: remove_spell_service_def remove_service_def)
    then show ?thesis
      using r kept(1) assms(8) unfolding install
      by (simp add: subscribe_new_spell_def bus_send_def try_then_def service_call_def unregister_spell_def has_spell_def)
  qed
  ultimately show ?thesis by blast
qed

lemma split_underscore_word:
  "CHR ''_'' \<notin> set w \<Longrightarrow> split_underscore (w @ CHR ''_'' # rest) = w # split_underscore rest"
  by (induction w) auto

lemma parse_spell_particle_id:
  assumes "CHR ''_'' \<notin> set sid"
  shows "parse_spell_id_from (spell_particle_id sid counter) = Inr sid"
proof -
  have "spell_particle_id sid counter = ''spell'' @ CHR ''_'' # (sid @ CHR ''_'' # show_nat (unat counter))"
    by (simp add: spell_particle_id_def)
  then have "split_underscore (spell_particle_id sid counter) = ''spell'' # sid # split_underscore (show_nat (unat counter))"
    using assms by (simp only: split_underscore_word) (simp add: split_underscore_word)
  moreover have "take 6 (spell_particle_id sid counter) = ''spell_''" by (simp add: spell_particle_id_def)
  ultimately show ?thesis by (simp add: parse_spell_id_from_def)
qed


subsection \<open>A sample sorcerer\<close>

definition sample_spells :: "(nat, nat, nat, string) spell_api" where
  "sample_spells = \<lparr>sp_services = sample_services, sp_keys = sample_keypairs, sp_crypto = sample_crypto\<lparr>kp_peer_id := (\<lambda>k. k + 1000), pk_decode := (\<lambda>p. Inr (p - 1000))\<rparr>,
     sp_render = (\<lambda>c fs. c),
     sp_unit = (\<lambda>v. Inr \<lparr>sv_value = (), sv_success = v \<noteq> JArray [JString ''bad''], sv_error = ''rejected''\<rparr>),
     sp_string = (\<lambda>v. Inr \<lparr>sv_value = ''text'', sv_success = True, sv_error = []\<rparr>),
     sp_u32 = (\<lambda>v. Inr \<lparr>sv_value = None, sv_success = True, sv_error = []\<rparr>),
     sp_script = (\<lambda>v. Inr \<lparr>sv_value = ''(null)'', sv_success = True, sv_error = []\<rparr>),
     sp_trigger_config_value = (\<lambda>v. Inl ''none''),
     sp_trigger_config = (\<lambda>v. Some \<lparr>uc_clock = \<lparr>start_sec = 0, end_sec = 0, period_sec = 0\<rparr>,
        uc_connections = \<lparr>cc_connect = True, cc_disconnect = False\<rparr>\<rparr>),
     sp_trigger_config_json = (\<lambda>_. JNull), sp_trigger_text = (\<lambda>_. Some ''event''), sp_debug_args = (\<lambda>_. ''args'')\<rparr>"

definition sample_spell_env :: "nat \<Rightarrow> nat spell_env" where
  "sample_spell_env key = \<lparr>se_uuid = (\<lambda>_. ''s''), se_now_ms = (\<lambda>_. 10), se_sys_now = 0, se_now = 0, se_fresh_key = key,
     se_key_write_ok = True, se_bus_error = (\<lambda>_ _. None), se_execute_error = None\<rparr>"

definition sample_sorcerer :: "(nat, nat) sorcerer" where
  "sample_sorcerer = \<lparr>so_services = sample_node\<lparr>as_modules := sample_repository\<lparr>mr_blueprints :=
       [(''x'', \<lparr>bp_name = ''spell'', bp_id = ''x'', bp_dependencies = []\<rparr>)]\<rparr>\<rparr>,
     so_blueprint = ''x'', so_spells = [], so_bus = event_bus_new, so_keys = key_manager_new sample_keypairs [] 1,
     so_particle_ttl = 1000, so_executed = []\<rparr>"

definition sample_params :: "peer_id \<Rightarrow> particle_params" where
  "sample_params peer = \<lparr>pp_id = ''p'', pp_init_peer_id = peer, pp_timestamp = 0, pp_ttl = 100, pp_script = [], pp_signature = []\<rparr>"

definition call_args :: "jvalue list \<Rightarrow> args" where
  "call_args vs = \<lparr>service_id = ''spell'', function_name = ''f'', function_args = vs, tetraplets = []\<rparr>"

lemma sample_scope:
  "\<exists>km. scope_of sample_spells (sample_spell_env k) p (sample_sorcerer\<lparr>so_services := st, so_spells := ss\<rparr>) =
     (Inr (k + 1000), (sample_sorcerer\<lparr>so_services := st, so_spells := ss, so_keys := km\<rparr>))"
  using set_replicate_conv_if [of k "0 :: u8"]
  by (simp add: scope_of_def get_scope_peer_id_def key_manager_new_def load_persisted_keypairs_def load_persisted_files_def
        is_scope_peer_id_def store_keypair_def persisted_keypair_new_def persist_keypair_def sample_keypairs_def
        sample_sorcerer_def sample_spells_def sample_spell_env_def)

definition spell_node :: "nat app_services" where
  "spell_node = (so_services sample_sorcerer)\<lparr>as_services :=
     [(''s'', \<lparr>srv_service = 0, srv_blueprint_id = ''x'', srv_owner_id = 1005, srv_aliases = []\<rparr>)]\<rparr>"

lemma spell_node_blueprint:
  "get_blueprint_from_cache ''x'' (as_modules spell_node) = Inr \<lparr>bp_name = ''spell'', bp_id = ''x'', bp_dependencies = []\<rparr>"
  by (simp add: spell_node_def sample_sorcerer_def get_blueprint_from_cache_def)

theorem stranger_disables_spell_witness:
  "\<exists>e so'. spell_remove sample_spells (sample_spell_env 6) (call_args [JString ''s'']) (sample_params 8)
      (sample_sorcerer\<lparr>so_services := spell_node, so_spells := [''s'']\<rparr>) = (Inl e, so') \<and> \<not> has_spell ''s'' so'"
proof -
  let ?so = "sample_sorcerer\<lparr>so_services := spell_node, so_spells := [''s'']\<rparr>"
  let ?s = "\<lparr>srv_service = 0, srv_blueprint_id = ''x'', srv_owner_id = 1005, srv_aliases = []\<rparr>"
  obtain km where scope: "scope_of sample_spells (sample_spell_env 6) (pp_init_peer_id (sample_params 8)) ?so =
      (Inr (6 + 1000), sample_sorcerer\<lparr>so_services := spell_node, so_spells := [''s''], so_keys := km\<rparr>)"
    using sample_scope by blast
  have "map_of (as_services (so_services ?so)) ''s'' = Some ?s" by (simp add: spell_node_def)
  note stranger = stranger_disables_spell [where a = "call_args [JString ''s'']" and s = ?s, OF _ scope _ this]
  show ?thesis
    using stranger [of "\<lparr>bp_name = ''spell'', bp_id = ''x'', bp_dependencies = []\<rparr>"] spell_node_blueprint
    by (auto simp: call_args_def sample_spell_env_def spell_node_def sample_sorcerer_def sample_node_def)
qed


lemmas sample_defs = sample_spells_def sample_services_def sample_spell_env_def sample_sorcerer_def sample_node_def sample_params_def
  call_args_def sample_repository_def

lemmas spell_call_defs = call_unit_def call_spell_def call_function_def call_service_def get_service_def create_vault_def try_then_def

lemma sample_created:
  "\<exists>st. service_call sample_spells (create_service (sp_services sample_spells) (se_uuid (sample_spell_env k) 0)
       (so_blueprint (sample_sorcerer\<lparr>so_keys := km\<rparr>)) 1005) (sample_sorcerer\<lparr>so_keys := km\<rparr>) =
     (Inr ''s'', sample_sorcerer\<lparr>so_keys := km, so_services := st\<rparr>) \<and>
     st = sample_node\<lparr>as_services_dir := as_services_dir st, as_modules := as_modules (so_services sample_sorcerer),
       as_services := [(''s'', \<lparr>srv_service = 1, srv_blueprint_id = ''x'', srv_owner_id = 1005, srv_aliases = []\<rparr>)]\<rparr>"
  by (simp add: sample_defs service_call_def create_service_def create_service_inner_def create_app_service_def resolve_blueprint_def
      get_blueprint_from_cache_def persist_service_def Let_def)

lemma sample_fill:
  assumes "st = sample_node\<lparr>as_services_dir := d, as_modules := as_modules (so_services sample_sorcerer),
       as_services := [(''s'', \<lparr>srv_service = 1, srv_blueprint_id = ''x'', srv_owner_id = 1005, srv_aliases = []\<rparr>)]\<rparr>"
  shows "\<exists>so'. fill_spell sample_spells (sample_spell_env k) ''s'' 1005 100 ''src'' ''bad'' cfg
     (register_spell ''s'' (sample_sorcerer\<lparr>so_keys := km, so_services := st\<rparr>)) =
       (Inl (JErrorText ''Function s.set_json_fields executed with error: rejected''), so')"
    and "\<exists>so'. fill_spell sample_spells (sample_spell_env k) ''s'' 1005 100 ''src'' ''data'' cfg
     (register_spell ''s'' (sample_sorcerer\<lparr>so_keys := km, so_services := st\<rparr>)) = (Inr (), so')"
  unfolding assms by (simp_all add: sample_defs fill_spell_def spell_call_defs register_spell_def Let_def)

lemma sample_config:
  "from_user_config (se_sys_now (sample_spell_env k)) (se_now (sample_spell_env k)) (the (sp_trigger_config sample_spells JNull)) =
     Inr (Some [PeerTrigger [PeConnected]])"
  by (simp add: sample_defs from_user_config_def from_connection_config_def)

lemma sample_scope_start:
  "\<exists>km. scope_of sample_spells (sample_spell_env 5) (pp_init_peer_id (sample_params 8)) sample_sorcerer =
     (Inr 1005, sample_sorcerer\<lparr>so_keys := km\<rparr>)"
  using sample_scope [where k = 5 and p = "pp_init_peer_id (sample_params 8)" and st = "so_services sample_sorcerer" and ss = "so_spells sample_sorcerer"] by simp

theorem failed_install_keeps_service_witness:
  "\<exists>e so'. spell_install sample_spells (sample_spell_env 5) (call_args [JString ''src'', JString ''bad'', JNull]) (sample_params 8)
      sample_sorcerer = (Inl e, so') \<and> has_spell ''s'' so' \<and> registry_of (so_services so') ''s'' \<noteq> None"
proof -
  obtain km where scope: "scope_of sample_spells (sample_spell_env 5) (pp_init_peer_id (sample_params 8)) sample_sorcerer =
      (Inr 1005, sample_sorcerer\<lparr>so_keys := km\<rparr>)" using sample_scope_start by blast
  obtain st where create: "service_call sample_spells (create_service (sp_services sample_spells) (se_uuid (sample_spell_env 5) 0)
       (so_blueprint (sample_sorcerer\<lparr>so_keys := km\<rparr>)) 1005) (sample_sorcerer\<lparr>so_keys := km\<rparr>) =
       (Inr ''s'', sample_sorcerer\<lparr>so_keys := km, so_services := st\<rparr>)"
      and st: "st = sample_node\<lparr>as_services_dir := as_services_dir st, as_modules := as_modules (so_services sample_sorcerer),
       as_services := [(''s'', \<lparr>srv_service = 1, srv_blueprint_id = ''x'', srv_owner_id = 1005, srv_aliases = []\<rparr>)]\<rparr>"
    using sample_created by blast
  obtain so3 where fill: "fill_spell sample_spells (sample_spell_env 5) ''s'' 1005 (pp_ttl (sample_params 8)) ''src'' ''bad''
      (the (sp_trigger_config sample_spells JNull)) (register_spell ''s'' (sample_sorcerer\<lparr>so_keys := km, so_services := st\<rparr>)) =
      (Inl (JErrorText ''Function s.set_json_fields executed with error: rejected''), so3)"
    using sample_fill(1) [OF st, of 5 "the (sp_trigger_config sample_spells JNull)" km] by (auto simp: sample_params_def)
  show ?thesis
    using failed_install_keeps_service [where a = "call_args [JString ''src'', JString ''bad'', JNull]" and script = "JString ''src''"
        and data = "JString ''bad''" and cfg = JNull and rest = "[]", OF _ _ _ _ sample_config scope create fill]
    by (auto simp: call_args_def sample_spells_def)
qed



end
