(* ===== verification/Script_Storage.thy ===== *)
theory Script_Storage
  imports Particle
begin

section \<open>The storage of scheduled scripts\<close>

text \<open>
  \<^verbatim>\<open>script-storage/src/{script_storage,config}.rs\<close>. The task owns the tables of scripts and of sent particles and
  handles one input at a time: a command, the report of a failed particle, or a tick of its
  timer. Durations and instants are in nanoseconds. Particles handed to the connection pool and
  answers to commands are appended to logs. Counters have the source's width.
\<close>

record script =
  sc_src :: string
  sc_failures :: u8
  sc_interval :: "duration option"
  sc_delay :: duration
  sc_executed_at :: "instant option"
  sc_next_execution :: instant
  sc_creator :: peer_id
  sc_executions :: u32
  sc_times :: "u32 option"

definition script_new ::
    "instant \<Rightarrow> string \<Rightarrow> duration option \<Rightarrow> duration \<Rightarrow> peer_id \<Rightarrow> u32 option \<Rightarrow> script" where
  "script_new now src interval delay creator times_limit =
     \<lparr>sc_src = src, sc_failures = 0, sc_interval = interval, sc_delay = delay, sc_executed_at = None,
      sc_next_execution = now + delay, sc_creator = creator, sc_executions = 0, sc_times = times_limit\<rparr>"

definition script_ready :: "instant \<Rightarrow> script \<Rightarrow> bool" where
  "script_ready now s \<longleftrightarrow> sc_next_execution s \<le> now"

record sent_particle =
  sp_script_id :: string
  sp_deadline :: instant

record script_storage_config =
  timer_resolution :: duration
  max_failures :: u8
  particle_ttl :: duration
  scfg_peer_id :: peer_id

datatype script_storage_error = OutletError | InletError | PermissionDenied

datatype script_reply =
    ReplyRemoved outlet "script_storage_error + bool"
  | ReplyList outlet "(string \<times> script) list"

datatype script_command =
    AddScript string string "duration option" duration peer_id
  | RemoveScript string outlet peer_id bool
  | ListScripts outlet

record script_storage =
  scripts :: "(string \<times> script) list"
  sent_particles :: "(string \<times> sent_particle) list"
  ss_sent :: "particle list"
  ss_replies :: "script_reply list"

definition script_storage_new :: script_storage where
  "script_storage_new = \<lparr>scripts = [], sent_particles = [], ss_sent = [], ss_replies = []\<rparr>"

subsection \<open>Commands\<close>

fun ss_execute_command :: "instant \<Rightarrow> script_command \<Rightarrow> script_storage \<Rightarrow> script_storage" where
  "ss_execute_command now (AddScript uuid src interval delay creator) st =
     (let times_limit = (if interval = None then Some 1 else None)
      in st\<lparr>scripts := AList.update uuid (script_new now src interval delay creator times_limit) (scripts st)\<rparr>)"
| "ss_execute_command now (RemoveScript uuid out actor by_admin) st =
     (case map_of (scripts st) uuid of
        None \<Rightarrow> st\<lparr>ss_replies := ss_replies st @ [ReplyRemoved out (Inr False)]\<rparr>
      | Some s \<Rightarrow>
          if by_admin \<or> sc_creator s = actor then
            st\<lparr>scripts := AList.delete uuid (scripts st),
               ss_replies := ss_replies st @ [ReplyRemoved out (Inr True)]\<rparr>
          else st\<lparr>ss_replies := ss_replies st @ [ReplyRemoved out (Inl PermissionDenied)]\<rparr>)"
| "ss_execute_command now (ListScripts out) st =
     st\<lparr>ss_replies := ss_replies st @ [ReplyList out (scripts st)]\<rparr>"

subsection \<open>The timer\<close>

definition mark_executed :: "instant \<Rightarrow> script \<Rightarrow> script" where
  "mark_executed now s = s\<lparr>sc_executions := sc_executions s + 1, sc_executed_at := Some now,
     sc_next_execution := now + (case sc_interval s of None \<Rightarrow> 0 | Some i \<Rightarrow> i)\<rparr>"

definition auto_particle_id :: "string \<Rightarrow> script \<Rightarrow> string" where
  "auto_particle_id sid s = ''auto_'' @ sid @ ''_'' @ show_nat (unat (sc_executions s))"

text \<open>\<^verbatim>\<open>as_millis() as u32\<close> truncates.\<close>

definition ttl_millis :: "duration \<Rightarrow> u32" where
  "ttl_millis d = word_of_nat (d div 10 ^ 6)"

definition send_script ::
    "script_storage_config \<Rightarrow> instant \<Rightarrow> u64 \<Rightarrow> string \<times> script \<Rightarrow> script_storage \<Rightarrow> script_storage" where
  "send_script cfg now now_ms ids st =
     (let (sid, s) = ids; pid = auto_particle_id sid s
      in st\<lparr>sent_particles := AList.update pid \<lparr>sp_script_id = sid, sp_deadline = now + particle_ttl cfg\<rparr>
                                (sent_particles st),
            ss_sent := ss_sent st @
              [\<lparr>pt_id = pid, pt_init_peer_id = scfg_peer_id cfg, pt_timestamp = now_ms,
                pt_ttl = ttl_millis (particle_ttl cfg), pt_script = sc_src s, pt_signature = [], pt_data = []\<rparr>]\<rparr>)"

definition executed_enough :: "script \<Rightarrow> bool" where
  "executed_enough s = (case sc_times s of Some limit \<Rightarrow> limit \<le> sc_executions s | None \<Rightarrow> False)"

definition execute_scripts ::
    "script_storage_config \<Rightarrow> instant \<Rightarrow> u64 \<Rightarrow> script_storage \<Rightarrow> script_storage" where
  "execute_scripts cfg now now_ms st =
     (let updated = map (\<lambda>(sid, s). (sid, if script_ready now s then mark_executed now s else s)) (scripts st);
          ready = map (\<lambda>(sid, s). (sid, mark_executed now s)) (filter (\<lambda>(_, s). script_ready now s) (scripts st));
          st1 = fold (send_script cfg now now_ms) ready (st\<lparr>scripts := updated\<rparr>)
      in st1\<lparr>scripts := filter (\<lambda>(_, s). \<not> executed_enough s) (scripts st1)\<rparr>)"

definition ss_cleanup :: "instant \<Rightarrow> script_storage \<Rightarrow> script_storage" where
  "ss_cleanup now st = st\<lparr>sent_particles := filter (\<lambda>(_, p). sp_deadline p < now) (sent_particles st)\<rparr>"

subsection \<open>Failures\<close>

definition remove_failed_scripts :: "u8 \<Rightarrow> string \<Rightarrow> script_storage \<Rightarrow> script_storage" where
  "remove_failed_scripts limit pid st =
     (let st1 = st\<lparr>sent_particles := AList.delete pid (sent_particles st)\<rparr> in
      case map_of (sent_particles st) pid of
        None \<Rightarrow> st1
      | Some p \<Rightarrow>
          (case map_of (scripts st1) (sp_script_id p) of
             None \<Rightarrow> st1
           | Some s \<Rightarrow>
               if sc_failures s + 1 < limit
               then st1\<lparr>scripts := AList.update (sp_script_id p) (s\<lparr>sc_failures := sc_failures s + 1\<rparr>) (scripts st1)\<rparr>
               else st1\<lparr>scripts := AList.delete (sp_script_id p) (scripts st1)\<rparr>))"

subsection \<open>The task's loop\<close>

datatype script_input =
    ScriptCommandInput instant script_command
  | FailedInput string
  | TickInput instant u64 instant \<comment> \<open>the instants read by \<open>execute_scripts\<close> and by \<open>ss_cleanup\<close>\<close>

fun script_step :: "script_storage_config \<Rightarrow> script_input \<Rightarrow> script_storage \<Rightarrow> script_storage" where
  "script_step cfg (ScriptCommandInput now c) st = ss_execute_command now c st"
| "script_step cfg (FailedInput pid) st = remove_failed_scripts (max_failures cfg) pid st"
| "script_step cfg (TickInput now now_ms later) st = ss_cleanup later (execute_scripts cfg now now_ms st)"

definition script_run :: "script_storage_config \<Rightarrow> script_input list \<Rightarrow> script_storage \<Rightarrow> script_storage" where
  "script_run cfg is st = fold (script_step cfg) is st"

subsection \<open>Properties\<close>

lemma send_script_simps [simp]: "scripts (send_script cfg now ms p st) = scripts st"
  by (simp add: send_script_def Let_def split_beta)

lemma fold_send_scripts [simp]: "scripts (fold (send_script cfg now ms) ps st) = scripts st"
  by (induction ps arbitrary: st) auto

lemma fold_send_deadlines:
  "\<forall>f\<in>set (sent_particles st). sp_deadline (snd f) = now + particle_ttl cfg \<Longrightarrow>
   f \<in> set (sent_particles (fold (send_script cfg now ms) ps st)) \<Longrightarrow> sp_deadline (snd f) = now + particle_ttl cfg"
proof (induction ps arbitrary: st)
  case (Cons p ps)
  have "\<forall>f\<in>set (sent_particles (send_script cfg now ms p st)). sp_deadline (snd f) = now + particle_ttl cfg"
    using Cons.prems(1) set_AList_update_subset by (fastforce simp: send_script_def Let_def split_beta)
  with Cons.IH Cons.prems(2) show ?case by simp
qed simp

definition tick_in_time :: "script_storage_config \<Rightarrow> script_input \<Rightarrow> bool" where
  "tick_in_time cfg i = (case i of TickInput now _ later \<Rightarrow> later \<le> now + particle_ttl cfg | _ \<Rightarrow> True)"

definition no_failures :: "script_storage \<Rightarrow> bool" where
  "no_failures st \<longleftrightarrow> sent_particles st = [] \<and> (\<forall>(_, s)\<in>set (scripts st). sc_failures s = 0)"

lemma execute_scripts_scripts:
  "scripts (execute_scripts cfg now ms st) = filter (\<lambda>(_, s). \<not> executed_enough s)
     (map (\<lambda>(sid, s). (sid, if script_ready now s then mark_executed now s else s)) (scripts st))"
  by (simp add: execute_scripts_def Let_def)

lemma script_step_no_failures:
  assumes "no_failures st" and "tick_in_time cfg i"
  shows "no_failures (script_step cfg i st)"
proof (cases i)
  case (ScriptCommandInput now c)
  have "set (AList.delete k xs) \<subseteq> set xs" for k and xs :: "(string \<times> script) list"
    by (auto simp: AList.delete_eq)
  then show ?thesis
    using assms ScriptCommandInput set_AList_update_subset
    by (cases c) (fastforce simp: no_failures_def script_new_def split: option.splits if_splits)+
next
  case (FailedInput pid)
  with assms show ?thesis by (simp add: no_failures_def remove_failed_scripts_def)
next
  case (TickInput now ms later)
  let ?st = "execute_scripts cfg now ms st"
  have late: "later \<le> now + particle_ttl cfg" using assms(2) TickInput by (simp add: tick_in_time_def)
  have "sp_deadline (snd f) = now + particle_ttl cfg" if "f \<in> set (sent_particles ?st)" for f
    using that assms(1) by (auto simp: execute_scripts_def Let_def no_failures_def intro: fold_send_deadlines [rotated])
  with late have "sent_particles (ss_cleanup later ?st) = []"
    by (fastforce simp: ss_cleanup_def filter_empty_conv)
  moreover have "\<forall>(_, s)\<in>set (scripts ?st). sc_failures s = 0"
    using assms(1) by (auto simp: execute_scripts_scripts no_failures_def mark_executed_def)
  ultimately show ?thesis using TickInput by (simp add: no_failures_def ss_cleanup_def)
qed

text \<open>[script_failures_never_counted]: The failure limit never takes effect: as long as every tick finishes sending before
  the time to live of its particles is over, the table of sent particles is emptied at every tick, so a
  reported failure finds no script, every script keeps a failure count of zero, and no script is removed for failing,
  whatever the limit and however many failures are reported.\<close>

theorem script_failures_never_counted:
  assumes "\<forall>i\<in>set is. tick_in_time cfg i"
  shows "let st = script_run cfg is script_storage_new in
         (\<forall>(_, s)\<in>set (scripts st). sc_failures s = 0) \<and>
         (\<forall>pid. script_step cfg (FailedInput pid) st = st)"
proof -
  have "no_failures st \<Longrightarrow> \<forall>i\<in>set is. tick_in_time cfg i \<Longrightarrow> no_failures (script_run cfg is st)" for st
    unfolding script_run_def by (induction "is" arbitrary: st) (auto simp: script_step_no_failures)
  from this [of script_storage_new] assms have "no_failures (script_run cfg is script_storage_new)"
    by (simp add: no_failures_def script_storage_new_def)
  then show ?thesis by (simp add: no_failures_def remove_failed_scripts_def Let_def)
qed

definition sample_script_config :: script_storage_config where
  "sample_script_config = \<lparr>timer_resolution = 10 ^ 9, max_failures = 1, particle_ttl = 5 * 10 ^ 9, scfg_peer_id = 1\<rparr>"

definition failing_history :: "script_input list" where
  "failing_history = [ScriptCommandInput 0 (AddScript ''s'' ''(null)'' (Some 7) 0 9), TickInput 1 100 2]"

theorem script_failures_never_counted_witness:
  "script_step sample_script_config (FailedInput ''auto_s_1'')
     (script_run sample_script_config failing_history script_storage_new) =
   script_run sample_script_config failing_history script_storage_new"
  using script_failures_never_counted [of failing_history sample_script_config]
  by (simp add: failing_history_def tick_in_time_def sample_script_config_def Let_def)

lemma fold_send_sent:
  "map pt_script (ss_sent (fold (send_script cfg now ms) ps st)) = map pt_script (ss_sent st) @ map (sc_src \<circ> snd) ps"
  by (induction ps arbitrary: st) (simp_all add: send_script_def Let_def split_beta)

lemma map_of_map_filter:
  "distinct (map fst xs) \<Longrightarrow>
   map_of (filter (\<lambda>(_, v). P v) (map (\<lambda>(k, v). (k, f v)) xs)) k =
     (case map_of xs k of None \<Rightarrow> None | Some v \<Rightarrow> if P (f v) then Some (f v) else None)"
proof (induction xs)
  case (Cons kv xs)
  obtain k' v' where kv: "kv = (k', v')" by (cases kv)
  have "map_of xs k' = None" using Cons.prems kv by (simp add: map_of_eq_None_iff)
  with Cons kv show ?case by auto
qed simp

text \<open>[ready_scripts_run_once]: A tick sends exactly one particle for every script whose time has come, carrying its source,
  from this node, and none for the others. A script added without an interval is gone after
  the first tick that runs it; any other script stays, the executed ones rescheduled one interval later.\<close>

theorem ready_scripts_run_once:
  assumes "distinct (map fst (scripts st))" and "map_of (scripts st) sid = Some s"
  shows "let st' = execute_scripts cfg now ms st in
    map pt_script (ss_sent st') = map pt_script (ss_sent st) @
      map (sc_src \<circ> snd) (filter (\<lambda>(_, s). script_ready now s) (scripts st)) \<and>
    (sc_times s = Some 1 \<and> script_ready now s \<and> sc_executions s = 0 \<longrightarrow> map_of (scripts st') sid = None) \<and>
    (sc_times s = None \<longrightarrow> map_of (scripts st') sid = Some (if script_ready now s then mark_executed now s else s)) \<and>
    (sc_times s = Some 1 \<and> \<not> script_ready now s \<and> sc_executions s = 0 \<longrightarrow> map_of (scripts st') sid = Some s)"
proof -
  have "map pt_script (ss_sent (execute_scripts cfg now ms st)) = map pt_script (ss_sent st) @
      map (sc_src \<circ> snd) (filter (\<lambda>(_, s). script_ready now s) (scripts st))"
    by (simp add: execute_scripts_def Let_def fold_send_sent mark_executed_def)
  moreover have "map_of (scripts (execute_scripts cfg now ms st)) sid =
      (let s' = (if script_ready now s then mark_executed now s else s) in if \<not> executed_enough s' then Some s' else None)"
    unfolding execute_scripts_scripts
    using map_of_map_filter [OF assms(1), of "\<lambda>s. \<not> executed_enough s"
        "\<lambda>s. if script_ready now s then mark_executed now s else s" sid] assms(2)
    by (simp add: Let_def)
  ultimately show ?thesis
    by (auto simp: Let_def executed_enough_def mark_executed_def split: option.splits)
qed

definition one_script_storage :: script_storage where
  "one_script_storage = ss_execute_command 0 (AddScript ''s'' ''(null)'' None 3 9) script_storage_new"

theorem ready_scripts_run_once_witness:
  "map_of (scripts (execute_scripts sample_script_config 4 100 one_script_storage)) ''s'' = None"
  using ready_scripts_run_once [of one_script_storage "''s''" "script_new 0 ''(null)'' None 3 9 (Some 1)"
      sample_script_config 4 100]
  by (simp add: one_script_storage_def script_storage_new_def script_new_def script_ready_def Let_def)

text \<open>[script_removal_permission]: A script is removed only by its creator or by an administrator: anyone else is refused and
  nothing changes; removing an unknown script answers that nothing was removed. A removed script sends no further particle,
  as it is no longer stored.\<close>

theorem script_removal_permission:
  "let st' = ss_execute_command now (RemoveScript uuid out actor by_admin) st in
   (case map_of (scripts st) uuid of
      None \<Rightarrow> scripts st' = scripts st \<and> ss_replies st' = ss_replies st @ [ReplyRemoved out (Inr False)]
    | Some s \<Rightarrow>
        if by_admin \<or> actor = sc_creator s
        then map_of (scripts st') uuid = None \<and> ss_replies st' = ss_replies st @ [ReplyRemoved out (Inr True)]
        else scripts st' = scripts st \<and> ss_replies st' = ss_replies st @ [ReplyRemoved out (Inl PermissionDenied)]) \<and>
   (\<forall>u. u \<noteq> uuid \<longrightarrow> map_of (scripts st') u = map_of (scripts st) u)"
  by (auto split: option.splits)

theorem script_removal_permission_witness:
  "scripts (ss_execute_command 5 (RemoveScript ''s'' 1 8 False) one_script_storage) = scripts one_script_storage"
  using script_removal_permission [of 5 "''s''" 1 8 False one_script_storage]
  by (simp add: one_script_storage_def script_storage_new_def script_new_def Let_def)

end
