(* ===== verification/Builtins.thy ===== *)
theory Builtins
  imports Builtin_Ops App_Services Script_Storage Kad_Behaviour
begin

section \<open>The built-in services\<close>

text \<open>
  \<^verbatim>\<open>particle-builtins/src/{builtins,particle_function,identify}.rs\<close>, the listings of \<^verbatim>\<open>particle-modules/src/modules.rs\<close> and the sending
  side of \<^verbatim>\<open>script-storage/src/script_storage.rs\<close>.

  \<^item> The state has the services (whose module repository is the one the built-ins use: the code shares it), the custom services, the
    files below the vaults, and the commands sent to the script storage. A custom function works on the services
    and on what the closures capture, a type parameter.
  \<^item> What the connection pool, Kademlia and the script storage answer to an awaited request, the clock and random
    values are an environment (\<open>builtin_env\<close>); how these components arrive at their answers is modelled in their own theories.
  \<^item> Serialization of configurations and blueprints is a parameter (\<open>builtin_api\<close>), as is the memory statistics of Marine.
\<close>

record node_info =
  external_addresses :: "multiaddr list"
  node_version :: string
  air_version :: string

record module_settings =
  ms_name :: string
  ms_mem_pages_count :: "nat option"
  ms_max_heap_size :: "nat option"
  ms_logger_enabled :: "bool option"
  ms_preopened_files :: "string list option"
  ms_envs :: "(string \<times> string) list option"
  ms_mapped_dirs :: "(string \<times> string) list option"
  ms_mounted_binaries :: "(string \<times> string) list option"
  ms_logging_mask :: "int option"

record ('app, 'kp, 'pk, 'err) builtin_api =
  bi_codec :: codec
  bi_srv :: "'app service_api"
  bi_crypto :: "('kp, 'pk, 'err) crypto"
  bi_public :: "'kp \<Rightarrow> 'pk"
  bi_sign_error :: "'err \<Rightarrow> jerror"
  bi_os :: os
  bi_peer_from_str :: "string \<Rightarrow> peer_id option"
  bi_show_multiaddr :: "multiaddr \<Rightarrow> string"
  bi_parse_multiaddr :: "string \<Rightarrow> multiaddr option"
  bi_de_config :: "jvalue \<Rightarrow> module_config option"
  bi_config_json :: "module_config \<Rightarrow> string + jvalue"
  bi_inner_config_json :: "module_config \<Rightarrow> jvalue"
  bi_settings_json :: "module_settings \<Rightarrow> string + jvalue"
  bi_default_config :: "string \<Rightarrow> module_config"
  bi_de_blueprint :: "jvalue \<Rightarrow> add_blueprint option"
  bi_add_blueprint_json :: "add_blueprint \<Rightarrow> string + jvalue"
  bi_de_dependency :: "jvalue \<Rightarrow> dependency option"
  bi_blueprint_json :: "blueprint \<Rightarrow> string + jvalue"
  bi_debug_blueprint :: "blueprint \<Rightarrow> string"
  bi_bytesize :: "string \<Rightarrow> string + nat"
  bi_pretty :: "duration \<Rightarrow> string"
  bi_report :: "module_error \<Rightarrow> string"
  bi_memory_stats :: "'app \<Rightarrow> (string \<times> nat \<times> nat option) list"

record builtin_env =
  be_now_ms :: nat
  be_now_sec :: u64
  be_uuid :: string
  be_is_connected :: "peer_id \<Rightarrow> bool"
  be_connect :: "contact \<Rightarrow> bool"
  be_get_contact :: "peer_id \<Rightarrow> contact option"
  be_neighborhood :: "bytes \<Rightarrow> nat \<Rightarrow> kademlia_error + peer_id list"
  be_storage_alive :: bool
  be_removed :: "script_storage_error + bool"
  be_scripts :: "script_storage_error + (string \<times> script) list"
  be_random :: "nat \<Rightarrow> nat"
  be_stats :: "(string \<Rightarrow> jvalue option) option"

type_synonym ('app, 'c) host_function =
  "args \<Rightarrow> particle_params \<Rightarrow> 'app app_services \<times> 'c \<Rightarrow> function_outcome \<times> 'app app_services \<times> 'c"

record ('app, 'c) custom_service =
  cs_functions :: "(string \<times> ('app, 'c) host_function) list"
  cs_unhandled :: "('app, 'c) host_function option"

record ('app, 'kp, 'c) builtins =
  bi_script_commands :: "script_command list"
  bi_management_peer_id :: peer_id
  bi_local_peer_id :: peer_id
  bi_root_keypair :: 'kp
  bi_services :: "'app app_services"
  bi_node_info :: node_info
  custom_services :: "(string \<times> ('app, 'c) custom_service) list"
  bi_captured :: 'c
  bi_vault_dir :: path
  bi_files :: file_system

definition builtins_new ::
    "('app, 'kp, 'pk, 'err) builtin_api \<Rightarrow> directory \<Rightarrow> directory \<Rightarrow> directory \<Rightarrow> (string \<times> directory) list \<Rightarrow> nat \<Rightarrow> nat option \<Rightarrow>
     string \<Rightarrow> peer_id \<Rightarrow> peer_id \<Rightarrow> peer_id \<Rightarrow> 'kp \<Rightarrow> node_info \<Rightarrow> 'c \<Rightarrow> file_system \<Rightarrow> ('app, 'kp, 'c) builtins" where
  "builtins_new A modules_dir blueprint_dir services_dir vaults max_heap default_heap vault_path local management
       builtins_management kp info captured fs =
     (let modules = module_repository_new (sa_modules (bi_srv A)) modules_dir blueprint_dir vaults max_heap default_heap in
      \<lparr>bi_script_commands = [], bi_management_peer_id = management, bi_local_peer_id = local, bi_root_keypair = kp,
       bi_services = app_services_new (bi_srv A) services_dir vault_path local management builtins_management modules,
       bi_node_info = info, custom_services = [], bi_captured = captured, bi_vault_dir = path_of vault_path, bi_files = fs\<rparr>)"

subsection \<open>Peers and neighborhoods\<close>

definition peer_parse_error :: jerror where "peer_parse_error = JErrorFrom ''ParseError'' []"

definition peer_from_str :: "('app, 'kp, 'pk, 'err) builtin_api \<Rightarrow> string \<Rightarrow> jerror + peer_id" where
  "peer_from_str A s = (case bi_peer_from_str A s of Some p \<Rightarrow> Inr p | None \<Rightarrow> Inl peer_parse_error)"

fun kademlia_jerror :: "kademlia_error \<Rightarrow> jerror" where
  "kademlia_jerror NoPeersFound = JErrorFrom ''NoPeersFound'' []"
| "kademlia_jerror PeerTimedOut = JErrorFrom ''PeerTimedOut'' []"
| "kademlia_jerror QueryTimedOut = JErrorFrom ''QueryTimedOut'' []"
| "kademlia_jerror Cancelled = JErrorFrom ''Cancelled'' []"
| "kademlia_jerror NoKnownPeers = JErrorFrom ''NoKnownPeers'' []"
| "kademlia_jerror PeerBanned = JErrorFrom ''PeerBanned'' []"

definition args_from_base58 :: "codec \<Rightarrow> string \<Rightarrow> jvalue list \<Rightarrow> (args_error + bytes) \<times> jvalue list" where
  "args_from_base58 D name it =
     (case args_next de_string name it of
        (Inl e, it1) \<Rightarrow> (Inl e, it1)
      | (Inr s, it1) \<Rightarrow>
          (case cd_b58_decode D s of Some b \<Rightarrow> (Inr b, it1) | None \<Rightarrow> (Inl (InvalidFormat ''key''), it1)))"

definition neighbor_peers ::
    "('app, 'kp, 'pk, 'err) builtin_api \<Rightarrow> builtin_env \<Rightarrow> args \<Rightarrow> jerror + peer_id list" where
  "neighbor_peers A env a =
     (let D = bi_codec A in
      arg_then (args_from_base58 D ''key'' (function_args a)) (\<lambda>key it.
      arg_then (args_next_opt de_bool ''already_hashed'' it) (\<lambda>already_hashed it.
      arg_then (args_next_opt de_u64 ''count'' it) (\<lambda>count _.
        let n = (case count of Some c \<Rightarrow> c | None \<Rightarrow> cd_k_value D) in
        and_then (if already_hashed = Some True
                  then (if cd_multihash_ok D key then Inr key else Inl (JErrorFrom ''multihash::Error'' []))
                  else Inr (cd_multihash D (cd_sha256 D key)))
          (\<lambda>hashed. map_sum kademlia_jerror id (be_neighborhood env hashed n))))))"

definition neighborhood :: "('app, 'kp, 'pk, 'err) builtin_api \<Rightarrow> builtin_env \<Rightarrow> args \<Rightarrow> jerror + jvalue" where
  "neighborhood A env a =
     map_sum id (\<lambda>ps. JArray (map (\<lambda>p. JString (to_base58 (bi_crypto A) p)) ps)) (neighbor_peers A env a)"

definition json_addresses :: "('app, 'kp, 'pk, 'err) builtin_api \<Rightarrow> multiaddr list \<Rightarrow> jvalue" where
  "json_addresses A addrs = JArray (map (\<lambda>m. JString (bi_show_multiaddr A m)) addrs)"

text \<open>The answers of the pool are collected as they arrive; the model has them in the order of the peers.\<close>

definition neighborhood_with_addresses ::
    "('app, 'kp, 'pk, 'err) builtin_api \<Rightarrow> builtin_env \<Rightarrow> args \<Rightarrow> jerror + jvalue" where
  "neighborhood_with_addresses A env a =
     map_sum id (\<lambda>ps. JArray (map (\<lambda>p. JObject
         [(''peer_id'', JString (to_base58 (bi_crypto A) p)),
          (''addresses'', json_addresses A (case be_get_contact env p of Some c \<Rightarrow> ct_addresses c | None \<Rightarrow> []))]) ps))
       (neighbor_peers A env a)"

definition bi_is_connected :: "('app, 'kp, 'pk, 'err) builtin_api \<Rightarrow> builtin_env \<Rightarrow> args \<Rightarrow> jerror + jvalue" where
  "bi_is_connected A env a =
     arg_then (args_next de_string ''peer_id'' (function_args a)) (\<lambda>s _.
     and_then (peer_from_str A s) (\<lambda>p. Inr (JBool (be_is_connected env p))))"

fun de_multiaddr :: "('app, 'kp, 'pk, 'err) builtin_api \<Rightarrow> jvalue \<Rightarrow> multiaddr option" where
  "de_multiaddr A (JString s) = bi_parse_multiaddr A s"
| "de_multiaddr A _ = None"

text \<open>The peer id is parsed before the addresses are read.\<close>

definition bi_connect :: "('app, 'kp, 'pk, 'err) builtin_api \<Rightarrow> builtin_env \<Rightarrow> args \<Rightarrow> jerror + jvalue" where
  "bi_connect A env a =
     arg_then (args_next de_string ''peer_id'' (function_args a)) (\<lambda>s it.
     and_then (peer_from_str A s) (\<lambda>p.
     arg_then (args_next_opt (de_vec (de_multiaddr A)) ''addresses'' it) (\<lambda>addrs _.
     Inr (JBool (be_connect env (contact_new p (case addrs of Some xs \<Rightarrow> xs | None \<Rightarrow> [])))))))"

definition outcome_of :: "jerror + jvalue option \<Rightarrow> function_outcome" where
  "outcome_of r = (case r of Inl e \<Rightarrow> OutcomeErr e | Inr v \<Rightarrow> outcome_from_output v)"

definition json_contact :: "('app, 'kp, 'pk, 'err) builtin_api \<Rightarrow> contact \<Rightarrow> jvalue" where
  "json_contact A c = JObject [(''peer_id'', JString (to_base58 (bi_crypto A) (ct_peer_id c))), (''addresses'', json_addresses A (ct_addresses c))]"

definition bi_get_contact :: "('app, 'kp, 'pk, 'err) builtin_api \<Rightarrow> builtin_env \<Rightarrow> args \<Rightarrow> function_outcome" where
  "bi_get_contact A env a =
     outcome_of (arg_then (args_next de_string ''peer_id'' (function_args a)) (\<lambda>s _.
       and_then (peer_from_str A s) (\<lambda>p. Inr (map_option (json_contact A) (be_get_contact env p)))))"

text \<open>The outcome after the time has passed.\<close>

definition bi_timeout :: "args \<Rightarrow> function_outcome" where
  "bi_timeout a =
     outcome_of
       (case parse_from_str ''duration_ms'' (function_args a) of
          (Inl e, _) \<Rightarrow> Inl e
        | (Inr None, _) \<Rightarrow> Inl (args_jerror (MissingField ''duration_ms''))
        | (Inr (Some ms), it) \<Rightarrow>
            arg_then (args_next_opt de_string ''message'' it) (\<lambda>message _. Inr (map_option JString message)))"

definition json_identify :: "('app, 'kp, 'pk, 'err) builtin_api \<Rightarrow> node_info \<Rightarrow> jvalue" where
  "json_identify A info =
     JObject [(''external_addresses'', json_addresses A (external_addresses info)), (''node_version'', JString (node_version info)),
       (''air_version'', JString (air_version info))]"

subsection \<open>Scripts\<close>

fun script_storage_jerror :: "script_storage_error \<Rightarrow> jerror" where
  "script_storage_jerror OutletError = JErrorFrom ''OutletError'' []"
| "script_storage_jerror InletError = JErrorFrom ''InletError'' []"
| "script_storage_jerror PermissionDenied = JErrorFrom ''PermissionDenied'' []"

definition send_script_command ::
    "builtin_env \<Rightarrow> script_command \<Rightarrow> ('app, 'kp, 'c) builtins \<Rightarrow> (script_storage_error + unit) \<times> ('app, 'kp, 'c) builtins" where
  "send_script_command env c st =
     (if be_storage_alive env then (Inr (), st\<lparr>bi_script_commands := bi_script_commands st @ [c]\<rparr>) else (Inl OutletError, st))"

definition storage_add_script ::
    "builtin_env \<Rightarrow> string \<Rightarrow> duration option \<Rightarrow> duration \<Rightarrow> peer_id \<Rightarrow> ('app, 'kp, 'c) builtins \<Rightarrow>
     (script_storage_error + string) \<times> ('app, 'kp, 'c) builtins" where
  "storage_add_script env script interval delay creator st =
     apfst (map_sum id (\<lambda>_. be_uuid env))
       (send_script_command env (AddScript (be_uuid env) script interval delay creator) st)"

definition storage_remove_script ::
    "builtin_env \<Rightarrow> string \<Rightarrow> peer_id \<Rightarrow> bool \<Rightarrow> ('app, 'kp, 'c) builtins \<Rightarrow> (script_storage_error + bool) \<times> ('app, 'kp, 'c) builtins" where
  "storage_remove_script env uuid act by_admin st =
     (case send_script_command env (RemoveScript uuid 0 act by_admin) st of
        (Inl e, st1) \<Rightarrow> (Inl e, st1)
      | (Inr _, st1) \<Rightarrow> (be_removed env, st1))"

definition storage_list_scripts ::
    "builtin_env \<Rightarrow> ('app, 'kp, 'c) builtins \<Rightarrow> (script_storage_error + (string \<times> script) list) \<times> ('app, 'kp, 'c) builtins" where
  "storage_list_scripts env st =
     (case send_script_command env (ListScripts 0) st of
        (Inl e, st1) \<Rightarrow> (Inl e, st1)
      | (Inr _, st1) \<Rightarrow> (be_scripts env, st1))"

definition bi_add_script ::
    "builtin_env \<Rightarrow> jvalue list \<Rightarrow> particle_params \<Rightarrow> string \<Rightarrow> ('app, 'kp, 'c) builtins \<Rightarrow> (jerror + jvalue) \<times> ('app, 'kp, 'c) builtins" where
  "bi_add_script env it params script st =
     (case parse_from_str ''interval_sec'' it of
        (Inl e, _) \<Rightarrow> (Inl e, st)
      | (Inr interval, it1) \<Rightarrow>
          (case parse_from_str ''delay_sec'' it1 of
             (Inl e, _) \<Rightarrow> (Inl e, st)
           | (Inr delay, _) \<Rightarrow>
               let interval = map_option (\<lambda>n. n * 10 ^ 9) interval;
                   delay = get_delay (be_random env) (map_option (\<lambda>n. n * 10 ^ 9) delay) interval
               in apfst (map_sum script_storage_jerror JString)
                    (storage_add_script env script interval delay (pp_init_peer_id params) st)))"

definition with_arg ::
    "(args_error + 'a) \<times> jvalue list \<Rightarrow> ('a \<Rightarrow> jvalue list \<Rightarrow> 's \<Rightarrow> (jerror + 'b) \<times> 's) \<Rightarrow> 's \<Rightarrow> (jerror + 'b) \<times> 's" where
  "with_arg r f st = (case r of (Inl e, _) \<Rightarrow> (Inl (args_jerror e), st) | (Inr x, it) \<Rightarrow> f x it st)"

lemma with_arg_simps [simp]:
  "with_arg (Inl e, it) f st = (Inl (args_jerror e), st)" "with_arg (Inr x, it) f st = f x it st"
  by (simp_all add: with_arg_def)

definition add_script_from_arg ::
    "builtin_env \<Rightarrow> args \<Rightarrow> particle_params \<Rightarrow> ('app, 'kp, 'c) builtins \<Rightarrow> (jerror + jvalue) \<times> ('app, 'kp, 'c) builtins" where
  "add_script_from_arg env a params =
     with_arg (args_next de_string ''script'' (function_args a)) (\<lambda>script it. bi_add_script env it params script)"

fun resolve_vault_jerror :: "resolve_vault_error \<Rightarrow> jerror" where
  "resolve_vault_jerror (WrongVault _ _) = JErrorFrom ''WrongVault'' []"
| "resolve_vault_jerror (VaultPathNotFound _) = JErrorFrom ''NotFound'' []"

text \<open>A file that is not UTF-8 is a failure to read, too.\<close>

definition read_script_from_vault ::
    "('app, 'kp, 'pk, 'err) builtin_api \<Rightarrow> string \<Rightarrow> string \<Rightarrow> ('app, 'kp, 'c) builtins \<Rightarrow> jerror + string" where
  "read_script_from_vault A p particle_id st =
     (case resolve_vault_path (bi_os A) (bi_files st) VIRTUAL_PARTICLE_VAULT_PREFIX (bi_vault_dir st) (path_of p) particle_id of
        Inl e \<Rightarrow> Inl (resolve_vault_jerror e)
      | Inr resolved \<Rightarrow>
          (case read_file (bi_os A) resolved (bi_files st) of
             Inl _ \<Rightarrow> Inl (JErrorText (''Error reading script file `'' @ p @ ''`''))
           | Inr content \<Rightarrow>
               (case string_from_utf8 content of
                  None \<Rightarrow> Inl (JErrorText (''Error reading script file `'' @ p @ ''`''))
                | Some s \<Rightarrow> Inr s)))"

definition add_script_from_vault ::
    "('app, 'kp, 'pk, 'err) builtin_api \<Rightarrow> builtin_env \<Rightarrow> args \<Rightarrow> particle_params \<Rightarrow> ('app, 'kp, 'c) builtins \<Rightarrow>
     (jerror + jvalue) \<times> ('app, 'kp, 'c) builtins" where
  "add_script_from_vault A env a params =
     with_arg (args_next de_string ''path'' (function_args a)) (\<lambda>p it st.
       case read_script_from_vault A p (pp_id params) st of
         Inl e \<Rightarrow> (Inl e, st)
       | Inr script \<Rightarrow> bi_add_script env it params script st)"

definition bi_remove_script ::
    "builtin_env \<Rightarrow> args \<Rightarrow> particle_params \<Rightarrow> ('app, 'kp, 'c) builtins \<Rightarrow> (jerror + jvalue) \<times> ('app, 'kp, 'c) builtins" where
  "bi_remove_script env a params st =
     with_arg (args_next de_string ''uuid'' (function_args a)) (\<lambda>uuid _ st.
       apfst (map_sum script_storage_jerror JBool)
         (storage_remove_script env uuid (pp_init_peer_id params) (pp_init_peer_id params = bi_management_peer_id st) st)) st"

definition bi_list_scripts ::
    "('app, 'kp, 'pk, 'err) builtin_api \<Rightarrow> builtin_env \<Rightarrow> ('app, 'kp, 'c) builtins \<Rightarrow> (jerror + jvalue) \<times> ('app, 'kp, 'c) builtins" where
  "bi_list_scripts A env st =
     apfst (map_sum script_storage_jerror (\<lambda>ss. JArray (map (\<lambda>(i, s). JObject
         [(''id'', JString i), (''src'', JString (sc_src s)), (''failures'', JInt (uint (sc_failures s))),
          (''interval'', case sc_interval s of Some d \<Rightarrow> JString (bi_pretty A d) | None \<Rightarrow> JNull),
          (''owner'', JString (to_base58 (bi_crypto A) (sc_creator s)))]) ss)))
       (storage_list_scripts env st)"

subsection \<open>Services\<close>

definition on_services ::
    "('app app_services \<Rightarrow> 'r \<times> 'app app_services) \<Rightarrow> ('app, 'kp, 'c) builtins \<Rightarrow> 'r \<times> ('app, 'kp, 'c) builtins" where
  "on_services f st = (let (r, s) = f (bi_services st) in (r, st\<lparr>bi_services := s\<rparr>))"

definition srv_jerror :: "('app, 'kp, 'pk, 'err) builtin_api \<Rightarrow> service_error \<Rightarrow> jerror" where
  "srv_jerror A = service_jerror (sa_peer_to_string (bi_srv A))"

definition bi_create_service ::
    "('app, 'kp, 'pk, 'err) builtin_api \<Rightarrow> builtin_env \<Rightarrow> args \<Rightarrow> particle_params \<Rightarrow> ('app, 'kp, 'c) builtins \<Rightarrow>
     (jerror + jvalue) \<times> ('app, 'kp, 'c) builtins" where
  "bi_create_service A env a params =
     with_arg (args_next de_string ''blueprint_id'' (function_args a)) (\<lambda>blueprint_id _.
       on_services (\<lambda>s. apfst (map_sum (srv_jerror A) JString)
         (create_service (bi_srv A) (be_uuid env) blueprint_id (pp_init_peer_id params) s)))"

text \<open>Removing a service does not panic (\<open>service_removal_permission\<close>).\<close>

definition bi_remove_service ::
    "('app, 'kp, 'pk, 'err) builtin_api \<Rightarrow> args \<Rightarrow> particle_params \<Rightarrow> ('app, 'kp, 'c) builtins \<Rightarrow>
     (jerror + unit) \<times> ('app, 'kp, 'c) builtins" where
  "bi_remove_service A a params =
     with_arg (args_next de_string ''service_id_or_alias'' (function_args a)) (\<lambda>i _.
       on_services (\<lambda>s. case remove_service (bi_srv A) i (pp_init_peer_id params) False s of
           Some (r, s1) \<Rightarrow> (map_sum (srv_jerror A) id r, s1)
         | None \<Rightarrow> (Inl (JErrorText ''panic''), s)))"

definition bi_list_services :: "('app, 'kp, 'pk, 'err) builtin_api \<Rightarrow> ('app, 'kp, 'c) builtins \<Rightarrow> jvalue" where
  "bi_list_services A st = JArray (list_services (bi_srv A) (bi_services st))"

definition bi_get_interface ::
    "('app, 'kp, 'pk, 'err) builtin_api \<Rightarrow> args \<Rightarrow> ('app, 'kp, 'c) builtins \<Rightarrow> (jerror + jvalue) \<times> ('app, 'kp, 'c) builtins" where
  "bi_get_interface A a =
     with_arg (args_next de_string ''service_id'' (function_args a)) (\<lambda>i _.
       on_services (\<lambda>s. apfst (map_sum (srv_jerror A) id) (get_interface (bi_srv A) i s)))"

definition bi_add_alias ::
    "('app, 'kp, 'pk, 'err) builtin_api \<Rightarrow> args \<Rightarrow> particle_params \<Rightarrow> ('app, 'kp, 'c) builtins \<Rightarrow>
     (jerror + unit) \<times> ('app, 'kp, 'c) builtins" where
  "bi_add_alias A a params =
     with_arg (args_next de_string ''alias'' (function_args a)) (\<lambda>al it.
     with_arg (args_next de_string ''service_id'' it) (\<lambda>sid _.
       on_services (\<lambda>s. apfst (map_sum (srv_jerror A) id) (add_alias (bi_srv A) al sid (pp_init_peer_id params) s))))"

definition bi_resolve_alias ::
    "('app, 'kp, 'pk, 'err) builtin_api \<Rightarrow> args \<Rightarrow> ('app, 'kp, 'c) builtins \<Rightarrow> jerror + jvalue" where
  "bi_resolve_alias A a st =
     arg_then (args_next de_string ''alias'' (function_args a)) (\<lambda>al _.
       map_sum (srv_jerror A) JString (resolve_alias al (bi_services st)))"

definition bi_service_stat ::
    "('app, 'kp, 'pk, 'err) builtin_api \<Rightarrow> builtin_env \<Rightarrow> args \<Rightarrow> ('app, 'kp, 'c) builtins \<Rightarrow> jerror + jvalue" where
  "bi_service_stat A env a st =
     arg_then (args_next de_string ''service_id'' (function_args a)) (\<lambda>i _.
     and_then (map_sum (srv_jerror A) id (to_service_id i (bi_services st))) (\<lambda>sid.
     case be_stats env of
       None \<Rightarrow> Inl (JErrorText ''Service stats collection is disabled'')
     | Some stats \<Rightarrow>
         Inr (case stats sid of
                Some v \<Rightarrow> JObject [(''status'', JBool True), (''error'', JString []), (''result'', JArray [v])]
              | None \<Rightarrow> JObject [(''status'', JBool False),
                  (''error'', JString (''No stats were collected for the `'' @ sid @ ''` service'')), (''result'', JArray [])])))"

definition get_service_mem_stats ::
    "('app, 'kp, 'pk, 'err) builtin_api \<Rightarrow> string \<Rightarrow> ('app, 'kp, 'c) builtins \<Rightarrow> jerror + jvalue list" where
  "get_service_mem_stats A i st =
     (case get_service (as_services (bi_services st)) (as_aliases (bi_services st)) i of
        Inl i' \<Rightarrow> Inl (srv_jerror A (NoSuchService i'))
      | Inr (s, _) \<Rightarrow>
          Inr (map (\<lambda>(name, used, limit). JObject
            [(''name'', JString name), (''memory_size_bytes'', JInt (int used)),
             (''max_memory_size_bytes'', case limit of Some m \<Rightarrow> JInt (int m) | None \<Rightarrow> JNull)]) (bi_memory_stats A (srv_service s))))"

subsection \<open>Modules and blueprints\<close>

definition on_modules ::
    "(module_repository \<Rightarrow> 'r \<times> module_repository) \<Rightarrow> ('app, 'kp, 'c) builtins \<Rightarrow> 'r \<times> ('app, 'kp, 'c) builtins" where
  "on_modules f st =
     (let (r, m) = f (as_modules (bi_services st)) in (r, st\<lparr>bi_services := (bi_services st)\<lparr>as_modules := m\<rparr>\<rparr>))"

abbreviation modules_of :: "('app, 'kp, 'c) builtins \<Rightarrow> module_repository" where
  "modules_of st \<equiv> as_modules (bi_services st)"

abbreviation module_api_of :: "('app, 'kp, 'pk, 'err) builtin_api \<Rightarrow> module_api" where
  "module_api_of A \<equiv> sa_modules (bi_srv A)"

definition module_jerror :: "module_error \<Rightarrow> jerror" where
  "module_jerror e = JErrorFrom ''ModuleError'' (module_error_fields e)"

definition bi_add_module ::
    "('app, 'kp, 'pk, 'err) builtin_api \<Rightarrow> args \<Rightarrow> ('app, 'kp, 'c) builtins \<Rightarrow> (jerror + jvalue) \<times> ('app, 'kp, 'c) builtins" where
  "bi_add_module A a =
     with_arg (args_next de_string ''module_bytes'' (function_args a)) (\<lambda>content it.
     with_arg (args_next (bi_de_config A) ''config'' it) (\<lambda>config _.
       on_modules (\<lambda>m. apfst (map_sum module_jerror JString) (add_module_base64 (module_api_of A) content config m))))"

definition bi_add_module_from_vault ::
    "('app, 'kp, 'pk, 'err) builtin_api \<Rightarrow> args \<Rightarrow> particle_params \<Rightarrow> ('app, 'kp, 'c) builtins \<Rightarrow>
     (jerror + jvalue) \<times> ('app, 'kp, 'c) builtins" where
  "bi_add_module_from_vault A a params =
     with_arg (args_next de_string ''module_path'' (function_args a)) (\<lambda>p it.
     with_arg (args_next (bi_de_config A) ''config'' it) (\<lambda>config _.
       on_modules (\<lambda>m. apfst (map_sum module_jerror JString) (add_module_from_vault (module_api_of A) p config params m))))"

definition bi_add_blueprint ::
    "('app, 'kp, 'pk, 'err) builtin_api \<Rightarrow> args \<Rightarrow> ('app, 'kp, 'c) builtins \<Rightarrow> (jerror + jvalue) \<times> ('app, 'kp, 'c) builtins" where
  "bi_add_blueprint A a =
     with_arg (args_next (bi_de_blueprint A) ''blueprint_request'' (function_args a)) (\<lambda>req _.
       on_modules (\<lambda>m. apfst (map_sum module_jerror JString) (repo_add_blueprint (module_api_of A) req m)))"

definition serialized :: "string \<Rightarrow> string + jvalue \<Rightarrow> jerror + jvalue" where
  "serialized msg r = map_sum (\<lambda>e. JErrorText (msg @ e)) id r"

definition bi_load_module_config ::
    "('app, 'kp, 'pk, 'err) builtin_api \<Rightarrow> args \<Rightarrow> particle_params \<Rightarrow> ('app, 'kp, 'c) builtins \<Rightarrow> jerror + jvalue" where
  "bi_load_module_config A a params st =
     arg_then (args_next de_string ''config_path'' (function_args a)) (\<lambda>p _.
     and_then (map_sum module_jerror id (load_module_config_from_vault (module_api_of A) p params (modules_of st))) (\<lambda>config.
     serialized ''Error serializing config to JSON: '' (bi_config_json A config)))"

definition bi_default_module_config :: "('app, 'kp, 'pk, 'err) builtin_api \<Rightarrow> args \<Rightarrow> jerror + jvalue" where
  "bi_default_module_config A a =
     arg_then (args_next de_string ''module_name'' (function_args a)) (\<lambda>name _.
     serialized ''Error serializing config to JSON: '' (bi_config_json A (bi_default_config A name)))"

definition bi_make_blueprint :: "('app, 'kp, 'pk, 'err) builtin_api \<Rightarrow> args \<Rightarrow> jerror + jvalue" where
  "bi_make_blueprint A a =
     arg_then (args_next de_string ''name'' (function_args a)) (\<lambda>name it.
     arg_then (args_next (de_vec (bi_de_dependency A)) ''dependencies'' it) (\<lambda>deps _.
     serialized ''Error serializing blueprint_request to JSON: '' (bi_add_blueprint_json A \<lparr>ab_name = name, ab_dependencies = deps\<rparr>)))"

definition bi_load_blueprint ::
    "('app, 'kp, 'pk, 'err) builtin_api \<Rightarrow> args \<Rightarrow> particle_params \<Rightarrow> ('app, 'kp, 'c) builtins \<Rightarrow> jerror + jvalue" where
  "bi_load_blueprint A a params st =
     arg_then (args_next de_string ''blueprint_path'' (function_args a)) (\<lambda>p _.
     and_then (map_sum module_jerror id (load_blueprint_from_vault (module_api_of A) p params (modules_of st))) (\<lambda>req.
     serialized ''Error serializing blueprint_request to JSON: '' (bi_add_blueprint_json A req)))"

text \<open>\<^verbatim>\<open>ModuleRepository::list_modules\<close>: the files of modules; one that is not named by a hash, or has no readable configuration, is
  listed as invalid.\<close>

definition list_module ::
    "('app, 'kp, 'pk, 'err) builtin_api \<Rightarrow> directory \<Rightarrow> string \<Rightarrow> jvalue option" where
  "list_module A dir fname =
     map_option (\<lambda>stem.
        case ma_from_hex (module_api_of A) stem of
          None \<Rightarrow> JObject [(''invalid_file_name'', JString stem), (''error'', JString (bi_report A (InvalidModuleReference stem)))]
        | Some h \<Rightarrow>
            (case load_config_by_path (module_api_of A) dir (module_config_name_hash (module_api_of A) h) of
               Inl e \<Rightarrow> JObject [(''invalid_file_name'', JString stem), (''error'', JString (bi_report A e))]
             | Inr cfg \<Rightarrow> JObject [(''name'', JString (mc_name cfg)), (''hash'', JString (ma_to_hex (module_api_of A) h)),
                 (''config'', bi_inner_config_json A cfg)]))
       (extract_module_file_name fname)"

definition list_modules :: "('app, 'kp, 'pk, 'err) builtin_api \<Rightarrow> module_repository \<Rightarrow> jerror + jvalue" where
  "list_modules A r = Inr (JArray (List.map_filter (list_module A (mr_modules_dir r)) (map fst (mr_modules_dir r))))"

definition module_get_interface ::
    "('app, 'kp, 'pk, 'err) builtin_api \<Rightarrow> string \<Rightarrow> module_repository \<Rightarrow> (jerror + jvalue) \<times> module_repository" where
  "module_get_interface A hex r =
     (case ma_from_hex (module_api_of A) hex of
        None \<Rightarrow> (Inl (JErrorText (bi_report A (InvalidModuleReference hex))), r)
      | Some h \<Rightarrow> apfst (map_sum (\<lambda>e. JErrorText (bi_report A e)) id) (get_interface_by_hash (module_api_of A) h r))"

definition bi_get_module_interface ::
    "('app, 'kp, 'pk, 'err) builtin_api \<Rightarrow> args \<Rightarrow> ('app, 'kp, 'c) builtins \<Rightarrow> (jerror + jvalue) \<times> ('app, 'kp, 'c) builtins" where
  "bi_get_module_interface A a =
     with_arg (args_next de_string ''hex_hash'' (function_args a)) (\<lambda>hex _. on_modules (module_get_interface A hex))"

definition bi_get_blueprints ::
    "('app, 'kp, 'pk, 'err) builtin_api \<Rightarrow> ('app, 'kp, 'c) builtins \<Rightarrow> jerror + jvalue" where
  "bi_get_blueprints A st =
     map_sum id JArray (collect_results
       (map (\<lambda>bp. serialized (''error serializing blueprint '' @ bi_debug_blueprint A bp @ '': '') (bi_blueprint_json A bp)) (get_blueprints (modules_of st))))"

definition de_hash_set :: "codec \<Rightarrow> jvalue \<Rightarrow> string list option" where
  "de_hash_set D v = map_option (cd_hash_order D) (de_vec de_string v)"

definition de_i32 :: "jvalue \<Rightarrow> int option" where
  "de_i32 v = (case v of JInt n \<Rightarrow> if - (2 ^ 31) \<le> n \<and> n < 2 ^ 31 then Some n else None | _ \<Rightarrow> None)"

fun de_pair :: "jvalue \<Rightarrow> (string \<times> string) option" where
  "de_pair (JArray [JString k, JString v]) = Some (k, v)"
| "de_pair _ = None"

text \<open>\<^verbatim>\<open>toml_utils::table\<close>: a later pair replaces an earlier one.\<close>

definition toml_table :: "(string \<times> string) list \<Rightarrow> (string \<times> string) list" where
  "toml_table ps = fold (\<lambda>(k, v). AList.update k v) ps []"

definition make_module_config :: "('app, 'kp, 'pk, 'err) builtin_api \<Rightarrow> args \<Rightarrow> jerror + jvalue" where
  "make_module_config A a =
     arg_then (args_next de_string ''name'' (function_args a)) (\<lambda>name it.
     arg_then (args_next_opt de_u32 ''mem_pages_count'' it) (\<lambda>mem_pages it.
     arg_then (args_next_opt de_string ''max_heap_size'' it) (\<lambda>heap_text it.
     and_then (case heap_text of
                 None \<Rightarrow> Inr None
               | Some s \<Rightarrow> (case bi_bytesize A s of
                              Inr n \<Rightarrow> Inr (Some n)
                            | Inl e \<Rightarrow> Inl (JErrorText (''error parsing max_heap_size from String to ByteSize: '' @ e)))) (\<lambda>heap.
     arg_then (args_next_opt de_bool ''logger_enabled'' it) (\<lambda>logger it.
     arg_then (args_next_opt (de_hash_set (bi_codec A)) ''preopened_files'' it) (\<lambda>files it.
     arg_then (args_next_opt (de_vec de_pair) ''envs'' it) (\<lambda>envs it.
     arg_then (args_next_opt (de_vec de_pair) ''mapped_dirs'' it) (\<lambda>dirs it.
     arg_then (args_next_opt (de_vec de_pair) ''mounted_binaries'' it) (\<lambda>binaries it.
     arg_then (args_next_opt de_i32 ''logging_mask'' it) (\<lambda>mask _.
     serialized ''Error serializing config to JSON: ''
       (bi_settings_json A \<lparr>ms_name = name, ms_mem_pages_count = mem_pages, ms_max_heap_size = heap, ms_logger_enabled = logger,
          ms_preopened_files = files, ms_envs = map_option toml_table envs, ms_mapped_dirs = map_option toml_table dirs,
          ms_mounted_binaries = map_option toml_table binaries, ms_logging_mask = mask\<rparr>)))))))))))"

subsection \<open>Dispatch\<close>

type_synonym ('app, 'kp, 'c) builtin_handler =
  "args \<Rightarrow> particle_params \<Rightarrow> ('app, 'kp, 'c) builtins \<Rightarrow> function_outcome \<times> ('app, 'kp, 'c) builtins"

definition pure_fn :: "(args \<Rightarrow> function_outcome) \<Rightarrow> ('app, 'kp, 'c) builtin_handler" where
  "pure_fn f a p st = (f a, st)"

definition read_fn :: "(args \<Rightarrow> particle_params \<Rightarrow> ('app, 'kp, 'c) builtins \<Rightarrow> function_outcome) \<Rightarrow> ('app, 'kp, 'c) builtin_handler" where
  "read_fn f a p st = (f a p st, st)"

definition state_fn ::
    "(args \<Rightarrow> particle_params \<Rightarrow> ('app, 'kp, 'c) builtins \<Rightarrow> (jerror + jvalue) \<times> ('app, 'kp, 'c) builtins) \<Rightarrow> ('app, 'kp, 'c) builtin_handler" where
  "state_fn f a p st = apfst wrap (f a p st)"

definition unit_fn ::
    "(args \<Rightarrow> particle_params \<Rightarrow> ('app, 'kp, 'c) builtins \<Rightarrow> (jerror + unit) \<times> ('app, 'kp, 'c) builtins) \<Rightarrow> ('app, 'kp, 'c) builtin_handler" where
  "unit_fn f a p st = apfst wrap_unit (f a p st)"

lemmas handler_defs = pure_fn_def read_fn_def state_fn_def unit_fn_def

definition i64_binary :: "(int \<Rightarrow> int \<Rightarrow> jerror + 'out) \<Rightarrow> ('out \<Rightarrow> jvalue) \<Rightarrow> ('app, 'kp, 'c) builtin_handler" where
  "i64_binary f ser = pure_fn (\<lambda>a. binary de_i64 de_i64 ser a f)"

definition strings_json :: "string list \<Rightarrow> jvalue" where
  "strings_json xs = JArray (map JString xs)"

definition set_binary :: "codec \<Rightarrow> (string list \<Rightarrow> string list \<Rightarrow> jerror + string list) \<Rightarrow> ('app, 'kp, 'c) builtin_handler" where
  "set_binary D f = pure_fn (\<lambda>a. binary (de_hash_set D) (de_hash_set D) strings_json a f)"

text \<open>The arms of the match, in their order. A slice cannot be out of bounds (\<open>array_slice_in_bounds\<close>).\<close>

definition peer_arms ::
    "('app, 'kp, 'pk, 'err) builtin_api \<Rightarrow> builtin_env \<Rightarrow> ((string \<times> string) \<times> ('app, 'kp, 'c) builtin_handler) list" where
  "peer_arms A env =
    [((''peer'', ''identify''), read_fn (\<lambda>_ _ st. OutcomeOk (json_identify A (bi_node_info st)))),
     ((''peer'', ''timestamp_ms''), pure_fn (\<lambda>_. OutcomeOk (JInt (uint (word_of_nat (be_now_ms env) :: u64))))),
     ((''peer'', ''timestamp_sec''), pure_fn (\<lambda>_. OutcomeOk (JInt (uint (be_now_sec env))))),
     ((''peer'', ''is_connected''), pure_fn (\<lambda>a. wrap (bi_is_connected A env a))),
     ((''peer'', ''connect''), pure_fn (\<lambda>a. wrap (bi_connect A env a))),
     ((''peer'', ''get_contact''), pure_fn (bi_get_contact A env)),
     ((''peer'', ''timeout''), pure_fn bi_timeout),
     ((''kad'', ''neighborhood''), pure_fn (\<lambda>a. wrap (neighborhood A env a))),
     ((''kad'', ''neigh_with_addrs''), pure_fn (\<lambda>a. wrap (neighborhood_with_addresses A env a))),
     ((''kad'', ''merge''), pure_fn (\<lambda>a. wrap (kad_merge (bi_codec A) (function_args a))))]"

definition service_arms ::
    "('app, 'kp, 'pk, 'err) builtin_api \<Rightarrow> builtin_env \<Rightarrow> ((string \<times> string) \<times> ('app, 'kp, 'c) builtin_handler) list" where
  "service_arms A env =
    [((''srv'', ''list''), read_fn (\<lambda>_ _ st. OutcomeOk (bi_list_services A st))),
     ((''srv'', ''create''), state_fn (bi_create_service A env)),
     ((''srv'', ''get_interface''), state_fn (\<lambda>a _. bi_get_interface A a)),
     ((''srv'', ''resolve_alias''), read_fn (\<lambda>a _ st. wrap (bi_resolve_alias A a st))),
     ((''srv'', ''add_alias''), unit_fn (bi_add_alias A)),
     ((''srv'', ''remove''), unit_fn (bi_remove_service A)),
     ((''dist'', ''add_module_from_vault''), state_fn (bi_add_module_from_vault A)),
     ((''dist'', ''add_module''), state_fn (\<lambda>a _. bi_add_module A a)),
     ((''dist'', ''add_blueprint''), state_fn (\<lambda>a _. bi_add_blueprint A a)),
     ((''dist'', ''make_module_config''), pure_fn (\<lambda>a. wrap (make_module_config A a))),
     ((''dist'', ''load_module_config''), read_fn (\<lambda>a p st. wrap (bi_load_module_config A a p st))),
     ((''dist'', ''default_module_config''), pure_fn (\<lambda>a. wrap (bi_default_module_config A a))),
     ((''dist'', ''make_blueprint''), pure_fn (\<lambda>a. wrap (bi_make_blueprint A a))),
     ((''dist'', ''load_blueprint''), read_fn (\<lambda>a p st. wrap (bi_load_blueprint A a p st))),
     ((''dist'', ''list_modules''), read_fn (\<lambda>_ _ st. wrap (list_modules A (modules_of st)))),
     ((''dist'', ''get_module_interface''), state_fn (\<lambda>a _. bi_get_module_interface A a)),
     ((''dist'', ''list_blueprints''), read_fn (\<lambda>_ _ st. wrap (bi_get_blueprints A st))),
     ((''script'', ''add''), state_fn (add_script_from_arg env)),
     ((''script'', ''add_from_vault''), state_fn (add_script_from_vault A env)),
     ((''script'', ''remove''), state_fn (bi_remove_script env)),
     ((''script'', ''list''), state_fn (\<lambda>_ _. bi_list_scripts A env))]"

definition op_arms :: "codec \<Rightarrow> ((string \<times> string) \<times> ('app, 'kp, 'c) builtin_handler) list" where
  "op_arms D =
    [((''op'', ''noop''), pure_fn (\<lambda>_. Empty)),
     ((''op'', ''array''), pure_fn (\<lambda>a. OutcomeOk (JArray (function_args a)))),
     ((''op'', ''array_length''), pure_fn (\<lambda>a. wrap (array_length (function_args a)))),
     ((''op'', ''concat''), pure_fn (\<lambda>a. wrap (op_concat (function_args a)))),
     ((''op'', ''string_to_b58''), pure_fn (\<lambda>a. wrap (string_to_b58 D (function_args a)))),
     ((''op'', ''string_from_b58''), pure_fn (\<lambda>a. wrap (string_from_b58 D (function_args a)))),
     ((''op'', ''bytes_from_b58''), pure_fn (\<lambda>a. wrap (bytes_from_b58 D (function_args a)))),
     ((''op'', ''bytes_to_b58''), pure_fn (\<lambda>a. wrap (bytes_to_b58 D (function_args a)))),
     ((''op'', ''sha256_string''), pure_fn (\<lambda>a. wrap (sha256_string D (function_args a)))),
     ((''op'', ''concat_strings''), pure_fn (\<lambda>a. wrap (concat_strings (function_args a)))),
     ((''op'', ''identity''), pure_fn (\<lambda>a. op_identity (function_args a))),
     ((''debug'', ''stringify''), pure_fn (\<lambda>a. debug_stringify D (function_args a)))]"

definition stat_arms ::
    "('app, 'kp, 'pk, 'err) builtin_api \<Rightarrow> builtin_env \<Rightarrow> ((string \<times> string) \<times> ('app, 'kp, 'c) builtin_handler) list" where
  "stat_arms A env =
    [((''stat'', ''service_memory''), read_fn (\<lambda>a _ st. unary de_string JArray a (\<lambda>i. get_service_mem_stats A i st))),
     ((''stat'', ''service_stat''), read_fn (\<lambda>a _ st. wrap (bi_service_stat A env a st)))]"

definition math_arms :: "codec \<Rightarrow> ((string \<times> string) \<times> ('app, 'kp, 'c) builtin_handler) list" where
  "math_arms D =
    [((''math'', ''add''), i64_binary math_add JInt),
     ((''math'', ''sub''), i64_binary math_sub JInt),
     ((''math'', ''mul''), i64_binary math_mul JInt),
     ((''math'', ''fmul''), pure_fn (\<lambda>a. binary de_f64 de_f64 JInt a fmul_floor)),
     ((''math'', ''div''), i64_binary math_div JInt),
     ((''math'', ''rem''), i64_binary math_rem JInt),
     ((''math'', ''pow''), pure_fn (\<lambda>a. binary de_i64 de_u32 JInt a math_pow)),
     ((''math'', ''log''), i64_binary math_log (\<lambda>n. JInt (int n))),
     ((''cmp'', ''gt''), i64_binary math_gt JBool),
     ((''cmp'', ''gte''), i64_binary math_gte JBool),
     ((''cmp'', ''lt''), i64_binary math_lt JBool),
     ((''cmp'', ''lte''), i64_binary math_lte JBool),
     ((''cmp'', ''cmp''), i64_binary math_cmp JInt),
     ((''array'', ''sum''), pure_fn (\<lambda>a. unary (de_vec de_i64) JInt a array_sum)),
     ((''array'', ''dedup''), pure_fn (\<lambda>a. unary (de_vec de_string) strings_json a math_dedup)),
     ((''array'', ''intersect''), set_binary D math_intersect),
     ((''array'', ''diff''), set_binary D math_diff),
     ((''array'', ''sdiff''), set_binary D math_sdiff),
     ((''array'', ''slice''), pure_fn (\<lambda>a. wrap (the (array_slice D (function_args a))))),
     ((''array'', ''length''), pure_fn (\<lambda>a. wrap (array_length (function_args a))))]"

definition sig_arms :: "('app, 'kp, 'pk, 'err) builtin_api \<Rightarrow> ((string \<times> string) \<times> ('app, 'kp, 'c) builtin_handler) list" where
  "sig_arms A =
    [((''sig'', ''sign''), read_fn (\<lambda>a _ st.
        wrap (sig_sign (bi_codec A) (bi_crypto A) (bi_sign_error A) (bi_local_peer_id st) (bi_root_keypair st) a))),
     ((''sig'', ''verify''), read_fn (\<lambda>a _ st. wrap (sig_verify (bi_crypto A) (bi_public A) (bi_root_keypair st) a))),
     ((''sig'', ''get_peer_id''), read_fn (\<lambda>_ _ st. wrap (sig_get_peer_id (bi_crypto A) (bi_root_keypair st)))),
     ((''json'', ''obj''), pure_fn (\<lambda>a. wrap (json_obj (bi_codec A) a))),
     ((''json'', ''put''), pure_fn (\<lambda>a. wrap (json_put a))),
     ((''json'', ''puts''), pure_fn (\<lambda>a. wrap (json_puts (bi_codec A) a))),
     ((''json'', ''parse''), pure_fn (\<lambda>a. unary de_string id a (json_parse (bi_codec A)))),
     ((''json'', ''stringify''), pure_fn (\<lambda>a. unary de_value JString a (\<lambda>v. Inr (json_stringify (bi_codec A) v))))]"

definition builtin_arms ::
    "('app, 'kp, 'pk, 'err) builtin_api \<Rightarrow> builtin_env \<Rightarrow> ((string \<times> string) \<times> ('app, 'kp, 'c) builtin_handler) list" where
  "builtin_arms A env =
     peer_arms A env @ service_arms A env @ op_arms (bi_codec A) @ stat_arms A env @ math_arms (bi_codec A) @ sig_arms A"

definition builtins_call ::
    "('app, 'kp, 'pk, 'err) builtin_api \<Rightarrow> builtin_env \<Rightarrow> ('app, 'kp, 'c) builtin_handler" where
  "builtins_call A env a params st =
     (case map_of (builtin_arms A env) (service_id a, function_name a) of
        Some h \<Rightarrow> h a params st
      | None \<Rightarrow> (NotDefined a params, st))"

definition custom_function :: "args \<Rightarrow> ('app, 'kp, 'c) builtins \<Rightarrow> ('app, 'c) host_function option" where
  "custom_function a st =
     Option.bind (map_of (custom_services st) (service_id a)) (\<lambda>fs.
       case map_of (cs_functions fs) (function_name a) of Some f \<Rightarrow> Some f | None \<Rightarrow> cs_unhandled fs)"

definition custom_service_call :: "('app, 'kp, 'c) builtin_handler" where
  "custom_service_call a params st =
     (case custom_function a st of
        Some f \<Rightarrow>
          (case f a params (bi_services st, bi_captured st) of
             (out, services, captured) \<Rightarrow> (out, st\<lparr>bi_services := services, bi_captured := captured\<rparr>))
      | None \<Rightarrow> (NotDefined a params, st))"

definition bi_call_service :: "('app, 'kp, 'pk, 'err) builtin_api \<Rightarrow> ('app, 'kp, 'c) builtin_handler" where
  "bi_call_service A a params = on_services (call_service (bi_srv A) a params)"

text \<open>\<^verbatim>\<open>or_else\<close> of an outcome, with the state the next function sees.\<close>

definition handler_or_else ::
    "function_outcome \<times> 's \<Rightarrow> (args \<Rightarrow> particle_params \<Rightarrow> 's \<Rightarrow> function_outcome \<times> 's) \<Rightarrow> function_outcome \<times> 's" where
  "handler_or_else r f = (case r of (NotDefined a p, st) \<Rightarrow> f a p st | r \<Rightarrow> r)"

definition builtins_call_all ::
    "('app, 'kp, 'pk, 'err) builtin_api \<Rightarrow> builtin_env \<Rightarrow> ('app, 'kp, 'c) builtin_handler" where
  "builtins_call_all A env a params st =
     handler_or_else (builtins_call A env a params st) (\<lambda>a params st.
     handler_or_else (custom_service_call a params st) (bi_call_service A))"

definition builtins_extend ::
    "string \<Rightarrow> (string \<times> ('app, 'c) host_function) list \<Rightarrow> ('app, 'c) host_function option \<Rightarrow>
     ('app, 'kp, 'c) builtins \<Rightarrow> ('app, 'kp, 'c) builtins" where
  "builtins_extend service fs unhandled st =
     st\<lparr>custom_services := AList.update service \<lparr>cs_functions = fs, cs_unhandled = unhandled\<rparr> (custom_services st)\<rparr>"

definition builtins_remove ::
    "string \<Rightarrow> ('app, 'kp, 'c) builtins \<Rightarrow>
     ((string \<times> ('app, 'c) host_function) list \<times> ('app, 'c) host_function option) option \<times> ('app, 'kp, 'c) builtins" where
  "builtins_remove service st =
     (map_option (\<lambda>cs. (cs_functions cs, cs_unhandled cs)) (map_of (custom_services st) service),
      st\<lparr>custom_services := AList.delete service (custom_services st)\<rparr>)"

subsection \<open>Properties\<close>

text \<open>Every arm of the match defines its outcome, and none looks at the custom services.\<close>

lemma wrap_defined [simp]: "is_defined (wrap r)"
  by (cases r) auto

lemma wrap_unit_defined [simp]: "is_defined (wrap_unit r)"
  by (cases r) auto

lemma outcome_of_defined [simp]: "is_defined (outcome_of r)"
  by (auto simp: outcome_of_def split: sum.splits) (metis is_defined.simps(2,3) outcome_from_output.elims)

lemma unary_defined [simp]: "is_defined (unary de ser a f)"
  by (simp add: unary_def)

lemma binary_defined [simp]: "is_defined (binary de1 de2 ser a f)"
  by (simp add: binary_def)

lemma op_identity_defined [simp]: "is_defined (op_identity vs)"
  by (cases vs) (auto simp: op_identity_def)

lemma with_arg_custom:
  "(\<And>x it. fst (f x it (g st)) = fst (f x it st)) \<Longrightarrow> fst (with_arg r f (g st)) = fst (with_arg r f st)"
  by (auto simp: with_arg_def split: prod.splits sum.splits)

lemma on_services_custom [simp]:
  "fst (on_services f (st\<lparr>custom_services := x\<rparr>)) = fst (on_services f st)"
  by (simp add: on_services_def split: prod.splits)

lemma on_modules_custom [simp]: "fst (on_modules f (st\<lparr>custom_services := x\<rparr>)) = fst (on_modules f st)"
  by (simp add: on_modules_def split: prod.splits)

definition arm_ok :: "(string \<times> string) \<times> ('app, 'kp, 'c) builtin_handler \<Rightarrow> bool" where
  "arm_ok arm \<longleftrightarrow> (\<forall>a p st x. is_defined (fst (snd arm a p st)) \<and>
     fst (snd arm a p (st\<lparr>custom_services := x\<rparr>)) = fst (snd arm a p st))"

lemma arm_ok_pure: "(\<And>a. is_defined (f a)) \<Longrightarrow> arm_ok (k, pure_fn f)"
  by (simp add: arm_ok_def pure_fn_def)

lemma arm_ok_read: "(\<And>a p st x. is_defined (f a p st) \<and> f a p (st\<lparr>custom_services := x\<rparr>) = f a p st) \<Longrightarrow> arm_ok (k, read_fn f)"
  by (simp add: arm_ok_def read_fn_def)

lemma arm_ok_state: "(\<And>a p st x. fst (f a p (st\<lparr>custom_services := x\<rparr>)) = fst (f a p st)) \<Longrightarrow> arm_ok (k, state_fn f)"
  by (simp add: arm_ok_def state_fn_def)

lemma arm_ok_unit: "(\<And>a p st x. fst (f a p (st\<lparr>custom_services := x\<rparr>)) = fst (f a p st)) \<Longrightarrow> arm_ok (k, unit_fn f)"
  by (simp add: arm_ok_def unit_fn_def)

lemmas arm_ok_intros = arm_ok_pure arm_ok_read arm_ok_state arm_ok_unit

lemma peer_arms_ok: "list_all arm_ok (peer_arms A env)"
  by (simp add: peer_arms_def) (intro conjI arm_ok_intros; simp add: bi_get_contact_def bi_timeout_def)

lemma op_arms_ok: "list_all arm_ok (op_arms D)"
  by (simp add: op_arms_def) (intro conjI arm_ok_intros; simp add: debug_stringify_def)

lemma math_arms_ok: "list_all arm_ok (math_arms D)"
  by (simp add: math_arms_def i64_binary_def set_binary_def) (intro conjI arm_ok_intros; simp)

lemma stat_arms_ok: "list_all arm_ok (stat_arms A env)"
  by (simp add: stat_arms_def) (intro conjI arm_ok_intros; simp add: bi_service_stat_def get_service_mem_stats_def)

lemma sig_arms_ok: "list_all arm_ok (sig_arms A)"
  by (simp add: sig_arms_def) (intro conjI arm_ok_intros; simp)

lemma storage_add_custom [simp]:
  "fst (storage_add_script env s i d c (st\<lparr>custom_services := x\<rparr>)) = fst (storage_add_script env s i d c st)"
  by (simp add: storage_add_script_def send_script_command_def)

lemma bi_add_script_custom [simp]:
  "fst (bi_add_script env it params s (st\<lparr>custom_services := x\<rparr>)) = fst (bi_add_script env it params s st)"
  by (simp add: bi_add_script_def Let_def split: prod.splits sum.splits)

lemma service_arms_ok: "list_all arm_ok (service_arms A env)"
  unfolding service_arms_def list.pred_inject
  by (intro conjI arm_ok_intros)
    (auto simp: bi_list_services_def bi_create_service_def bi_get_interface_def bi_resolve_alias_def bi_add_alias_def bi_remove_service_def
      bi_add_module_from_vault_def bi_add_module_def bi_add_blueprint_def bi_load_module_config_def bi_load_blueprint_def
      bi_get_module_interface_def bi_get_blueprints_def add_script_from_arg_def add_script_from_vault_def bi_remove_script_def
      bi_list_scripts_def storage_remove_script_def storage_list_scripts_def send_script_command_def read_script_from_vault_def
      intro!: with_arg_custom split: sum.splits)

lemma builtin_arms_ok: "list_all arm_ok (builtin_arms A env)"
  by (simp add: builtin_arms_def peer_arms_ok service_arms_ok op_arms_ok stat_arms_ok math_arms_ok sig_arms_ok)

lemma builtin_arm:
  assumes "map_of (builtin_arms A env) k = Some h"
  shows "is_defined (fst (h a p st))" and "fst (h a p (st\<lparr>custom_services := x\<rparr>)) = fst (h a p st)"
proof -
  have "arm_ok (k, h)" using builtin_arms_ok [of A env] map_of_SomeD [OF assms] by (auto simp: list_all_iff)
  then show "is_defined (fst (h a p st))" "fst (h a p (st\<lparr>custom_services := x\<rparr>)) = fst (h a p st)"
    by (simp_all add: arm_ok_def)
qed

lemma handler_or_else_defined: "is_defined (fst r) \<Longrightarrow> handler_or_else r f = r"
  by (cases r; cases "fst r") (auto simp: handler_or_else_def)

lemma handler_or_else_NotDefined [simp]: "handler_or_else (NotDefined a p, st) f = f a p st"
  by (simp add: handler_or_else_def)

text \<open>C21 [builtins_not_shadowed]: A call is answered by the built-in function of that name if there is one; registering a custom
  service, under whatever name, never changes its answer. Otherwise the custom service's function, or its function for
  unhandled names, answers if it defines an outcome; and only if there is none, the call goes to the installed services.\<close>

theorem builtins_not_shadowed:
  fixes A :: "('app, 'kp, 'pk, 'err) builtin_api" and st :: "('app, 'kp, 'c) builtins"
  shows "case map_of (builtin_arms A env) (service_id a, function_name a) of
     Some h \<Rightarrow>
       builtins_call_all A env a p st = h a p st \<and> is_defined (fst (builtins_call_all A env a p st)) \<and>
       fst (builtins_call_all A env a p (builtins_extend service fs unhandled st)) = fst (builtins_call_all A env a p st)
   | None \<Rightarrow>
       (case custom_function a st of
          None \<Rightarrow> builtins_call_all A env a p st = bi_call_service A a p st
        | Some f \<Rightarrow>
            \<forall>out services captured. f a p (bi_services st, bi_captured st) = (out, services, captured) \<and> is_defined out \<longrightarrow>
              builtins_call_all A env a p st = (out, st\<lparr>bi_services := services, bi_captured := captured\<rparr>))"
proof (cases "map_of (builtin_arms A env :: ((string \<times> string) \<times> ('app, 'kp, 'c) builtin_handler) list) (service_id a, function_name a)")
  case (Some h)
  have "builtins_call_all A env a p st' = h a p st'" for st'
    using Some builtin_arm(1) [OF Some] by (simp add: builtins_call_all_def builtins_call_def handler_or_else_defined)
  with Some builtin_arm [OF Some] show ?thesis by (simp add: builtins_extend_def)
next
  case None
  then have next_handler: "builtins_call_all A env a p st = handler_or_else (custom_service_call a p st) (bi_call_service A)"
    by (simp add: builtins_call_all_def builtins_call_def)
  show ?thesis
    using None by (auto simp: next_handler custom_service_call_def handler_or_else_defined split: option.splits)
qed

text \<open>[custom_service_registered]: A registered custom service gets the calls of its functions and, if it has a function for
  unhandled names, all other calls to its name, unless they are built in; removing it gives its functions back and restores
  what was called before.\<close>

theorem custom_service_registered:
  fixes A :: "('app, 'kp, 'pk, 'err) builtin_api" and st :: "('app, 'kp, 'c) builtins"
  assumes "map_of (builtin_arms A env :: ((string \<times> string) \<times> ('app, 'kp, 'c) builtin_handler) list) (service, function_name a) = None" and "service_id a = service"
    and "map_of (custom_services st) service = None"
  shows "let st1 = builtins_extend service fs unhandled st; (removed, st2) = builtins_remove service st1 in
     custom_function a st1 = (case map_of fs (function_name a) of Some f \<Rightarrow> Some f | None \<Rightarrow> unhandled) \<and>
     removed = Some (fs, unhandled) \<and>
     (\<forall>b. custom_function b st2 = custom_function b st) \<and> builtins_call_all A env a p st2 = bi_call_service A a p st2"
proof -
  let ?st2 = "snd (builtins_remove service (builtins_extend service fs unhandled st))"
  have same: "map_of (custom_services ?st2) s = map_of (custom_services st) s" for s
    using assms(3) by (simp add: builtins_remove_def builtins_extend_def delete_conv' update_conv')
  have none: "custom_function a ?st2 = None" using assms(2,3) same by (simp add: custom_function_def)
  have "builtins_call_all A env a p ?st2 = bi_call_service A a p ?st2"
    using assms(1,2) none by (simp add: builtins_call_all_def builtins_call_def custom_service_call_def)
  with assms(2,3) show ?thesis
    by (auto simp: Let_def builtins_remove_def builtins_extend_def custom_function_def update_conv' delete_conv' split: prod.splits option.splits)
qed

subsection \<open>Well-formed values\<close>

text \<open>A JSON number that is not floating is an \<^verbatim>\<open>i64\<close> or a \<^verbatim>\<open>u64\<close>.\<close>

fun jv_ok :: "jvalue \<Rightarrow> bool" where
  "jv_ok (JInt n) = (- (2 ^ 63) \<le> n \<and> n < 2 ^ 64)"
| "jv_ok (JArray vs) = list_all jv_ok vs"
| "jv_ok (JObject kvs) = list_all (\<lambda>kv. jv_ok (snd kv)) kvs"
| "jv_ok _ = True"

definition args_ok :: "args \<Rightarrow> bool" where
  "args_ok a \<longleftrightarrow> list_all jv_ok (function_args a) \<and> (\<forall>xs. JArray xs \<in> set (function_args a) \<longrightarrow> length xs < 2 ^ 63)"

definition typed_arm :: "(string \<times> string) \<times> ('app, 'kp, 'c) builtin_handler \<Rightarrow> bool" where
  "typed_arm arm \<longleftrightarrow> (\<forall>a p st v. args_ok a \<longrightarrow> fst (snd arm a p st) = OutcomeOk v \<longrightarrow> jv_ok v)"

lemma typed_pure: "(\<And>a v. args_ok a \<Longrightarrow> f a = OutcomeOk v \<Longrightarrow> jv_ok v) \<Longrightarrow> typed_arm (k, pure_fn f)"
  by (simp add: typed_arm_def pure_fn_def)

lemma typed_read: "(\<And>a p st v. args_ok a \<Longrightarrow> f a p st = OutcomeOk v \<Longrightarrow> jv_ok v) \<Longrightarrow> typed_arm (k, read_fn f)"
  by (simp add: typed_arm_def read_fn_def)

lemma wrap_OutcomeOk [simp]: "wrap r = OutcomeOk v \<longleftrightarrow> r = Inr v"
  by (cases r) auto

lemma arg_then_InrE:
  assumes "arg_then r f = Inr v"
  obtains x it where "r = (Inr x, it)" and "f x it = Inr v"
  using assms by (auto simp: arg_then_def split: prod.splits sum.splits)

lemma args_next_InrD: "args_next de f it = (Inr x, it') \<Longrightarrow> \<exists>v. it = v # it' \<and> de v = Some x"
  by (auto simp: args_next_def args_deserialize_def split: list.splits option.splits)

lemma map_sum_InrE:
  assumes "map_sum f g r = Inr v"
  obtains x where "r = Inr x" and "v = g x"
  using assms by (cases r) auto

lemma binary_OkD:
  assumes "binary de1 de2 ser a f = OutcomeOk v"
  shows "\<exists>v1 v2 x y out. function_args a = [v1, v2] \<and> de1 v1 = Some x \<and> de2 v2 = Some y \<and> f x y = Inr out \<and> v = ser out"
proof -
  obtain v1 v2 where a: "function_args a = [v1, v2]"
    using assms by (auto simp: binary_def numeral_2_eq_2 length_Suc_conv split: if_splits)
  with assms show ?thesis by (auto simp: binary_def split: option.splits elim!: map_sum_InrE)
qed

lemma unary_OkD:
  assumes "unary de ser a f = OutcomeOk v"
  shows "\<exists>v1 x out. function_args a = [v1] \<and> de v1 = Some x \<and> f x = Inr out \<and> v = ser out"
proof -
  obtain v1 where a: "function_args a = [v1]"
    using assms by (auto simp: unary_def length_Suc_conv split: if_splits)
  with assms show ?thesis by (auto simp: unary_def split: option.splits elim!: map_sum_InrE)
qed

lemma de_i64_ok: "de_i64 v = Some n \<Longrightarrow> i64_ok n"
  by (cases v) (auto simp: i64_defs split: if_splits)

lemma i64_jv_ok: "i64_ok n \<Longrightarrow> jv_ok (JInt n)"
  by (simp add: i64_defs)

lemma ok_or_InrD: "ok_or msg r = Inr x \<Longrightarrow> r = Some x"
  by (cases r) auto

lemma strings_json_ok [simp]: "jv_ok (strings_json xs)"
  by (simp add: strings_json_def list_all_iff)

lemma typed_i64:
  assumes "\<And>x y out. i64_ok x \<Longrightarrow> i64_ok y \<Longrightarrow> f x y = Inr out \<Longrightarrow> jv_ok (ser out)"
  shows "typed_arm (k, i64_binary f ser)"
  unfolding i64_binary_def using assms by (intro typed_pure) (blast dest: binary_OkD de_i64_ok)

lemma typed_set: "typed_arm (k, set_binary D f)"
  unfolding set_binary_def by (intro typed_pure) (auto dest!: binary_OkD)

lemma math_results_ok:
  "i64_ok x \<Longrightarrow> i64_ok y \<Longrightarrow> math_add x y = Inr n \<Longrightarrow> i64_ok n"
  "i64_ok x \<Longrightarrow> i64_ok y \<Longrightarrow> math_sub x y = Inr n \<Longrightarrow> i64_ok n"
  "i64_ok x \<Longrightarrow> i64_ok y \<Longrightarrow> math_mul x y = Inr n \<Longrightarrow> i64_ok n"
  "i64_ok x \<Longrightarrow> i64_ok y \<Longrightarrow> math_div x y = Inr n \<Longrightarrow> i64_ok n"
  "i64_ok x \<Longrightarrow> i64_ok y \<Longrightarrow> math_rem x y = Inr n \<Longrightarrow> i64_ok n"
  "i64_ok x \<Longrightarrow> i64_ok y \<Longrightarrow> math_cmp x y = Inr n \<Longrightarrow> i64_ok n"
  by (auto simp: math_add_def math_sub_def math_mul_def math_div_def math_rem_def checked_div_def checked_rem_def
      sdiv_smod_ok split: sum.splits if_splits dest!: ok_or_InrD i64_checked_SomeD) (auto simp: math_cmp_def i64_defs)

lemma pow_loop_ok: "pow_loop acc base e = Some n \<Longrightarrow> i64_ok n"
proof (induction acc base e arbitrary: n rule: pow_loop.induct)
  case (1 acc base e)
  show ?case
  proof (cases "e \<le> 1")
    case True
    with 1(2) show ?thesis by (subst (asm) pow_loop.simps) (auto dest: i64_checked_SomeD)
  next
    case False
    with 1(2) obtain acc' base' where "(if odd e then i64_checked (acc * base) else Some acc) = Some acc'"
        "i64_checked (base * base) = Some base'" "pow_loop acc' base' (e div 2) = Some n"
      by (subst (asm) pow_loop.simps) (auto simp: bind_eq_Some_conv simp del: split_paired_Ex)
    with 1(1) False show ?thesis by blast
  qed
qed

lemma math_pow_ok: "math_pow x e = Inr n \<Longrightarrow> i64_ok n"
  by (auto simp: math_pow_def checked_pow_def i64_defs split: if_splits dest!: ok_or_InrD pow_loop_ok)

lemma ilog_loop_le: "1 < base \<Longrightarrow> 1 \<le> r \<Longrightarrow> int (ilog_loop base r 0) < r"
proof -
  assume base: "1 < base" "1 \<le> r"
  have "int n < 2 ^ n" for n by (metis less_exp of_nat_less_iff of_nat_numeral of_nat_power)
  moreover have "(2::int) ^ ilog_loop base r 0 \<le> base ^ ilog_loop base r 0" using base by (intro power_mono) auto
  moreover have "base ^ ilog_loop base r 0 \<le> r" using ilog_loop_bounds [OF base, of 0] by simp
  ultimately show ?thesis by (meson less_le_trans order.trans)
qed

lemma math_log_ok: "i64_ok y \<Longrightarrow> math_log x y = Inr n \<Longrightarrow> jv_ok (JInt (int n))"
  using ilog_loop_le [of x y]
  by (auto simp: math_log_def checked_ilog_def i64_defs split: if_splits dest!: ok_or_InrD)

lemma sum_from_ok: "i64_ok acc \<Longrightarrow> sum_from acc xs = Some n \<Longrightarrow> i64_ok n"
  by (induction xs arbitrary: acc) (auto simp: bind_eq_Some_conv dest!: i64_checked_SomeD)

lemma array_sum_ok: "array_sum xs = Inr n \<Longrightarrow> i64_ok n"
  using sum_from_ok [of 0 xs n] by (auto simp: array_sum_def i64_defs dest!: ok_or_InrD)

lemmas math_jv_ok = math_results_ok [THEN i64_jv_ok] math_pow_ok [THEN i64_jv_ok]

lemma math_arms_typed: "list_all typed_arm (math_arms D)"
proof -
  have sum: "jv_ok v" if "unary (de_vec de_i64) JInt a array_sum = OutcomeOk v" for a v
    using that by (auto dest!: unary_OkD array_sum_ok intro: i64_jv_ok simp del: jv_ok.simps(1))
  have slice: "jv_ok v" if "args_ok a" "the (array_slice D (function_args a)) = Inr v" for a v
  proof -
    have "array_slice D (function_args a) = Some (Inr v)" using that(2) array_slice_total [of D "function_args a"] by auto
    then show ?thesis using that(1)
      by (auto simp: array_slice_def slice_index_def args_ok_def list_all_iff split: list.splits jvalue.splits option.splits if_splits
          dest!: in_set_takeD in_set_dropD)
  qed
  have len: "jv_ok v" if "args_ok a" "array_length (function_args a) = Inr v" for a v
    using that by (auto simp: array_length_def args_ok_def split: list.splits jvalue.splits)
  show ?thesis
    unfolding math_arms_def list.pred_inject
    by (intro conjI typed_i64 typed_set typed_pure)
      (auto simp: i64_jv_ok fmul_floor_def f64_floor_i64_ok sum slice len
        intro: math_jv_ok math_log_ok dest!: binary_OkD unary_OkD simp del: jv_ok.simps(1))
qed

lemma json_bytes_ok [simp]: "jv_ok (json_bytes b)"
proof -
  have "- 9223372036854775808 \<le> uint x \<and> uint x < 18446744073709551616" for x :: "8 word"
  proof -
    have "uint x < 256" using uint_bounded [of x] by simp
    with uint_nonnegative [of x] show ?thesis by linarith
  qed
  then show ?thesis by (simp add: json_bytes_def list_all_iff)
qed

lemma list_all_update: "list_all (\<lambda>kv. P (snd kv)) kvs \<Longrightarrow> P v \<Longrightarrow> list_all (\<lambda>kv. P (snd kv)) (AList.update k v kvs)"
  by (induction kvs) auto

lemma insert_pairs_ok:
  "insert_pairs D obj vs = Inr obj' \<Longrightarrow> list_all (\<lambda>kv. jv_ok (snd kv)) obj \<Longrightarrow> list_all jv_ok vs \<Longrightarrow>
   list_all (\<lambda>kv. jv_ok (snd kv)) obj'"
  by (induction D obj vs rule: insert_pairs.induct) (auto simp: list_all_update split: jvalue.splits)

lemma concat_from_ok:
  "concat_from i acc vs = Inr out \<Longrightarrow> list_all jv_ok acc \<Longrightarrow> list_all jv_ok vs \<Longrightarrow> list_all jv_ok out"
  by (induction i acc vs rule: concat_from.induct) (auto split: jvalue.splits)

lemma op_arms_typed: "list_all typed_arm (op_arms D)"
proof -
  have len: "jv_ok v" if "args_ok a" "array_length (function_args a) = Inr v" for a v
    using that by (auto simp: array_length_def args_ok_def split: list.splits jvalue.splits)
  have conc: "jv_ok v" if "args_ok a" "op_concat (function_args a) = Inr v" for a v
    using that by (auto simp: op_concat_def args_ok_def concat_from_ok elim!: map_sum_InrE)
  have same: "jv_ok v" if "args_ok a" "op_identity (function_args a) = OutcomeOk v" for a v
    using that by (auto simp: op_identity_def args_ok_def split: if_splits list.splits)
  have sha: "jv_ok v" if "sha256_string D vs = Inr v" for vs v
    using that by (auto simp: sha256_string_def Let_def elim!: arg_then_InrE split: if_splits)
  have b58: "string_to_b58 D vs = Inr v \<Longrightarrow> jv_ok v" "string_from_b58 D vs = Inr v \<Longrightarrow> jv_ok v"
      "bytes_from_b58 D vs = Inr v \<Longrightarrow> jv_ok v" "bytes_to_b58 D vs = Inr v \<Longrightarrow> jv_ok v" for vs v
    by (auto simp: string_to_b58_def string_from_b58_def bytes_from_b58_def bytes_to_b58_def and_then_def
        elim!: arg_then_InrE map_sum_InrE split: sum.splits option.splits)
  have strings: "jv_ok v" if "concat_strings vs = Inr v" for vs v using that by (auto simp: concat_strings_def elim!: map_sum_InrE)
  have arr: "jv_ok (JArray (function_args a))" if "args_ok a" for a using that by (simp add: args_ok_def)
  show ?thesis
    unfolding op_arms_def list.pred_inject
    by (intro conjI typed_pure) (auto simp: debug_stringify_def arr simp del: jv_ok.simps(2) dest: len conc same sha b58 strings)
qed

lemma sig_arms_typed:
  assumes "\<And>s v. cd_parse_json (bi_codec A) s = Some v \<Longrightarrow> jv_ok v"
  shows "list_all typed_arm (sig_arms A)"
proof -
  have sign: "jv_ok v" if "sig_sign D C e l k a = Inr v" for D C e l k a v
  proof -
    have "jv_ok (jerror_value r err)" for r err by (cases err) simp_all
    with that show ?thesis by (auto simp: sig_sign_def sig_answer_def split: sum.splits option.splits)
  qed
  have objs: "jv_ok v" if "args_ok a" "json_obj D a = Inr v \<or> json_put a = Inr v \<or> json_puts D a = Inr v" for D a v
  proof -
    have vs: "list_all jv_ok (function_args a)" using that(1) by (simp add: args_ok_def)
    have map: "list_all (\<lambda>kv. jv_ok (snd kv)) m" if "de_map w = Some m" "jv_ok w" for w m using that by (cases w) auto
    show ?thesis using that(2) vs map insert_pairs_ok [of D]
      by (auto simp: json_obj_def json_put_def json_puts_def de_value_def list_all_update
          elim!: arg_then_InrE map_sum_InrE dest!: args_next_InrD)
  qed
  show ?thesis
    unfolding sig_arms_def list.pred_inject
    by (intro conjI typed_pure typed_read)
      (auto simp: sig_verify_def sig_get_peer_id_def json_parse_def assms elim!: arg_then_InrE split: option.splits
        dest: sign objs dest!: unary_OkD)
qed

lemma pure_service_arms:
  assumes "sid \<in> {''op'', ''debug'', ''math'', ''cmp'', ''array'', ''sig'', ''json''}"
  shows "((sid, f), h) \<notin> set (peer_arms A env)" and "((sid, f), h) \<notin> set (service_arms A env)" and "((sid, f), h) \<notin> set (stat_arms A env)"
  using assms unfolding insert_iff empty_iff by (elim disjE FalseE; simp add: peer_arms_def service_arms_def stat_arms_def)+


subsection \<open>Scripts, from the caller to the storage\<close>


subsection \<open>Concrete calls\<close>

definition sample_builtin_api :: "(nat, nat, nat, string) builtin_api" where
  "sample_builtin_api = \<lparr>bi_codec = sample_codec, bi_srv = sample_services, bi_crypto = sample_crypto, bi_public = (\<lambda>k. k),
     bi_sign_error = JErrorText, bi_os = sample_os, bi_peer_from_str = (\<lambda>_. None), bi_show_multiaddr = show_nat,
     bi_parse_multiaddr = (\<lambda>_. None), bi_de_config = (\<lambda>_. None), bi_config_json = (\<lambda>_. Inr JNull), bi_inner_config_json = (\<lambda>_. JNull),
     bi_settings_json = (\<lambda>_. Inr JNull), bi_default_config = (\<lambda>n. big_config), bi_de_blueprint = (\<lambda>_. None),
     bi_add_blueprint_json = (\<lambda>_. Inr JNull), bi_de_dependency = (\<lambda>_. None), bi_blueprint_json = (\<lambda>_. Inr JNull),
     bi_debug_blueprint = (\<lambda>_. []), bi_bytesize = (\<lambda>_. Inr 0), bi_pretty = show_nat, bi_report = (\<lambda>_. []), bi_memory_stats = (\<lambda>_. [])\<rparr>"

definition sample_builtin_env :: builtin_env where
  "sample_builtin_env = \<lparr>be_now_ms = 5, be_now_sec = 0, be_uuid = ''u'', be_is_connected = (\<lambda>_. False), be_connect = (\<lambda>_. False),
     be_get_contact = (\<lambda>_. None), be_neighborhood = (\<lambda>_ _. Inr []), be_storage_alive = True, be_removed = Inr True, be_scripts = Inr [],
     be_random = (\<lambda>n. n), be_stats = None\<rparr>"

definition sample_builtins :: "(nat, nat, nat) builtins" where
  "sample_builtins = \<lparr>bi_script_commands = [], bi_management_peer_id = 1, bi_local_peer_id = 3, bi_root_keypair = 7,
     bi_services = sample_node, bi_node_info = \<lparr>external_addresses = [], node_version = ''0'', air_version = ''0''\<rparr>,
     custom_services = [], bi_captured = 0, bi_vault_dir = (True, [''v'']), bi_files = sample_fs\<rparr>"

definition sample_args :: "string \<Rightarrow> string \<Rightarrow> jvalue list \<Rightarrow> args" where
  "sample_args s f vs = \<lparr>service_id = s, function_name = f, function_args = vs, tetraplets = []\<rparr>"

definition counting :: "(nat, nat) host_function" where
  "counting a p s = (OutcomeOk (JInt (int (snd s))), fst s, Suc (snd s))"

definition sample_call_params :: particle_params where
  "sample_call_params = \<lparr>pp_id = ''p'', pp_init_peer_id = 5, pp_timestamp = 0, pp_ttl = 0, pp_script = [], pp_signature = []\<rparr>"

lemma sample_custom_arm:
  "map_of (builtin_arms sample_builtin_api sample_builtin_env :: ((string \<times> string) \<times> (nat, nat, nat) builtin_handler) list) (''counter'', f) = None"
  by (simp add: builtin_arms_def peer_arms_def service_arms_def op_arms_def stat_arms_def math_arms_def sig_arms_def)

theorem builtins_not_shadowed_witness:
  "fst (builtins_call_all sample_builtin_api sample_builtin_env (sample_args ''counter'' ''next'' []) sample_call_params
     (builtins_extend ''counter'' [(''next'', counting)] None sample_builtins)) = OutcomeOk (JInt 0)"
proof -
  let ?st = "builtins_extend ''counter'' [(''next'', counting)] None sample_builtins" and ?a = "sample_args ''counter'' ''next'' []"
  have "custom_function ?a ?st = Some counting"
    by (simp add: custom_function_def builtins_extend_def sample_args_def update_conv')
  with builtins_not_shadowed [of sample_builtin_api sample_builtin_env ?a sample_call_params ?st] sample_custom_arm
  show ?thesis by (simp add: sample_args_def counting_def sample_builtins_def builtins_extend_def)
qed

theorem custom_service_registered_witness:
  "let st1 = builtins_extend ''counter'' [] (Some counting) sample_builtins; (removed, st2) = builtins_remove ''counter'' st1 in
     custom_function (sample_args ''counter'' ''any'' []) st1 = Some counting \<and> removed = Some ([], Some counting)"
proof -
  have "service_id (sample_args ''counter'' ''any'' []) = ''counter''" "map_of (custom_services sample_builtins) ''counter'' = None"
    by (simp_all add: sample_args_def sample_builtins_def)
  note reg = custom_service_registered [where a = "sample_args ''counter'' ''any'' []", OF sample_custom_arm this,
      where fs = "[]" and unhandled = "Some counting" and p = sample_call_params]
  then show ?thesis by (auto simp: Let_def split: prod.splits)
qed



end
