(* ===== verification/Service_Metrics.thy ===== *)
theory Service_Metrics
  imports Complex_Main Prelude
begin

section \<open>Metrics of services\<close>

text \<open>
  \<^verbatim>\<open>crates/peer-metrics/src/services_metrics/\<close>: the statistics served by the \<^verbatim>\<open>stat\<close> built-ins, the
  messages to the metrics backend, its loop, and the counters exported to Prometheus. A histogram
  is the list of its observations, a counter or gauge a 64-bit word. The arithmetic of \<^verbatim>\<open>f64\<close> is the
  arithmetic of the type parameter \<open>'f\<close>; \<open>of_u64\<close> is the cast \<^verbatim>\<open>as f64\<close>.
\<close>

subsection \<open>Statistics kept in memory\<close>

record 'f numeric_series =
  ns_series :: "'f list"
  ns_total :: 'f
  ns_avg :: 'f

definition numeric_series_default :: "'f::zero numeric_series" where
  "numeric_series_default = \<lparr>ns_series = [], ns_total = 0, ns_avg = 0\<rparr>"

text \<open>\<^verbatim>\<open>pop_front\<close> when full, then \<^verbatim>\<open>push_back\<close>.\<close>

definition push_bounded :: "nat \<Rightarrow> 'a \<Rightarrow> 'a list \<Rightarrow> 'a list" where
  "push_bounded cap v xs = (if length xs \<ge> cap then drop 1 xs else xs) @ [v]"

definition numeric_update ::
    "(u64 \<Rightarrow> 'f) \<Rightarrow> nat \<Rightarrow> 'f::{plus,times,inverse,one} \<Rightarrow> u64 \<Rightarrow> 'f numeric_series \<Rightarrow> 'f numeric_series" where
  "numeric_update of_u64 cap v n s =
     s\<lparr>ns_series := push_bounded cap v (ns_series s),
       ns_total := ns_total s + v,
       ns_avg := (ns_avg s * of_u64 n + v) / (of_u64 n + 1)\<rparr>"

datatype 'f call_stats = CallSuccess 'f 'f u64 | CallFail u64

record 'f stats =
  st_success :: u64
  st_failed :: u64
  st_memory_deltas :: "'f numeric_series"
  st_call_time :: "'f numeric_series"
  st_timestamps :: "u64 list"

definition stats_default :: "'f::zero stats" where
  "stats_default = \<lparr>st_success = 0, st_failed = 0, st_memory_deltas = numeric_series_default,
     st_call_time = numeric_series_default, st_timestamps = []\<rparr>"

fun stats_update ::
    "(u64 \<Rightarrow> 'f) \<Rightarrow> nat \<Rightarrow> 'f::{plus,times,inverse,one} call_stats \<Rightarrow> 'f stats \<Rightarrow> 'f stats" where
  "stats_update of_u64 cap (CallSuccess memory_delta call_time timestamp) s =
     s\<lparr>st_memory_deltas := numeric_update of_u64 cap memory_delta (st_success s) (st_memory_deltas s),
       st_call_time := numeric_update of_u64 cap call_time (st_success s) (st_call_time s),
       st_success := st_success s + 1,
       st_timestamps := push_bounded cap timestamp (st_timestamps s)\<rparr>"
| "stats_update of_u64 cap (CallFail timestamp) s =
     s\<lparr>st_timestamps := push_bounded cap timestamp (st_timestamps s), st_failed := st_failed s + 1\<rparr>"

record 'f service_stat =
  ss_total :: "'f stats"
  ss_functions :: "(string \<times> 'f stats) list"

definition service_stat_default :: "'f::zero service_stat" where
  "service_stat_default = \<lparr>ss_total = stats_default, ss_functions = []\<rparr>"

record 'f metrics_builtin =
  mb_content :: "(string \<times> 'f service_stat) list"
  mb_size :: nat

definition metrics_builtin_new :: "nat \<Rightarrow> 'f metrics_builtin" where
  "metrics_builtin_new cap = \<lparr>mb_content = [], mb_size = cap\<rparr>"

definition metrics_update ::
    "(u64 \<Rightarrow> 'f::{zero,plus,times,inverse,one}) \<Rightarrow> string \<Rightarrow> string \<Rightarrow> 'f call_stats \<Rightarrow>
     'f metrics_builtin \<Rightarrow> 'f metrics_builtin" where
  "metrics_update of_u64 service_id function_name cs m =
     (let stat = (case map_of (mb_content m) service_id of None \<Rightarrow> service_stat_default | Some s \<Rightarrow> s);
          fstat = (case map_of (ss_functions stat) function_name of None \<Rightarrow> stats_default | Some s \<Rightarrow> s)
      in m\<lparr>mb_content := AList.update service_id
           (stat\<lparr>ss_functions := AList.update function_name (stats_update of_u64 (mb_size m) cs fstat) (ss_functions stat),
                 ss_total := stats_update of_u64 (mb_size m) cs (ss_total stat)\<rparr>) (mb_content m)\<rparr>)"

definition metrics_read :: "string \<Rightarrow> 'f metrics_builtin \<Rightarrow> 'f service_stat option" where
  "metrics_read service_id m = map_of (mb_content m) service_id"

subsection \<open>Memory of a service\<close>

type_synonym memory_stats = "(string \<times> nat) list"

definition get_used_memory :: "memory_stats \<Rightarrow> u64" where
  "get_used_memory stats = fold (\<lambda>(_, n) acc. acc + word_of_nat n) stats 0"

record service_memory_stat =
  sm_used :: u64
  sm_modules :: "(string \<times> u64) list"

definition service_memory_stat_new :: "memory_stats \<Rightarrow> service_memory_stat" where
  "service_memory_stat_new stats =
     fold (\<lambda>(name, n) s. \<lparr>sm_used = sm_used s + word_of_nat n,
         sm_modules = AList.update name (word_of_nat n) (sm_modules s)\<rparr>)
       stats \<lparr>sm_used = 0, sm_modules = []\<rparr>"

subsection \<open>Exported metrics\<close>

datatype service_type = BuiltinType | ServiceType "string option"

fun service_type_label :: "service_type \<Rightarrow> string" where
  "service_type_label BuiltinType = ''builtin''"
| "service_type_label (ServiceType (Some x)) = x"
| "service_type_label (ServiceType None) = ''service''"

record memory_metrics =
  mm_max :: "u64 list"
  mm_max_per_module :: "u64 list"
  mm_used :: "service_type \<Rightarrow> u64 list"
  mm_used_per_module :: "service_type \<Rightarrow> u64 list"
  mm_used_total :: "service_type \<Rightarrow> u64 option"

record 'f external_metrics =
  em_services_count :: u64
  em_creation_time :: "'f list"
  em_removal_time :: "'f list"
  em_creation_count :: u64
  em_removal_count :: u64
  em_creation_failures :: u64
  em_modules_in_services :: "nat list"
  em_call_time :: "service_type \<Rightarrow> 'f list"
  em_call_success :: "service_type \<Rightarrow> u64"
  em_call_failed :: "service_type \<Rightarrow> u64"
  em_memory :: memory_metrics

definition observe_service_max_mem :: "u64 \<Rightarrow> u64 option list \<Rightarrow> memory_metrics \<Rightarrow> memory_metrics" where
  "observe_service_max_mem default_max heaps mm =
     (let sizes = map (\<lambda>h. case h of None \<Rightarrow> default_max | Some n \<Rightarrow> n) heaps
      in mm\<lparr>mm_max_per_module := mm_max_per_module mm @ sizes, mm_max := mm_max mm @ [sum_list sizes]\<rparr>)"

definition external_observe_created :: "nat \<Rightarrow> 'f \<Rightarrow> 'f external_metrics \<Rightarrow> 'f external_metrics" where
  "external_observe_created modules_num creation_time e =
     e\<lparr>em_services_count := em_services_count e + 1,
       em_modules_in_services := em_modules_in_services e @ [modules_num],
       em_creation_count := em_creation_count e + 1,
       em_creation_time := em_creation_time e @ [creation_time]\<rparr>"

definition external_observe_removed :: "'f \<Rightarrow> 'f external_metrics \<Rightarrow> 'f external_metrics" where
  "external_observe_removed removal_time e =
     e\<lparr>em_removal_count := em_removal_count e + 1,
       em_services_count := em_services_count e - 1,
       em_removal_time := em_removal_time e @ [removal_time]\<rparr>"

subsection \<open>The handle\<close>

datatype 'f metrics_msg =
    MemoryMsg string service_type service_memory_stat
  | CallStatsMsg string string "'f call_stats"

text \<open>The handle shares the exported counters and the channel to the backend.\<close>

record 'f services_metrics =
  me_external :: "'f external_metrics option"
  me_outlet :: "'f metrics_msg list"
  me_open :: bool

definition metrics_send :: "'f metrics_msg \<Rightarrow> 'f services_metrics \<Rightarrow> 'f services_metrics" where
  "metrics_send msg m = (if me_open m then m\<lparr>me_outlet := me_outlet m @ [msg]\<rparr> else m)"

definition observe_external ::
    "('f external_metrics \<Rightarrow> 'f services_metrics \<Rightarrow> 'f services_metrics) \<Rightarrow> 'f services_metrics \<Rightarrow> 'f services_metrics" where
  "observe_external callback m = (case me_external m of None \<Rightarrow> m | Some e \<Rightarrow> callback e m)"

definition observe_builtins :: "bool \<Rightarrow> 'f \<Rightarrow> 'f services_metrics \<Rightarrow> 'f services_metrics" where
  "observe_builtins is_ok call_time =
     observe_external (\<lambda>e m. m\<lparr>me_external := Some
       (let e1 = e\<lparr>em_call_time := (em_call_time e)(BuiltinType := em_call_time e BuiltinType @ [call_time])\<rparr>
        in if is_ok
           then e1\<lparr>em_call_success := (em_call_success e1)(BuiltinType := em_call_success e1 BuiltinType + 1)\<rparr>
           else e1\<lparr>em_call_failed := (em_call_failed e1)(BuiltinType := em_call_failed e1 BuiltinType + 1)\<rparr>)\<rparr>)"

definition observe_service_call ::
    "string \<Rightarrow> string option \<Rightarrow> 'f call_stats \<Rightarrow> 'f services_metrics \<Rightarrow> 'f services_metrics" where
  "observe_service_call service_id function_name cs =
     metrics_send (CallStatsMsg service_id (case function_name of None \<Rightarrow> ''<unknown>'' | Some f \<Rightarrow> f) cs)"

definition observe_service_mem ::
    "string \<Rightarrow> service_type \<Rightarrow> service_memory_stat \<Rightarrow> 'f services_metrics \<Rightarrow> 'f services_metrics" where
  "observe_service_mem service_id ty mem = metrics_send (MemoryMsg service_id ty mem)"

definition observe_service_state ::
    "string \<Rightarrow> string \<Rightarrow> service_type \<Rightarrow> service_memory_stat \<Rightarrow> 'f call_stats \<Rightarrow>
     'f services_metrics \<Rightarrow> 'f services_metrics" where
  "observe_service_state service_id function_name ty mem cs m =
     observe_service_call service_id (Some function_name) cs
       (observe_external (\<lambda>e m. observe_service_mem service_id ty mem (m\<lparr>me_external := Some
          (let e1 = (case cs of
                CallSuccess _ call_time _ \<Rightarrow> e\<lparr>em_call_time := (em_call_time e)(ty := em_call_time e ty @ [call_time])\<rparr>
              | CallFail _ \<Rightarrow> e)
           in e1\<lparr>em_call_success := (em_call_success e1)(ty := em_call_success e1 ty + 1)\<rparr>)\<rparr>)) m)"

definition observe_service_state_failed ::
    "string \<Rightarrow> string option \<Rightarrow> service_type \<Rightarrow> 'f call_stats \<Rightarrow> 'f services_metrics \<Rightarrow> 'f services_metrics" where
  "observe_service_state_failed service_id function_name ty cs m =
     observe_external (\<lambda>e m. m\<lparr>me_external := Some
         (e\<lparr>em_call_failed := (em_call_failed e)(ty := em_call_failed e ty + 1)\<rparr>)\<rparr>)
       (observe_service_call service_id function_name cs m)"

definition observe_created ::
    "string \<Rightarrow> service_type \<Rightarrow> service_memory_stat \<Rightarrow> 'f \<Rightarrow> 'f services_metrics \<Rightarrow> 'f services_metrics" where
  "observe_created service_id ty mem creation_time =
     observe_external (\<lambda>e m. observe_service_mem service_id ty mem
       (m\<lparr>me_external := Some (external_observe_created (length (sm_modules mem)) creation_time e)\<rparr>))"

definition observe_removed :: "'f \<Rightarrow> 'f services_metrics \<Rightarrow> 'f services_metrics" where
  "observe_removed removal_time =
     observe_external (\<lambda>e m. m\<lparr>me_external := Some (external_observe_removed removal_time e)\<rparr>)"

definition observe_service_config :: "u64 \<Rightarrow> u64 option list \<Rightarrow> 'f services_metrics \<Rightarrow> 'f services_metrics" where
  "observe_service_config max_heap heaps =
     observe_external (\<lambda>e m. m\<lparr>me_external := Some
       (e\<lparr>em_memory := observe_service_max_mem max_heap heaps (em_memory e)\<rparr>)\<rparr>)"

subsection \<open>The backend\<close>

text \<open>The memory map exists only with exported metrics; the builtin statistics are shared with the
  handle.\<close>

type_synonym memory_map = "(string \<times> service_type \<times> service_memory_stat) list"

record 'f metrics_backend =
  be_memory :: "memory_map option"
  be_builtin :: "'f metrics_builtin"
  be_exported :: memory_metrics

definition backend_observe_mem :: "string \<Rightarrow> service_type \<Rightarrow> service_memory_stat \<Rightarrow> memory_map \<Rightarrow> memory_map" where
  "backend_observe_mem service_id ty mem all = AList.update service_id (ty, mem) all"

fun store_loop :: "memory_map \<Rightarrow> u64 \<Rightarrow> memory_metrics \<Rightarrow> u64 \<times> memory_metrics" where
  "store_loop [] unaliased mm = (unaliased, mm)"
| "store_loop ((_, ty, mem) # rest) unaliased mm =
     (let mm1 = mm\<lparr>mm_used := (mm_used mm)(ty := mm_used mm ty @ [sm_used mem]),
                   mm_used_per_module := (mm_used_per_module mm)(ty := mm_used_per_module mm ty @ map snd (sm_modules mem))\<rparr>
      in case ty of
           ServiceType (Some _) \<Rightarrow>
             store_loop rest unaliased (mm1\<lparr>mm_used_total := (mm_used_total mm1)(ty \<mapsto> sm_used mem)\<rparr>)
         | _ \<Rightarrow> store_loop rest (unaliased + sm_used mem) mm1)"

definition store_service_mem :: "memory_map \<Rightarrow> memory_metrics \<Rightarrow> memory_metrics" where
  "store_service_mem all mm =
     (let (unaliased, mm1) = store_loop all 0 mm
      in mm1\<lparr>mm_used_total := (mm_used_total mm1)(ServiceType None \<mapsto> unaliased)\<rparr>)"

datatype 'f backend_input = MetricsMsg "'f metrics_msg" | MetricsTimer

fun metrics_backend_step ::
    "(u64 \<Rightarrow> 'f::{zero,plus,times,inverse,one}) \<Rightarrow> 'f backend_input \<Rightarrow> 'f metrics_backend \<Rightarrow> 'f metrics_backend" where
  "metrics_backend_step of_u64 (MetricsMsg (MemoryMsg i ty mem)) b =
     b\<lparr>be_memory := map_option (backend_observe_mem i ty mem) (be_memory b)\<rparr>"
| "metrics_backend_step of_u64 (MetricsMsg (CallStatsMsg i f cs)) b =
     b\<lparr>be_builtin := metrics_update of_u64 i f cs (be_builtin b)\<rparr>"
| "metrics_backend_step of_u64 MetricsTimer b =
     (case be_memory b of
        None \<Rightarrow> b
      | Some all \<Rightarrow> b\<lparr>be_exported := store_service_mem all (be_exported b)\<rparr>)"

subsection \<open>Totals agree with the functions\<close>

definition stat_ok :: "'f service_stat \<Rightarrow> bool" where
  "stat_ok s \<longleftrightarrow> distinct (map fst (ss_functions s)) \<and>
     st_success (ss_total s) = assoc_sum st_success (ss_functions s) \<and>
     st_failed (ss_total s) = assoc_sum st_failed (ss_functions s)"

fun is_success :: "'f call_stats \<Rightarrow> bool" where
  "is_success (CallSuccess _ _ _) = True"
| "is_success (CallFail _) = False"

lemma stats_update_counts [simp]:
  "st_success (stats_update c cap cs s) = st_success s + (if is_success cs then 1 else 0)"
  "st_failed (stats_update c cap cs s) = st_failed s + (if is_success cs then 0 else 1)"
  by (cases cs; simp)+

lemma stat_ok_update:
  fixes g :: "'f::{zero,plus,times,inverse,one} stats \<Rightarrow> u64"
  assumes "distinct (map fst xs)" and "g stats_default = 0" and "g (stats_update c cap cs s0) = g s0 + d"
    and "s0 = (case map_of xs f of None \<Rightarrow> stats_default | Some s \<Rightarrow> s)"
  shows "assoc_sum g (AList.update f (stats_update c cap cs s0) xs) = assoc_sum g xs + d"
proof (cases "map_of xs f")
  case None
  with assms show ?thesis by (simp add: assoc_sum_update_None)
next
  case (Some s)
  with assms assoc_sum_update_Some [OF assms(1) Some, of g "stats_update c cap cs s0"] show ?thesis
    by (simp add: algebra_simps)
qed

lemma metrics_update_ok:
  fixes m :: "'f::{zero,plus,times,inverse,one} metrics_builtin"
  assumes "\<And>i s. metrics_read i m = Some s \<Longrightarrow> stat_ok s"
    and "metrics_read i (metrics_update c sid f cs m) = Some s"
  shows "stat_ok s"
proof (cases "i = sid")
  case False
  with assms show ?thesis by (simp add: metrics_read_def metrics_update_def Let_def map_of_AList_update)
next
  case True
  define s0 where "s0 = (case map_of (mb_content m) sid of None \<Rightarrow> service_stat_default | Some s \<Rightarrow> s)"
  have ok: "stat_ok s0"
    using assms(1) [of sid]
    by (cases "map_of (mb_content m) sid")
      (simp_all add: s0_def stat_ok_def service_stat_default_def stats_default_def metrics_read_def)
  let ?f0 = "case map_of (ss_functions s0) f of None \<Rightarrow> stats_default | Some s \<Rightarrow> s"
  have s: "s = s0\<lparr>ss_functions := AList.update f (stats_update c (mb_size m) cs ?f0) (ss_functions s0),
      ss_total := stats_update c (mb_size m) cs (ss_total s0)\<rparr>"
    using assms(2) True by (simp add: metrics_read_def metrics_update_def Let_def map_of_AList_update s0_def)
  have d: "distinct (map fst (ss_functions s0))" using ok by (simp add: stat_ok_def)
  from ok show ?thesis
    by (simp add: s stat_ok_def distinct_AList_update
        stat_ok_update [where g = st_success, OF d _ stats_update_counts(1) refl]
        stat_ok_update [where g = st_failed, OF d _ stats_update_counts(2) refl] stats_default_def)
qed

lemma metrics_step_ok:
  assumes "\<And>i s. metrics_read i (be_builtin b) = Some s \<Longrightarrow> stat_ok s"
    and "metrics_read i (be_builtin (metrics_backend_step c input b)) = Some s"
  shows "stat_ok s"
  using assms metrics_update_ok [OF assms(1)]
  by (cases "(c, input, b)" rule: metrics_backend_step.cases) (auto split: option.splits)

lemma metrics_run_ok:
  "(\<And>i s. metrics_read i (be_builtin b) = Some s \<Longrightarrow> stat_ok s) \<Longrightarrow>
   metrics_read i (be_builtin (fold (metrics_backend_step c) inputs b)) = Some s \<Longrightarrow> stat_ok s"
proof (induction inputs arbitrary: b)
  case (Cons input inputs)
  have "stat_ok s"
  proof (rule Cons.IH)
    show "stat_ok s'"
      if "metrics_read j (be_builtin (metrics_backend_step c input b)) = Some s'" for j s'
      using metrics_step_ok [OF Cons.prems(1) that] by simp
  qed (use Cons.prems(2) in simp)
  then show ?case by simp
qed simp

subsection \<open>Statistics are histories\<close>

definition metrics_backend_new :: "bool \<Rightarrow> nat \<Rightarrow> memory_metrics \<Rightarrow> 'f metrics_backend" where
  "metrics_backend_new exporting cap mm =
     \<lparr>be_memory = (if exporting then Some [] else None), be_builtin = metrics_builtin_new cap, be_exported = mm\<rparr>"

fun calls_of :: "string \<Rightarrow> 'f backend_input list \<Rightarrow> (string \<times> 'f call_stats) list" where
  "calls_of sid [] = []"
| "calls_of sid (MetricsMsg (CallStatsMsg i f cs) # inputs) =
     (if i = sid then (f, cs) # calls_of sid inputs else calls_of sid inputs)"
| "calls_of sid (_ # inputs) = calls_of sid inputs"

lemma calls_of_append: "calls_of sid (xs @ ys) = calls_of sid xs @ calls_of sid ys"
  by (induction sid xs rule: calls_of.induct) auto

definition stat_of :: "'f::zero metrics_builtin \<Rightarrow> string \<Rightarrow> 'f service_stat" where
  "stat_of m sid = (case metrics_read sid m of None \<Rightarrow> service_stat_default | Some s \<Rightarrow> s)"

definition function_stat :: "'f::zero service_stat \<Rightarrow> string \<Rightarrow> 'f stats" where
  "function_stat s f = (case map_of (ss_functions s) f of None \<Rightarrow> stats_default | Some t \<Rightarrow> t)"

lemma stat_of_update:
  "ss_total (stat_of (metrics_update c i f cs m) sid) =
     (if sid = i then stats_update c (mb_size m) cs (ss_total (stat_of m sid)) else ss_total (stat_of m sid))"
  "function_stat (stat_of (metrics_update c i f cs m) sid) g =
     (if sid = i \<and> g = f then stats_update c (mb_size m) cs (function_stat (stat_of m sid) g)
      else function_stat (stat_of m sid) g)"
  "metrics_read sid (metrics_update c i f cs m) = None \<longleftrightarrow> sid \<noteq> i \<and> metrics_read sid m = None"
  "mb_size (metrics_update c i f cs m) = mb_size m"
  by (auto simp: stat_of_def function_stat_def metrics_update_def metrics_read_def Let_def map_of_AList_update
      split: option.splits)

lemma metrics_history:
  fixes c :: "u64 \<Rightarrow> 'f::{zero,plus,times,inverse,one}" and ex cap mm
  defines "run inputs \<equiv> be_builtin (fold (metrics_backend_step c) inputs (metrics_backend_new ex cap mm))"
  shows "ss_total (stat_of (run inputs) sid) = fold (stats_update c cap) (map snd (calls_of sid inputs)) stats_default \<and>
    function_stat (stat_of (run inputs) sid) f =
      fold (stats_update c cap) (map snd (filter (\<lambda>(g, _). g = f) (calls_of sid inputs))) stats_default \<and>
    (metrics_read sid (run inputs) = None \<longleftrightarrow> calls_of sid inputs = []) \<and> mb_size (run inputs) = cap"
proof (induction inputs rule: rev_induct)
  case Nil
  then show ?case
    by (simp add: run_def metrics_backend_new_def metrics_builtin_new_def stat_of_def metrics_read_def
        service_stat_default_def function_stat_def)
next
  case (snoc x xs)
  show ?case
  proof (cases "\<exists>i g cs. x = MetricsMsg (CallStatsMsg i g cs)")
    case True
    then obtain i g cs where x: "x = MetricsMsg (CallStatsMsg i g cs)" by blast
    then have "run (xs @ [x]) = metrics_update c i g cs (run xs)" by (simp add: run_def)
    with snoc x show ?thesis by (auto simp: stat_of_update calls_of_append)
  next
    case False
    then have "run (xs @ [x]) = run xs" "calls_of sid [x] = []"
      by (cases "(c, x, fold (metrics_backend_step c) xs (metrics_backend_new ex cap mm))"
          rule: metrics_backend_step.cases; auto simp: run_def split: option.splits)+
    with snoc show ?thesis by (simp add: calls_of_append)
  qed
qed

lemma fold_push_bounded: "fold (push_bounded cap) vs [] = drop (length vs - max 1 cap) vs"
proof (induction vs rule: rev_induct)
  case (snoc v vs)
  then show ?case
    by (cases "length vs < max 1 cap") (auto simp: push_bounded_def max_def not_less Suc_diff_le split: if_splits)
qed simp

fun call_timestamp :: "'f call_stats \<Rightarrow> u64" where
  "call_timestamp (CallSuccess _ _ t) = t"
| "call_timestamp (CallFail t) = t"

lemma stats_timestamps:
  "st_timestamps (fold (stats_update c cap) css s) = fold (push_bounded cap) (map call_timestamp css) (st_timestamps s)"
proof (induction css arbitrary: s)
  case (Cons cs css)
  then show ?case by (cases cs) simp_all
qed simp

lemma stats_counts:
  "st_success (fold (stats_update c cap) css s) = st_success s + word_of_nat (length (filter is_success css))"
  "st_failed (fold (stats_update c cap) css s) = st_failed s + word_of_nat (length (filter (\<lambda>cs. \<not> is_success cs) css))"
  by (induction css arbitrary: s) simp_all

subsection \<open>Properties\<close>

text \<open>C36 [service_stats_are_histories]: Whatever the metrics backend receives, the statistics of a service are those of the calls
  reported for it, in order: the totals over all of them, each function's over the calls of that
  function, and the stored timestamps are the last ones, at least one and at most the configured
  number.\<close>

theorem service_stats_are_histories:
  assumes "metrics_read sid (be_builtin (fold (metrics_backend_step c) inputs (metrics_backend_new ex cap mm))) = Some s"
  shows "ss_total s = fold (stats_update c cap) (map snd (calls_of sid inputs)) stats_default \<and>
    (\<forall>f. function_stat s f =
       fold (stats_update c cap) (map snd (filter (\<lambda>(g, _). g = f) (calls_of sid inputs))) stats_default) \<and>
    st_timestamps (ss_total s) =
      drop (length (calls_of sid inputs) - max 1 cap) (map (call_timestamp \<circ> snd) (calls_of sid inputs))"
proof -
  have s: "stat_of (be_builtin (fold (metrics_backend_step c) inputs (metrics_backend_new ex cap mm))) sid = s"
    using assms by (simp add: stat_of_def)
  have 1: "ss_total s = fold (stats_update c cap) (map snd (calls_of sid inputs)) stats_default"
    using metrics_history [of c inputs ex cap mm sid] unfolding s by blast
  have 2: "function_stat s f = fold (stats_update c cap) (map snd (filter (\<lambda>(g, _). g = f) (calls_of sid inputs))) stats_default" for f
    using metrics_history [of c inputs ex cap mm sid f] unfolding s by blast
  have "st_timestamps (ss_total s) = fold (push_bounded cap) (map call_timestamp (map snd (calls_of sid inputs))) []"
    unfolding 1 stats_timestamps by (simp add: stats_default_def)
  with 1 2 show ?thesis by (simp add: fold_push_bounded)
qed

definition u64_real :: "u64 \<Rightarrow> real" where
  "u64_real n = real (unat n)"

definition sample_calls :: "real backend_input list" where
  "sample_calls =
     [MetricsMsg (CallStatsMsg ''s'' ''f'' (CallSuccess 10 2 100)), MetricsTimer,
      MetricsMsg (CallStatsMsg ''s'' ''g'' (CallFail 101)),
      MetricsMsg (MemoryMsg ''s'' (ServiceType None) \<lparr>sm_used = 5, sm_modules = []\<rparr>),
      MetricsMsg (CallStatsMsg ''s'' ''f'' (CallSuccess 20 4 102))]"

definition sample_memory :: memory_metrics where
  "sample_memory = \<lparr>mm_max = [], mm_max_per_module = [], mm_used = (\<lambda>_. []), mm_used_per_module = (\<lambda>_. []),
     mm_used_total = (\<lambda>_. None)\<rparr>"

theorem service_stats_are_histories_witness:
  "\<exists>s. metrics_read ''s'' (be_builtin (fold (metrics_backend_step u64_real) sample_calls
        (metrics_backend_new True 2 sample_memory))) = Some s \<and> st_timestamps (ss_total s) = [101, 102]"
proof -
  let ?m = "be_builtin (fold (metrics_backend_step u64_real) sample_calls (metrics_backend_new True 2 sample_memory))"
  have "metrics_read ''s'' ?m \<noteq> None"
    using metrics_history [of u64_real sample_calls True 2 sample_memory "''s''"] by (simp add: sample_calls_def)
  then obtain s where s: "metrics_read ''s'' ?m = Some s" by blast
  from service_stats_are_histories [OF s, THEN conjunct2, THEN conjunct2] have "st_timestamps (ss_total s) = [101, 102]"
    by (simp add: sample_calls_def)
  with s show ?thesis by (intro exI conjI)
qed

text \<open>[service_totals_agree]: The success and failure counters of a service are, as 64-bit words, the sums of those of its
  functions.\<close>

theorem service_totals_agree:
  assumes "metrics_read sid (be_builtin (fold (metrics_backend_step c) inputs (metrics_backend_new ex cap mm))) = Some s"
  shows "st_success (ss_total s) = assoc_sum st_success (ss_functions s) \<and>
    st_failed (ss_total s) = assoc_sum st_failed (ss_functions s)"
proof -
  have "stat_ok s"
    by (rule metrics_run_ok [OF _ assms]) (simp add: metrics_backend_new_def metrics_builtin_new_def metrics_read_def)
  then show ?thesis by (simp add: stat_ok_def)
qed

theorem service_totals_agree_witness:
  "\<exists>s. metrics_read ''s'' (be_builtin (fold (metrics_backend_step u64_real) sample_calls
        (metrics_backend_new True 2 sample_memory))) = Some s \<and> st_failed (ss_total s) = assoc_sum st_failed (ss_functions s)"
proof -
  let ?m = "be_builtin (fold (metrics_backend_step u64_real) sample_calls (metrics_backend_new True 2 sample_memory))"
  have "metrics_read ''s'' ?m \<noteq> None"
    using metrics_history [of u64_real sample_calls True 2 sample_memory "''s''"] by (simp add: sample_calls_def)
  then obtain s where s: "metrics_read ''s'' ?m = Some s" by blast
  with service_totals_agree [OF s] show ?thesis by blast
qed

fun call_times :: "'f call_stats list \<Rightarrow> 'f list" where
  "call_times [] = []"
| "call_times (CallSuccess _ t _ # css) = t # call_times css"
| "call_times (CallFail _ # css) = call_times css"

lemma call_times_append [simp]: "call_times (xs @ ys) = call_times xs @ call_times ys"
  by (induction xs rule: call_times.induct) auto

lemma length_call_times: "length (call_times css) = length (filter is_success css)"
  by (induction css rule: call_times.induct) auto

text \<open>[call_time_average]: In exact arithmetic, and below 2^64 calls, the average kept for the call time is the mean over
  all successful calls, not only the stored ones; the total is their sum and the series are the
  last of them.\<close>

theorem call_time_average:
  fixes css :: "real call_stats list"
  assumes "length (call_times css) < 2 ^ 64"
  shows "let s = st_call_time (fold (stats_update u64_real cap) css stats_default) in
    ns_total s = sum_list (call_times css) \<and>
    ns_avg s * real (length (call_times css)) = sum_list (call_times css) \<and>
    ns_series s = drop (length (call_times css) - max 1 cap) (call_times css)"
  using assms
proof (induction css rule: rev_induct)
  case (snoc cs css)
  show ?case
  proof (cases cs)
    case (CallSuccess d t ts)
    let ?s = "fold (stats_update u64_real cap) css stats_default" and ?n = "length (call_times css)"
    have "unat (st_success ?s) = ?n"
      using snoc.prems CallSuccess
      by (simp add: stats_counts stats_default_def length_call_times unat_of_nat take_bit_nat_eq_self)
    then have n: "u64_real (st_success ?s) = real ?n" by (simp only: u64_real_def)
    have ih: "ns_total (st_call_time ?s) = sum_list (call_times css)"
      "ns_avg (st_call_time ?s) * real ?n = sum_list (call_times css)"
      "ns_series (st_call_time ?s) = fold (push_bounded cap) (call_times css) []"
      using snoc CallSuccess by (simp_all add: Let_def fold_push_bounded)
    have "fold (push_bounded cap) (call_times css @ [t]) [] = drop (Suc ?n - max 1 cap) (call_times css @ [t])"
      by (simp only: fold_push_bounded length_append) simp
    then have "push_bounded cap t (fold (push_bounded cap) (call_times css) []) = drop (Suc ?n - max 1 cap) (call_times css @ [t])"
      by simp
    then show ?thesis
      unfolding CallSuccess by (simp add: Let_def numeric_update_def n ih add.commute [of 1])
  next
    case (CallFail ts)
    with snoc show ?thesis by (simp add: Let_def)
  qed
qed (simp add: stats_default_def numeric_series_default_def)

theorem call_time_average_witness:
  "ns_avg (st_call_time (fold (stats_update u64_real 1) [CallSuccess 0 2 7, CallFail 8, CallSuccess 0 4 9] stats_default)) = 3"
  using call_time_average [of "[CallSuccess 0 2 7, CallFail 8, CallSuccess 0 4 9]" 1] by (simp add: Let_def del: fold_simps)

subsection \<open>Memory of removed services\<close>

fun unaliased_memory :: "service_type \<times> service_memory_stat \<Rightarrow> u64" where
  "unaliased_memory (ServiceType (Some _), mem) = 0"
| "unaliased_memory (_, mem) = sm_used mem"

lemma store_loop_unaliased: "fst (store_loop all n mm) = n + assoc_sum unaliased_memory all"
  by (induction all n mm rule: store_loop.induct)
    (auto simp: Let_def add.assoc split: service_type.splits option.splits)

lemma store_service_mem_total:
  "mm_used_total (store_service_mem all mm) (ServiceType None) = Some (assoc_sum unaliased_memory all)"
  using store_loop_unaliased [of all 0 mm] by (auto simp: store_service_mem_def split: prod.splits)

fun reports_memory :: "string \<Rightarrow> 'f backend_input \<Rightarrow> bool" where
  "reports_memory sid (MetricsMsg (MemoryMsg i _ _)) = (i = sid)"
| "reports_memory sid _ = False"

lemma backend_keeps_memory:
  "be_memory b = Some all \<Longrightarrow> map_of all sid = Some e \<Longrightarrow> \<not> list_ex (reports_memory sid) inputs \<Longrightarrow>
   \<exists>all'. be_memory (fold (metrics_backend_step c) inputs b) = Some all' \<and> map_of all' sid = Some e"
proof (induction inputs arbitrary: b all)
  case (Cons x xs)
  have "\<exists>all1. be_memory (metrics_backend_step c x b) = Some all1 \<and> map_of all1 sid = Some e"
    using Cons.prems
    by (cases "(c, x, b)" rule: metrics_backend_step.cases)
      (auto simp: backend_observe_mem_def map_of_AList_update split: option.splits)
  with Cons.IH Cons.prems(3) show ?case by fastforce
qed simp

text \<open>[removed_memory_is_counted]: Removing a service sends nothing to the metrics backend, which therefore keeps its last memory
  report for ever: as long as no service with that id reports again, the exported total of services
  without alias is the sum over every service ever seen, removed ones included.\<close>

theorem removed_memory_is_counted:
  assumes "be_memory b = Some all" and "map_of all sid = Some (ServiceType None, mem)"
    and "\<not> list_ex (reports_memory sid) inputs"
  shows "me_outlet (observe_removed t m) = me_outlet m \<and>
    (\<exists>all'. be_memory (fold (metrics_backend_step c) inputs b) = Some all' \<and>
       map_of all' sid = Some (ServiceType None, mem) \<and>
       mm_used_total (be_exported (metrics_backend_step c MetricsTimer (fold (metrics_backend_step c) inputs b))) (ServiceType None) =
         Some (assoc_sum unaliased_memory all'))"
proof -
  obtain all' where "be_memory (fold (metrics_backend_step c) inputs b) = Some all'"
    and "map_of all' sid = Some (ServiceType None, mem)"
    using backend_keeps_memory [OF assms] by blast
  then show ?thesis
    by (auto simp: observe_removed_def observe_external_def store_service_mem_total split: option.splits)
qed

definition sample_metrics_backend :: "real metrics_backend" where
  "sample_metrics_backend = (metrics_backend_new True 2 sample_memory)
     \<lparr>be_memory := Some [(''s'', ServiceType None, \<lparr>sm_used = 5, sm_modules = []\<rparr>)]\<rparr>"

theorem removed_memory_is_counted_witness:
  "\<exists>all'. be_memory (fold (metrics_backend_step u64_real) [MetricsTimer] sample_metrics_backend) = Some all' \<and>
     map_of all' ''s'' = Some (ServiceType None, \<lparr>sm_used = 5, sm_modules = []\<rparr>) \<and>
     mm_used_total (be_exported (metrics_backend_step u64_real MetricsTimer
       (fold (metrics_backend_step u64_real) [MetricsTimer] sample_metrics_backend))) (ServiceType None) =
       Some (assoc_sum unaliased_memory all')"
proof -
  have 1: "be_memory sample_metrics_backend = Some [(''s'', ServiceType None, \<lparr>sm_used = 5, sm_modules = []\<rparr>)]"
    by (simp add: sample_metrics_backend_def)
  have 2: "map_of [(''s'', ServiceType None, \<lparr>sm_used = 5, sm_modules = []\<rparr>)] ''s'' =
      Some (ServiceType None, \<lparr>sm_used = 5, sm_modules = []\<rparr>)"
    and 3: "\<not> list_ex (reports_memory ''s'') [MetricsTimer]" by simp_all
  show ?thesis by (rule removed_memory_is_counted [OF 1 2 3, THEN conjunct2])
qed

end
