(* ===== verification/Startup.thy ===== *)
theory Startup
  imports Config Node Spells Builtins Service_Metrics Deployer Script_Storage
begin

section \<open>Construction of a node\<close>

text \<open>
  \<^verbatim>\<open>particle-node/src/main.rs\<close>, \<^verbatim>\<open>Node::new\<close> of \<^verbatim>\<open>particle-node/src/node.rs\<close>, \<^verbatim>\<open>FluenceNetworkBehaviour::new\<close>,
  \<^verbatim>\<open>Sorcerer::new\<close>, \<^verbatim>\<open>server-config/src/{services_config,network_config}.rs\<close>, \<^verbatim>\<open>config-utils\<close> and \<^verbatim>\<open>aquamarine/src/config.rs\<close>:
  how a resolved configuration becomes the components of a node and how they are connected.

  \<^item> The contents of directories at start, the initial state of libp2p's Kademlia, codecs and versions are a parameter
    (\<open>start_env\<close>). A panic is \<open>None\<close>. Permission bits are not tracked: making a directory write-only can only fail.
  \<^item> The services that \<^verbatim>\<open>Builtins\<close> and \<^verbatim>\<open>Sorcerer\<close> share are the services of the one \<open>builtins\<close> object, which is held by the
    backend; what the closures of the sorcerer capture besides is the captured state of the custom services.
  \<^item> Metrics registries, the transport, Identify and Ping are glue over libp2p and are left out.
\<close>

subsection \<open>Directories\<close>

definition below :: "path \<Rightarrow> string \<Rightarrow> path" where
  "below p name = path_join p (False, [name])"

definition workdir :: "path \<Rightarrow> path" where "workdir base = below base ''workdir''"

definition modules_dir :: "path \<Rightarrow> path" where "modules_dir base = below base ''modules''"

definition services_dir :: "path \<Rightarrow> path" where "services_dir base = below base ''services''"

definition particles_dir :: "path \<Rightarrow> path" where "particles_dir base = below base ''particles''"

definition particles_vault_dir :: "path \<Rightarrow> path" where "particles_vault_dir base = below (particles_dir base) ''vault''"

definition particles_anomaly_dir :: "path \<Rightarrow> path" where "particles_anomaly_dir base = below (particles_dir base) ''anomalies''"

definition blueprint_dir :: "path \<Rightarrow> path" where "blueprint_dir base = below base ''blueprint''"

definition set_write_only :: "os \<Rightarrow> path \<Rightarrow> file_system \<Rightarrow> (io_error + unit) \<times> file_system" where
  "set_write_only S p fs =
     (case path_target (os_cwd S) fs p of
        Inl e \<Rightarrow> Inl e
      | Inr f \<Rightarrow> if fs f = None then Inl IoNotFound else if os_permits S f then Inr () else Inl IoDenied, fs)"

record services_config =
  sc_local_peer_id :: peer_id
  sc_blueprint_dir :: path
  sc_envs :: "(bytes \<times> bytes) list"
  sc_workdir :: path
  sc_modules_dir :: path
  sc_services_dir :: path
  sc_particles_vault_dir :: path
  sc_management_peer_id :: peer_id
  sc_builtins_management_peer_id :: peer_id
  sc_max_heap_size :: nat
  sc_default_heap_size :: "nat option"

definition services_config_new ::
    "os \<Rightarrow> peer_id \<Rightarrow> path \<Rightarrow> path \<Rightarrow> (bytes \<times> bytes) list \<Rightarrow> peer_id \<Rightarrow> peer_id \<Rightarrow> nat \<Rightarrow> nat option \<Rightarrow> file_system \<Rightarrow>
     (io_error + services_config) \<times> file_system" where
  "services_config_new S local base_dir vault envs management builtins_management max_heap default_heap =
     (let base = to_abs_path S base_dir;
          this = \<lparr>sc_local_peer_id = local, sc_blueprint_dir = blueprint_dir base, sc_envs = envs, sc_workdir = workdir base,
            sc_modules_dir = modules_dir base, sc_services_dir = services_dir base, sc_particles_vault_dir = vault,
            sc_management_peer_id = management, sc_builtins_management_peer_id = builtins_management,
            sc_max_heap_size = max_heap, sc_default_heap_size = default_heap\<rparr>
      in try_then (create_dirs S [sc_blueprint_dir this, sc_workdir this, sc_modules_dir this, sc_services_dir this,
             sc_particles_vault_dir this]) (\<lambda>_.
         try_then (set_write_only S (sc_particles_vault_dir this)) (\<lambda>_ fs. (Inr this, fs))))"

record vm_config =
  vm_current_peer_id :: peer_id
  vm_air_interpreter :: path
  vm_particles_dir :: path
  vm_particles_vault_dir :: path
  vm_particles_anomaly_dir :: path
  vm_max_heap_size :: "nat option"

definition vm_config_new :: "os \<Rightarrow> peer_id \<Rightarrow> path \<Rightarrow> path \<Rightarrow> nat option \<Rightarrow> vm_config" where
  "vm_config_new S peer base_dir air max_heap =
     (let base = to_abs_path S base_dir in
      \<lparr>vm_current_peer_id = peer, vm_air_interpreter = air, vm_particles_dir = particles_dir base,
       vm_particles_vault_dir = particles_vault_dir base, vm_particles_anomaly_dir = particles_anomaly_dir base,
       vm_max_heap_size = max_heap\<rparr>)"

text \<open>\<^verbatim>\<open>AquaRuntime::create_runtime\<close>: the data store each runtime of the pool is given.\<close>

definition runtime_data_store :: "vm_config \<Rightarrow> particle_data_store" where
  "runtime_data_store cfg = particle_data_store_new (vm_particles_dir cfg) (vm_particles_vault_dir cfg) (vm_particles_anomaly_dir cfg)"

subsection \<open>Network\<close>

record 'kp network_config =
  nw_key_pair :: 'kp
  nw_local_peer_id :: peer_id
  nw_node_version :: string
  nw_bootstrap_nodes :: "maddr list"
  nw_kademlia_config :: kademlia_config
  nw_particle_queue_buffer :: nat
  nw_bootstrap_frequency :: nat
  nw_allow_local_addresses :: bool

definition network_config_new :: "('kp \<Rightarrow> peer_id) \<Rightarrow> 'kp \<Rightarrow> 'kp resolved_config \<Rightarrow> string \<Rightarrow> 'kp network_config" where
  "network_config_new to_peer_id kp config version =
     (let c = rc_node config in
      \<lparr>nw_key_pair = kp, nw_local_peer_id = to_peer_id kp, nw_node_version = version, nw_bootstrap_nodes = nc_bootstrap_nodes c,
       nw_kademlia_config = nc_kademlia c, nw_particle_queue_buffer = nc_particle_queue_buffer c,
       nw_bootstrap_frequency = nc_bootstrap_frequency c, nw_allow_local_addresses = nc_allow_local_addresses c\<rparr>)"

record connectivity =
  ct_peer_id :: peer_id
  ct_bootstrap_nodes :: "multiaddr list"
  ct_bootstrap_frequency :: nat

definition network_behaviour_new :: "(maddr \<Rightarrow> multiaddr) \<Rightarrow> (peer_id \<Rightarrow> 'k) \<Rightarrow> 'kp network_config \<Rightarrow> 'k net \<times> connectivity" where
  "network_behaviour_new addr kad cfg =
     (net_new (nw_local_peer_id cfg) (nw_kademlia_config cfg) (kad (nw_local_peer_id cfg)),
      \<lparr>ct_peer_id = nw_local_peer_id cfg, ct_bootstrap_nodes = remdups (map addr (nw_bootstrap_nodes cfg)),
       ct_bootstrap_frequency = nw_bootstrap_frequency cfg\<rparr>)"

subsection \<open>The sorcerer behind the built-in functions\<close>

record 'kp spell_parts =
  sq_blueprint :: string
  sq_spells :: "string list"
  sq_bus :: event_bus
  sq_keys :: "'kp key_manager"
  sq_particle_ttl :: nat
  sq_executed :: "particle list"
  sq_calls :: nat \<comment> \<open>how many calls were made: what the next one finds in its environment\<close>

definition sorcerer_of :: "'app app_services \<Rightarrow> 'kp spell_parts \<Rightarrow> ('app, 'kp) sorcerer" where
  "sorcerer_of services q =
     \<lparr>so_services = services, so_blueprint = sq_blueprint q, so_spells = sq_spells q, so_bus = sq_bus q, so_keys = sq_keys q,
      so_particle_ttl = sq_particle_ttl q, so_executed = sq_executed q\<rparr>"

definition parts_of :: "nat \<Rightarrow> ('app, 'kp) sorcerer \<Rightarrow> 'kp spell_parts" where
  "parts_of n so =
     \<lparr>sq_blueprint = so_blueprint so, sq_spells = so_spells so, sq_bus = so_bus so, sq_keys = so_keys so,
      sq_particle_ttl = so_particle_ttl so, sq_executed = so_executed so, sq_calls = n\<rparr>"

text \<open>The closure over the sorcerer that is registered as a host function.\<close>

definition spell_closure ::
    "('app, 'kp, 'pk, 'err) spell_api \<Rightarrow> (nat \<Rightarrow> 'kp spell_env) \<Rightarrow> spell_function \<Rightarrow> ('app, 'kp spell_parts) host_function" where
  "spell_closure A envs f a params s =
     (case s of (services, q) \<Rightarrow>
        (case spell_function_call A (envs (sq_calls q)) f a params (sorcerer_of services q) of
           (out, so) \<Rightarrow> (out, so_services so, parts_of (sq_calls q + 1) so)))"

definition register_spell_builtin ::
    "('app, 'kp, 'pk, 'err) spell_api \<Rightarrow> (nat \<Rightarrow> 'kp spell_env) \<Rightarrow> spell_builtin \<Rightarrow>
     ('app, 'kp, 'kp spell_parts) builtins \<Rightarrow> ('app, 'kp, 'kp spell_parts) builtins" where
  "register_spell_builtin A envs sb =
     builtins_extend (sb_service_id sb) (map (\<lambda>(name, f). (name, spell_closure A envs f)) (sb_functions sb))
       (map_option (spell_closure A envs) (sb_unhandled sb))"

text \<open>\<^verbatim>\<open>Sorcerer::new\<close>: the storage of spells, where the modules of the spell service are added to the shared repository.\<close>

record spell_distro =
  sd_load_config :: "bytes \<Rightarrow> module_config list option"
  sd_config :: "module_config list"
  sd_modules :: "string \<Rightarrow> bytes option"

definition sorcerer_new ::
    "module_api \<Rightarrow> spell_distro \<Rightarrow> directory \<Rightarrow> nat \<Rightarrow> event_bus \<Rightarrow> 'kp key_manager \<Rightarrow> 'app app_services \<Rightarrow> ('app, 'kp) sorcerer option" where
  "sorcerer_new M D spells_dir ttl bus km services =
     (case spell_storage_create M (sd_load_config D) (sd_config D) (sd_modules D) spells_dir services (as_modules services) of
        (Inl e, _) \<Rightarrow> None
      | (Inr (blueprint, spells), modules) \<Rightarrow>
          Some \<lparr>so_services = services\<lparr>as_modules := modules\<rparr>, so_blueprint = blueprint, so_spells = spells, so_bus = bus,
            so_keys = km, so_particle_ttl = ttl, so_executed = []\<rparr>)"

subsection \<open>The node\<close>

record ('app, 'kp, 'pk, 'err, 'k) start_env =
  st_os :: os
  st_dir :: "path \<Rightarrow> file_system \<Rightarrow> directory"
  st_vaults :: "path \<Rightarrow> file_system \<Rightarrow> (string \<times> directory) list"
  st_show_path :: "path \<Rightarrow> string"
  st_to_peer_id :: "'kp \<Rightarrow> peer_id"
  st_show_peer_id :: "peer_id \<Rightarrow> string"
  st_addr :: "maddr \<Rightarrow> multiaddr"
  st_kad :: "peer_id \<Rightarrow> 'k"
  st_builtins :: "('app, 'kp, 'pk, 'err) builtin_api"
  st_spells :: "('app, 'kp, 'pk, 'err) spell_api"
  st_spell_envs :: "nat \<Rightarrow> 'kp spell_env"
  st_distro :: spell_distro
  st_memory_metrics :: memory_metrics
  st_version :: string
  st_air_version :: string
  st_interpreter_wasm :: bytes

record builtins_deployer =
  bd_startup_peer_id :: peer_id
  bd_node_peer_id :: peer_id
  bd_builtins_base_dir :: path
  bd_particle_ttl :: duration
  bd_force_redeploy :: bool
  bd_retry_attempts :: u16

record ('app, 'kp, 'rt, 'f, 'k) fluence_node =
  nd_net :: "'k net"
  nd_connectivity :: connectivity
  nd_dispatcher :: dispatcher
  nd_aquavm_pool :: "('rt, 'kp, ('app, 'kp, 'kp spell_parts) builtins) backend"
  nd_vm_config :: vm_config
  nd_execution_timeout :: duration
  nd_script_storage :: script_storage
  nd_script_config :: script_storage_config
  nd_builtins_deployer :: builtins_deployer
  nd_services_metrics_backend :: "'f metrics_backend"
  nd_metrics_listen_addr :: "string \<times> u16"
  nd_builtins_management_peer_id :: peer_id
  nd_key_manager :: "'kp key_manager"

definition node_builtins :: "('app, 'kp, 'rt, 'f, 'k) fluence_node \<Rightarrow> ('app, 'kp, 'kp spell_parts) builtins" where
  "node_builtins n = pl_builtins (bk_plumber (nd_aquavm_pool n))"

text \<open>\<^verbatim>\<open>Node::builtins\<close> and \<^verbatim>\<open>Builtins::new\<close>; nothing is captured by custom services yet but what the sorcerer will share.\<close>

definition start_builtins ::
    "('app, 'kp, 'pk, 'err, 'k) start_env \<Rightarrow> services_config \<Rightarrow> maddr list \<Rightarrow> 'kp \<Rightarrow> 'kp spell_parts \<Rightarrow> file_system \<Rightarrow>
     ('app, 'kp, 'kp spell_parts) builtins" where
  "start_builtins E sc external kp q fs =
     builtins_new (st_builtins E) (st_dir E (sc_modules_dir sc) fs) (st_dir E (sc_blueprint_dir sc) fs)
       (st_dir E (sc_services_dir sc) fs) (st_vaults E (sc_particles_vault_dir sc) fs) (sc_max_heap_size sc)
       (sc_default_heap_size sc) (st_show_path E (sc_particles_vault_dir sc)) (sc_local_peer_id sc)
       (sc_management_peer_id sc) (sc_builtins_management_peer_id sc) kp
       \<lparr>external_addresses = map (st_addr E) external, node_version = st_version E, air_version = st_air_version E\<rparr> q fs"

text \<open>The sorcerer is made from the services of the built-in functions, and its functions are registered with them.\<close>

definition connect_sorcerer ::
    "('app, 'kp, 'pk, 'err, 'k) start_env \<Rightarrow> directory \<Rightarrow> nat \<Rightarrow> 'kp key_manager \<Rightarrow> ('app, 'kp, 'kp spell_parts) builtins \<Rightarrow>
     ('app, 'kp, 'kp spell_parts) builtins option" where
  "connect_sorcerer E spells_dir ttl km b =
     map_option (\<lambda>so. fold (register_spell_builtin (st_spells E) (st_spell_envs E)) make_spell_builtins
         (b\<lparr>bi_services := so_services so, bi_captured := parts_of 0 so\<rparr>))
       (sorcerer_new (sa_modules (bi_srv (st_builtins E))) (st_distro E) spells_dir ttl event_bus_new km (bi_services b))"

text \<open>Durations of the configuration are in milliseconds, those of the script storage in nanoseconds.\<close>

definition nanoseconds :: "duration \<Rightarrow> duration" where
  "nanoseconds ms = 1000000 * ms"

text \<open>The parts put together; the settings that only pass through are read from the configuration here.\<close>

definition node_with ::
    "('app, 'kp, 'pk, 'err, 'k) start_env \<Rightarrow> 'kp resolved_config \<Rightarrow> vm_config \<Rightarrow> 'kp key_manager \<Rightarrow> 'k net \<times> connectivity \<Rightarrow>
     ('app, 'kp, 'kp spell_parts) builtins \<Rightarrow> ('app, 'kp, 'rt, 'f, 'k) fluence_node" where
  "node_with E config vm km network b =
     (let c = rc_node config; builtins_peer_id = st_to_peer_id E (nc_builtins_key_pair c) in
      \<lparr>nd_net = fst network, nd_connectivity = snd network,
       nd_dispatcher = dispatcher_new (nc_particle_processor_parallelism c),
       nd_aquavm_pool = backend_new (nc_aquavm_pool_size c) b km,
       nd_vm_config = vm, nd_execution_timeout = nc_particle_execution_timeout c,
       nd_script_storage = script_storage_new,
       nd_script_config = \<lparr>timer_resolution = nanoseconds (nc_script_storage_timer_resolution c),
         max_failures = nc_script_storage_max_failures c, particle_ttl = nanoseconds (nc_script_storage_particle_ttl c),
         scfg_peer_id = km_host_peer_id km\<rparr>,
       nd_builtins_deployer = \<lparr>bd_startup_peer_id = builtins_peer_id, bd_node_peer_id = km_host_peer_id km,
         bd_builtins_base_dir = rd_builtins (rc_dirs config), bd_particle_ttl = nc_autodeploy_particle_ttl c,
         bd_force_redeploy = nc_force_builtins_redeploy c, bd_retry_attempts = nc_autodeploy_retry_attempts c\<rparr>,
       nd_services_metrics_backend = metrics_backend_new (nc_metrics_enabled c) (nc_max_builtin_metrics_storage_size c)
         (st_memory_metrics E),
       nd_metrics_listen_addr = metrics_listen_addr c,
       nd_builtins_management_peer_id = builtins_peer_id, nd_key_manager = km\<rparr>)"

definition node_key_manager :: "('app, 'kp, 'pk, 'err, 'k) start_env \<Rightarrow> 'kp resolved_config \<Rightarrow> file_system \<Rightarrow> 'kp key_manager" where
  "node_key_manager E config fs = key_manager_new (sp_keys (st_spells E)) (st_dir E (rd_keypairs (rc_dirs config)) fs)
     (st_to_peer_id E (nc_root_key_pair (rc_node config)))"

definition node_services_config ::
    "('app, 'kp, 'pk, 'err, 'k) start_env \<Rightarrow> 'kp resolved_config \<Rightarrow> peer_id \<Rightarrow> file_system \<Rightarrow> (io_error + services_config) \<times> file_system" where
  "node_services_config E config host =
     (let c = rc_node config in
      services_config_new (st_os E) host (rd_services (rc_dirs config)) (particles_vault_dir (rd_avm (rc_dirs config)))
        (nc_services_envs c) (nc_management_peer_id c) (st_to_peer_id E (nc_builtins_key_pair c))
        (nc_module_max_heap_size c) (nc_module_default_heap_size c))"

definition node_new ::
    "('app, 'kp, 'pk, 'err, 'k) start_env \<Rightarrow> 'kp resolved_config \<Rightarrow> vm_config \<Rightarrow> file_system \<Rightarrow>
     (('app, 'kp, 'rt, 'f, 'k) fluence_node \<times> file_system) option" where
  "node_new E config vm fs =
     (let c = rc_node config; kp = nc_root_key_pair c; km = node_key_manager E config fs
      in case node_services_config E config (km_host_peer_id km) fs of
           (Inl e, _) \<Rightarrow> None
         | (Inr sc, fs1) \<Rightarrow>
             (let network = network_behaviour_new (st_addr E) (st_kad E) (network_config_new (st_to_peer_id E) kp config (st_version E));
                  b = start_builtins E sc (config_external_addresses c) kp
                    \<lparr>sq_blueprint = [], sq_spells = [], sq_bus = event_bus_new, sq_keys = km,
                     sq_particle_ttl = nc_max_spell_particle_ttl c, sq_executed = [], sq_calls = 0\<rparr> fs1
              in map_option (\<lambda>b'. (node_with E config vm km network b', fs1))
                   (connect_sorcerer E (st_dir E (rd_spell (rc_dirs config)) fs1) (nc_max_spell_particle_ttl c) km b)))"

subsection \<open>The program\<close>

definition vm_config_of :: "('app, 'kp, 'pk, 'err, 'k) start_env \<Rightarrow> 'kp resolved_config \<Rightarrow> vm_config" where
  "vm_config_of E config = vm_config_new (st_os E) (st_to_peer_id E (nc_root_key_pair (rc_node config))) (rd_avm (rc_dirs config))
     (rd_air_interpreter (rc_dirs config)) (nc_aquavm_max_heap_size (rc_node config))"

text \<open>The addresses listened on, in order, until one is refused.\<close>

fun listen :: "(maddr \<Rightarrow> bool) \<Rightarrow> maddr list \<Rightarrow> string + unit" where
  "listen ok [] = Inr ()"
| "listen ok (a # as) = (if ok a then listen ok as else Inl ''error on listen'')"

text \<open>The program up to \<^verbatim>\<open>Node::start\<close>, which follows below.\<close>

definition start_fluence ::
    "('app, 'kp, 'pk, 'err, 'k) start_env \<Rightarrow> (maddr \<Rightarrow> bool) \<Rightarrow> 'kp resolved_config \<Rightarrow> file_system \<Rightarrow>
     ((string + ('app, 'kp, 'rt, 'f, 'k) fluence_node) \<times> file_system) option" where
  "start_fluence E listens config fs =
     map_option (\<lambda>(n, fs1). (map_sum id (\<lambda>_. n) (listen listens (listen_multiaddrs (rc_node config))), fs1))
       (node_new E config (vm_config_of E config) fs)"

definition write_default_air_interpreter ::
    "('app, 'kp, 'pk, 'err, 'k) start_env \<Rightarrow> path \<Rightarrow> file_system \<Rightarrow> (string + unit) \<times> file_system" where
  "write_default_air_interpreter E p fs =
     apfst (map_sum (\<lambda>_. ''failed writing default INTERPRETER_WASM'') id) (write_file (st_os E) p (st_interpreter_wasm E) fs)"

definition fluence_main ::
    "('app, 'kp, 'pk, 'err, 'k) start_env \<Rightarrow> (maddr \<Rightarrow> bool) \<Rightarrow> 'kp config_codec \<Rightarrow> arg_matches \<Rightarrow> file_system \<Rightarrow>
     ((string + ('app, 'kp, 'rt, 'f, 'k) fluence_node) \<times> file_system) option" where
  "fluence_main E listens C m fs =
     (case load_config (st_os E) (st_air_version E) C m fs of
        None \<Rightarrow> None
      | Some (Inl e, fs1) \<Rightarrow> Some (Inl e, fs1)
      | Some (Inr config, fs1) \<Rightarrow>
          (case write_default_air_interpreter E (to_abs_path (st_os E) (rd_air_interpreter (rc_dirs config))) fs1 of
             (Inl e, fs2) \<Rightarrow> Some (Inl e, fs2)
           | (Inr _, fs2) \<Rightarrow> start_fluence E listens config fs2))"

text \<open>\<^verbatim>\<open>Node::start\<close> after the event loop has been spawned: the deployment of the builtins, with the settings of the deployer in
  the environment \<open>D\<close>; \<open>list\<close> lists the builtins directory.\<close>

definition deployer_env_of ::
    "('app, 'kp, 'pk, 'err, 'k) start_env \<Rightarrow> builtins_deployer \<Rightarrow> 'n deployer_env \<Rightarrow> 'n deployer_env" where
  "deployer_env_of E d D = D\<lparr>de_startup_peer_id := bd_startup_peer_id d, de_node_peer_id := st_show_peer_id E (bd_node_peer_id d),
     de_ttl_millis := bd_particle_ttl d, de_force_redeploy := bd_force_redeploy d, de_retry_attempts := bd_retry_attempts d\<rparr>"

definition node_start ::
    "('app, 'kp, 'pk, 'err, 'k) start_env \<Rightarrow> 'n deployer_env \<Rightarrow> (path \<Rightarrow> builtin_dir list option) \<Rightarrow>
     ('app, 'kp, 'rt, 'f, 'k) fluence_node \<Rightarrow> 'n \<Rightarrow> ((string + unit) \<times> 'n) option" where
  "node_start E D list n s =
     map_option (map_prod (map_sum ((@) ''builtins deploy failed: '') id) id)
       (deploy_builtin_services (deployer_env_of E (nd_builtins_deployer n) D)
          (list (to_abs_path (st_os E) (bd_builtins_base_dir (nd_builtins_deployer n)))) s)"

definition start_and_deploy ::
    "('app, 'kp, 'pk, 'err, 'k) start_env \<Rightarrow> 'n deployer_env \<Rightarrow> (path \<Rightarrow> builtin_dir list option) \<Rightarrow> (maddr \<Rightarrow> bool) \<Rightarrow>
     'kp resolved_config \<Rightarrow> file_system \<Rightarrow> 'n \<Rightarrow> ((string + ('app, 'kp, 'rt, 'f, 'k) fluence_node) \<times> file_system \<times> 'n) option" where
  "start_and_deploy E D list listens config fs s =
     (case start_fluence E listens config fs of
        None \<Rightarrow> None
      | Some (Inl e, fs1) \<Rightarrow> Some (Inl e, fs1, s)
      | Some (Inr n, fs1) \<Rightarrow>
          map_option (\<lambda>(r, s1). (map_sum ((@) ''node failed to start: '') (\<lambda>_. n) r, fs1, s1)) (node_start E D list n s))"

subsection \<open>Spell functions\<close>

definition spell_function_of :: "string \<Rightarrow> string \<Rightarrow> spell_function option" where
  "spell_function_of service name =
     (case find (\<lambda>sb. sb_service_id sb = service) make_spell_builtins of
        None \<Rightarrow> None
      | Some sb \<Rightarrow> (case map_of (sb_functions sb) name of Some f \<Rightarrow> Some f | None \<Rightarrow> sb_unhandled sb))"

definition spell_services :: "string set" where
  "spell_services = {''spell'', ''getDataSrv'', ''errorHandlingSrv'', ''callbackSrv'', ''scope''}"

lemma spell_arms:
  fixes A :: "('app, 'kp, 'pk, 'err) builtin_api"
  assumes "s \<in> spell_services"
  shows "map_of (builtin_arms A env :: ((string \<times> string) \<times> ('app, 'kp, 'c) builtin_handler) list) (s, f) = None"
proof -
  note arms = builtin_arms_def peer_arms_def service_arms_def op_arms_def stat_arms_def math_arms_def sig_arms_def
  from assms consider "s = ''spell''" | "s = ''getDataSrv''" | "s = ''errorHandlingSrv''" | "s = ''callbackSrv''" | "s = ''scope''"
    unfolding spell_services_def insert_iff empty_iff by (elim disjE FalseE) iprover+
  then show ?thesis by cases (simp_all only: arms, simp_all)
qed

lemma spell_call_defined: "is_defined (fst (spell_function_call A env f a params so))"
  by (cases f) simp_all

definition spells_registered ::
    "('app, 'kp, 'pk, 'err) spell_api \<Rightarrow> (nat \<Rightarrow> 'kp spell_env) \<Rightarrow> ('app, 'kp, 'kp spell_parts) builtins \<Rightarrow> bool" where
  "spells_registered A envs b \<longleftrightarrow> (\<forall>sb\<in>set make_spell_builtins. map_of (custom_services b) (sb_service_id sb) =
     Some \<lparr>cs_functions = map (\<lambda>(name, f). (name, spell_closure A envs f)) (sb_functions sb),
       cs_unhandled = map_option (spell_closure A envs) (sb_unhandled sb)\<rparr>)"


lemma registered_after_fold:
  assumes "distinct (map sb_service_id sbs)" and "sb \<in> set sbs"
  shows "map_of (custom_services (fold (register_spell_builtin A envs) sbs b)) (sb_service_id sb) =
    Some \<lparr>cs_functions = map (\<lambda>(name, f). (name, spell_closure A envs f)) (sb_functions sb),
      cs_unhandled = map_option (spell_closure A envs) (sb_unhandled sb)\<rparr>"
  using assms
proof (induction sbs rule: rev_induct)
  case (snoc x sbs)
  then show ?case
    by (cases "sb = x") (auto simp: register_spell_builtin_def builtins_extend_def map_of_AList_update image_iff)
qed simp

lemma registered_rest:
  "bi_services (fold (register_spell_builtin A envs) sbs b) = bi_services b"
  "bi_captured (fold (register_spell_builtin A envs) sbs b) = bi_captured b"
  "bi_local_peer_id (fold (register_spell_builtin A envs) sbs b) = bi_local_peer_id b"
  "bi_management_peer_id (fold (register_spell_builtin A envs) sbs b) = bi_management_peer_id b"
  "bi_vault_dir (fold (register_spell_builtin A envs) sbs b) = bi_vault_dir b"
  by (induction sbs arbitrary: b) (simp_all add: register_spell_builtin_def builtins_extend_def)

lemma spell_builtins_names: "distinct (map sb_service_id make_spell_builtins)"
  "sb_service_id ` set make_spell_builtins = spell_services"
  by (simp_all add: make_spell_builtins_def spell_services_def)

lemma connect_sorcerer_registers:
  assumes "connect_sorcerer E dir ttl km b = Some b'"
  shows "spells_registered (st_spells E) (st_spell_envs E) b'"
  using assms registered_after_fold [OF spell_builtins_names(1)]
  by (auto simp: connect_sorcerer_def spells_registered_def)

lemma map_of_closures: "map_of (map (\<lambda>(name, f). (name, g f)) fs) name = map_option g (map_of fs name)"
  by (induction fs) auto

lemma spell_custom_function:
  assumes "spells_registered A envs b" and "spell_function_of (service_id a) (function_name a) = Some f"
  shows "custom_function a b = Some (spell_closure A envs f)" and "service_id a \<in> spell_services"
proof -
  from assms(2) obtain sb where sb: "find (\<lambda>sb. sb_service_id sb = service_id a) make_spell_builtins = Some sb"
    by (auto simp: spell_function_of_def split: option.splits)
  then have mem: "sb \<in> set make_spell_builtins" "sb_service_id sb = service_id a"
    by (auto simp: find_Some_iff)
  then show "service_id a \<in> spell_services" using spell_builtins_names(2) by (metis image_eqI)
  from assms(1) mem have "map_of (custom_services b) (service_id a) =
    Some \<lparr>cs_functions = map (\<lambda>(name, f). (name, spell_closure A envs f)) (sb_functions sb),
      cs_unhandled = map_option (spell_closure A envs) (sb_unhandled sb)\<rparr>"
    by (auto simp: spells_registered_def)
  with assms(2) sb show "custom_function a b = Some (spell_closure A envs f)"
    by (auto simp: custom_function_def map_of_closures spell_function_of_def split: option.splits)
qed

lemma sorcerer_of_parts [simp]: "sorcerer_of (so_services so) (parts_of n so) = so"
  by (simp add: sorcerer_of_def parts_of_def)

lemma key_manager_new_host: "km_host_peer_id (key_manager_new A dir host) = host"
proof -
  have "km_host_peer_id (fold (restore_keypair A) pks km) = km_host_peer_id km" for pks and km :: "'a key_manager"
    by (induction pks arbitrary: km) (auto simp: restore_keypair_def split: option.splits sum.splits)
  then show ?thesis by (simp add: key_manager_new_def load_persisted_keypairs_def)
qed

text \<open>What a constructed node consists of.\<close>

lemma node_newE:
  assumes "node_new E config vm fs = Some (n, fs')"
  obtains sc q b where
    "node_services_config E config (st_to_peer_id E (nc_root_key_pair (rc_node config))) fs = (Inr sc, fs')"
    "connect_sorcerer E (st_dir E (rd_spell (rc_dirs config)) fs') (nc_max_spell_particle_ttl (rc_node config))
       (node_key_manager E config fs)
       (start_builtins E sc (config_external_addresses (rc_node config)) (nc_root_key_pair (rc_node config)) q fs') = Some b"
    "n = node_with E config vm (node_key_manager E config fs) (network_behaviour_new (st_addr E) (st_kad E)
       (network_config_new (st_to_peer_id E) (nc_root_key_pair (rc_node config)) config (st_version E))) b"
    "node_builtins n = b"
proof -
  have host: "km_host_peer_id (node_key_manager E config fs) = st_to_peer_id E (nc_root_key_pair (rc_node config))"
    by (simp add: node_key_manager_def key_manager_new_host)
  from assms obtain sc b q where
    "node_services_config E config (st_to_peer_id E (nc_root_key_pair (rc_node config))) fs = (Inr sc, fs')"
    and b: "connect_sorcerer E (st_dir E (rd_spell (rc_dirs config)) fs') (nc_max_spell_particle_ttl (rc_node config))
       (node_key_manager E config fs)
       (start_builtins E sc (config_external_addresses (rc_node config)) (nc_root_key_pair (rc_node config)) q fs') = Some b"
    and n: "n = node_with E config vm (node_key_manager E config fs) (network_behaviour_new (st_addr E) (st_kad E)
       (network_config_new (st_to_peer_id E) (nc_root_key_pair (rc_node config)) config (st_version E))) b"
    unfolding node_new_def Let_def host by (auto split: prod.splits sum.splits)
  moreover have "node_builtins n = b"
    by (simp add: n node_builtins_def node_with_def Let_def backend_new_def plumber_new_def)
  ultimately show thesis by (rule that)
qed



subsection \<open>One identity\<close>

definition same_authority :: "'app app_services \<Rightarrow> 'app app_services \<Rightarrow> bool" where
  "same_authority st st' \<longleftrightarrow> as_local_peer_id st' = as_local_peer_id st \<and> management_peer_id st' = management_peer_id st \<and>
     builtins_management_peer_id st' = builtins_management_peer_id st \<and> as_vault_path st' = as_vault_path st"

lemma restore_service_authority: "same_authority st (restore_service A ps st)"
  by (auto simp: same_authority_def restore_service_def create_service_inner_def split: sum.splits prod.splits)

lemma app_services_new_authority:
  "as_local_peer_id (app_services_new A dir vault local management builtins_management modules) = local"
  "management_peer_id (app_services_new A dir vault local management builtins_management modules) = management"
  "builtins_management_peer_id (app_services_new A dir vault local management builtins_management modules) = builtins_management"
  "as_vault_path (app_services_new A dir vault local management builtins_management modules) = vault"
proof -
  have "same_authority st (fold (\<lambda>r st. case r of Inl _ \<Rightarrow> st | Inr ps \<Rightarrow> restore_service A ps st) rs st)"
    for rs :: "(service_error + persisted_service) list" and st
  proof (induction rs arbitrary: st)
    case (Cons r rs)
    have "same_authority st (case r of Inl _ \<Rightarrow> st | Inr ps \<Rightarrow> restore_service A ps st)"
      using restore_service_authority by (cases r) (auto simp: same_authority_def)
    with Cons.IH show ?case by (fastforce simp: same_authority_def)
  qed (simp add: same_authority_def)
  note this [where rs = "load_persisted_services A dir" and st = "\<lparr>as_services_dir = dir, as_vault_path = vault, as_local_peer_id = local, as_services = [],
        as_modules = modules, as_aliases = [], management_peer_id = management,
        builtins_management_peer_id = builtins_management\<rparr>"]
  then show "as_local_peer_id (app_services_new A dir vault local management builtins_management modules) = local"
    "management_peer_id (app_services_new A dir vault local management builtins_management modules) = management"
    "builtins_management_peer_id (app_services_new A dir vault local management builtins_management modules) = builtins_management"
    "as_vault_path (app_services_new A dir vault local management builtins_management modules) = vault"
    by (simp_all add: same_authority_def app_services_new_def create_persisted_services_def)
qed

lemma connect_sorcerer_authority:
  assumes "connect_sorcerer E dir ttl km b = Some b'"
  shows "same_authority (bi_services b) (bi_services b')" and "bi_local_peer_id b' = bi_local_peer_id b"
    and "bi_management_peer_id b' = bi_management_peer_id b" and "bi_vault_dir b' = bi_vault_dir b"
  using assms by (auto simp: connect_sorcerer_def sorcerer_new_def registered_rest same_authority_def split: prod.splits sum.splits)

lemma services_config_newD:
  assumes "services_config_new S local base vault envs management builtins_management max_heap default_heap fs = (Inr sc, fs')"
  shows "sc_local_peer_id sc = local" "sc_particles_vault_dir sc = vault" "sc_management_peer_id sc = management"
    "sc_builtins_management_peer_id sc = builtins_management"
  using assms by (auto simp: services_config_new_def Let_def elim!: try_then_InrE)

text \<open>C32 [new_node_is_sound]: A constructed node satisfies the invariants of its parts: those of the network, the dispatcher, the
  backend and the key manager. All parts act under the identity of the root key pair, and the peer in whose name the
  deployer installs the builtins is the one that the services accept as their manager.\<close>

theorem new_node_is_sound:
  fixes n :: "('app, 'kp, 'rt, 'f, 'k) fluence_node"
  assumes "node_new E config vm fs = Some (n, fs')"
  shows "let me = st_to_peer_id E (nc_root_key_pair (rc_node config)); services = bi_services (node_builtins n) in
    net_inv (nd_net n) \<and> dispatcher_ok (nd_dispatcher n) \<and> plumber_wf (bk_plumber (nd_aquavm_pool n)) \<and>
    km_wf (sp_keys (st_spells E)) (nd_key_manager n) \<and>
    km_host_peer_id (nd_key_manager n) = me \<and> ct_peer_id (nd_connectivity n) = me \<and> bk_host_peer_id (nd_aquavm_pool n) = me \<and>
    bi_local_peer_id (node_builtins n) = me \<and> as_local_peer_id services = me \<and> scfg_peer_id (nd_script_config n) = me \<and>
    bd_node_peer_id (nd_builtins_deployer n) = me \<and>
    builtins_management_peer_id services = bd_startup_peer_id (nd_builtins_deployer n) \<and>
    management_peer_id services = bi_management_peer_id (node_builtins n)"
  using assms
proof (rule node_newE)
  fix sc q and b :: "('app, 'kp, 'kp spell_parts) builtins"
  let ?me = "st_to_peer_id E (nc_root_key_pair (rc_node config))"
  assume sc: "node_services_config E config ?me fs = (Inr sc, fs')"
    and b: "connect_sorcerer E (st_dir E (rd_spell (rc_dirs config)) fs') (nc_max_spell_particle_ttl (rc_node config))
       (node_key_manager E config fs)
       (start_builtins E sc (config_external_addresses (rc_node config)) (nc_root_key_pair (rc_node config)) q fs') = Some b"
    and n: "n = node_with E config vm (node_key_manager E config fs) (network_behaviour_new (st_addr E) (st_kad E)
       (network_config_new (st_to_peer_id E) (nc_root_key_pair (rc_node config)) config (st_version E))) b"
    and nb: "node_builtins n = b"
  note sc' = services_config_newD [OF sc [unfolded node_services_config_def Let_def]]
  have services: "as_local_peer_id (bi_services b) = ?me" "management_peer_id (bi_services b) = nc_management_peer_id (rc_node config)"
    "builtins_management_peer_id (bi_services b) = st_to_peer_id E (nc_builtins_key_pair (rc_node config))"
    using connect_sorcerer_authority(1) [OF b]
    by (simp_all add: same_authority_def start_builtins_def builtins_new_def Let_def app_services_new_authority sc')
  have "bi_local_peer_id b = ?me" "bi_management_peer_id b = nc_management_peer_id (rc_node config)"
    using connect_sorcerer_authority(2,3) [OF b] by (simp_all add: start_builtins_def builtins_new_def Let_def sc')
  moreover have "net_inv (nd_net n)"
    by (simp add: n node_with_def Let_def network_behaviour_new_def net_inv_new)
  moreover have "plumber_wf (bk_plumber (nd_aquavm_pool n))"
    by (simp add: n node_with_def Let_def plumber_wf_def backend_new_def plumber_new_def vm_pool_wf_new)
  moreover have "km_host_peer_id (node_key_manager E config fs) = ?me" "km_wf (sp_keys (st_spells E)) (node_key_manager E config fs)"
    by (simp_all add: node_key_manager_def key_manager_new_host key_manager_new_wf)
  ultimately show ?thesis
    using services
    by (simp add: nb) (simp add: n node_with_def Let_def network_behaviour_new_def network_config_new_def backend_new_def dispatcher_ok_def dispatcher_new_def)
qed


subsection \<open>One vault\<close>

lemma mkdirs_keeps: "mkdirs S cur cs fs = (Inr (), fs') \<Longrightarrow> fs p = Some x \<Longrightarrow> fs' p = Some x"
proof (induction cs arbitrary: cur fs)
  case (Cons c cs)
  let ?next = "if c = ''..'' then butlast cur else cur @ [c]"
  from Cons.prems(1) consider "mkdirs S ?next cs fs = (Inr (), fs')"
    | "fs ?next = None" "mkdirs S ?next cs (fs(?next \<mapsto> DirNode)) = (Inr (), fs')"
    by (auto simp: Let_def split: option.splits node.splits if_splits)
  then show ?case
  proof cases
    case 2
    have "p \<noteq> ?next" using 2(1) Cons.prems(2) by (metis option.distinct(1))
    with Cons.IH [OF 2(2)] Cons.prems(2) show ?thesis by (simp only: fun_upd_apply if_False)
  qed (use Cons.IH Cons.prems(2) in blast)
qed simp

lemma create_dir_keeps: "create_dir S d fs = (Inr (), fs') \<Longrightarrow> fs p = Some x \<Longrightarrow> fs' p = Some x"
  unfolding create_dir_def by (rule mkdirs_keeps)

lemma created_dir_at:
  assumes "create_dir S (True, d) fs = (Inr (), fs')" and "fs [] = Some DirNode" and "set d \<inter> {''.'', ''..''} = {}"
  shows "dir_at fs' d"
proof -
  have "filter (\<lambda>c. c \<noteq> ''.'') d = d" using assms(3) by (auto simp: filter_id_conv)
  then have "mkdirs S [] d fs = (Inr (), fs')" using assms(1) by (simp add: create_dir_def)
  moreover have "dir_at fs []" using assms(2) by (simp add: dir_at_def)
  ultimately show ?thesis using mkdirs_dir_at [of S "[]" d fs fs'] assms(3) by simp
qed

lemma services_config_vault:
  assumes "services_config_new S local base (True, v) envs management builtins_management max_heap default_heap fs = (Inr sc, fs')"
    and "fs [] = Some DirNode" and "set v \<inter> {''.'', ''..''} = {}"
  shows "dir_at fs' v"
proof -
  let ?base = "to_abs_path S base"
  from assms(1) obtain fs1 fs2 fs3 fs4 where
    "create_dir S (blueprint_dir ?base) fs = (Inr (), fs1)" "create_dir S (workdir ?base) fs1 = (Inr (), fs2)"
    "create_dir S (modules_dir ?base) fs2 = (Inr (), fs3)" "create_dir S (services_dir ?base) fs3 = (Inr (), fs4)" and v: "create_dir S (True, v) fs4 = (Inr (), fs')"
    by (auto simp: services_config_new_def Let_def set_write_only_def elim!: try_then_InrE)
  then have "fs4 [] = Some DirNode" using assms(2) by (iprover intro: create_dir_keeps)
  from created_dir_at [OF v this assms(3)] show ?thesis .
qed

lemma below_abs: "below (True, d) name = (True, d @ (if name = ''.'' then [] else [name]))"
  by (simp add: below_def path_join_def)

lemma to_abs_path_abs: "to_abs_path S (True, d) = (True, d)"
  by (simp add: to_abs_path_def path_join_def)

lemma dir_at_parent: "dir_at fs (d @ e) \<Longrightarrow> dir_at fs d"
  by (auto simp: dir_at_def)



subsection \<open>The interpreter\<close>

lemma walk_keeps:
  assumes "walk fs cur cs = Inr f" and "\<And>p x. fs p = Some x \<Longrightarrow> fs' p = Some x"
  shows "walk fs' cur cs = Inr f"
  using assms(1)
proof (induction cs arbitrary: cur)
  case (Cons c cs)
  then have "fs cur = Some DirNode" by (auto split: option.splits node.splits)
  with Cons assms(2) [OF this] show ?case by simp
qed simp

lemma read_file_keeps:
  assumes "read_file S p fs = Inr content" and "\<And>p x. fs p = Some x \<Longrightarrow> fs' p = Some x"
  shows "read_file S p fs' = Inr content"
proof -
  from assms(1) obtain f where f: "path_target (os_cwd S) fs p = Inr f" "fs f = Some (FileNode content)" "os_permits S f"
    by (auto simp: read_file_def split: sum.splits option.splits node.splits if_splits)
  moreover have "path_target (os_cwd S) fs' p = Inr f"
    using f(1) walk_keeps [OF _ assms(2)] by (simp add: path_target_def)
  ultimately show ?thesis using assms(2) [OF f(2)] by (simp add: read_file_def)
qed

lemma apfst_map_sum_Inr: "apfst (map_sum h id) r = (Inr x, s) \<longleftrightarrow> r = (Inr x, s)"
  by (cases r; cases "fst r") auto

lemma write_then_read: "write_file S p content fs = (Inr (), fs') \<Longrightarrow> read_file S p fs' = Inr content"
  by (auto simp: write_file_def read_file_def path_target_written split: sum.splits if_splits)

lemma services_config_keeps:
  assumes "services_config_new S local base vault envs management builtins_management max_heap default_heap fs = (Inr sc, fs')"
    and "fs p = Some x"
  shows "fs' p = Some x"
  using assms by (auto simp: services_config_new_def Let_def set_write_only_def elim!: try_then_InrE) (iprover intro: create_dir_keeps)


subsection \<open>A sample node\<close>

definition sample_start :: "(nat, nat, nat, string, nat) start_env" where
  "sample_start =
     \<lparr>st_os = sample_os, st_dir = (\<lambda>_ _. []), st_vaults = (\<lambda>_ _. []), st_show_path = (\<lambda>p. ''/d/particles/vault''),
      st_to_peer_id = (\<lambda>k. k + 1000), st_show_peer_id = show_nat, st_addr = length, st_kad = (\<lambda>p. p),
      st_builtins = sample_builtin_api\<lparr>bi_srv := sample_services\<lparr>sa_modules := sample_modules\<rparr>\<rparr>,
      st_spells = sample_spells, st_spell_envs = sample_spell_env,
      st_distro = \<lparr>sd_load_config = (\<lambda>_. None), sd_config = [big_config], sd_modules = (\<lambda>_. Some [7])\<rparr>,
      st_memory_metrics = \<lparr>mm_max = [], mm_max_per_module = [], mm_used = (\<lambda>_. []), mm_used_per_module = (\<lambda>_. []), mm_used_total = (\<lambda>_. None)\<rparr>,
      st_version = ''0'', st_air_version = ''0'', st_interpreter_wasm = []\<rparr>"

definition sample_resolved :: "nat resolved_config" where
  "sample_resolved =
     \<lparr>rc_dirs = \<lparr>rd_base = (True, [''d'']), rd_services = (True, [''d'']), rd_builtins = (True, [''d'']), rd_avm = (True, [''d'']),
        rd_air_interpreter = (True, [''d'', ''aquamarine_0.wasm'']), rd_spell = (True, [''d'']), rd_keypairs = (True, [''d''])\<rparr>,
      rc_node = node_config_default 2 5 6 7\<rparr>"

definition sample_installed :: file_system where
  "sample_installed = sample_fs([''d'', ''aquamarine_0.wasm''] \<mapsto> FileNode [])"

lemma sample_services_config:
  assumes "fs = sample_fs \<or> fs = sample_installed"
  shows "\<exists>sc fs'. node_services_config sample_start sample_resolved host fs = (Inr sc, fs') \<and> sc_max_heap_size sc = 4294967295"
  using assms
  by (elim disjE; simp add: sample_installed_def node_services_config_def services_config_new_def Let_def sample_start_def sample_resolved_def sample_os_def sample_fs_def
      node_config_default_def blueprint_dir_def workdir_def modules_dir_def services_dir_def particles_vault_dir_def particles_dir_def
      to_abs_path_abs below_abs create_dir_def set_write_only_def path_target_def try_then_def)

lemma sample_module_added:
  assumes "max_heap_size r = 4294967295"
  shows "\<exists>r1. add_module sample_modules [7] big_config r = (Inr [7], r1)"
  using assms by (simp add: add_module_def files_add_module_def check_module_heap_size_def sample_modules_def big_config_def Let_def)

lemma sample_blueprint_added:
  assumes "max_heap_size r = 4294967295"
  shows "\<exists>bp r1. load_spell_blueprint sample_modules (find_distro_module (\<lambda>_. Some [7])) [big_config] r = (Inr bp, r1)"
proof -
  obtain r1 where "add_module sample_modules [7] big_config r = (Inr [7], r1)" using sample_module_added [OF assms] ..
  moreover have "\<exists>bp r2. repo_add_blueprint sample_modules \<lparr>ab_name = ''spell'', ab_dependencies = [HashDep [7]]\<rparr> r1 = (Inr bp, r2)"
    by (simp add: repo_add_blueprint_def files_add_blueprint_def sample_modules_def Let_def resolve_hash_def)
  ultimately show ?thesis by (simp add: load_spell_blueprint_def find_distro_module_def)
qed

lemma sample_sorcerer_connects:
  assumes "max_heap_size (as_modules (bi_services b0)) = 4294967295"
  shows "\<exists>b. connect_sorcerer sample_start [] ttl km b0 = Some b"
proof -
  obtain bp r1 where bp: "load_spell_blueprint sample_modules (find_distro_module (\<lambda>_. Some [7])) [big_config] (as_modules (bi_services b0)) =
      (Inr bp, r1)"
    using sample_blueprint_added [OF assms] by blast
  then have "\<exists>so. sorcerer_new sample_modules (st_distro sample_start) [] ttl event_bus_new km (bi_services b0) = Some so"
    by (simp add: sorcerer_new_def spell_storage_create_def sample_start_def)
  moreover have "sa_modules (bi_srv (st_builtins sample_start)) = sample_modules" by (simp add: sample_start_def)
  ultimately show ?thesis by (auto simp: connect_sorcerer_def)
qed

lemma sample_builtins_heap:
  "max_heap_size (as_modules (bi_services (start_builtins sample_start sc external kp q fs))) = sc_max_heap_size sc"
  by (simp add: start_builtins_def builtins_new_def Let_def app_services_new_def create_persisted_services_def sample_start_def
      load_persisted_services_def module_repository_new_def)

lemma sample_node_new:
  assumes "fs = sample_fs \<or> fs = sample_installed"
  shows "\<exists>n fs'. node_new sample_start sample_resolved vm fs = Some (n, fs')"
proof -
  obtain sc fs' where sc: "node_services_config sample_start sample_resolved
      (km_host_peer_id (node_key_manager sample_start sample_resolved fs)) fs = (Inr sc, fs')"
      "sc_max_heap_size sc = 4294967295"
    using sample_services_config [OF assms] by blast
  have dir: "st_dir sample_start p fs' = []" for p by (simp add: sample_start_def)
  let ?b0 = "start_builtins sample_start sc (config_external_addresses (rc_node sample_resolved)) (nc_root_key_pair (rc_node sample_resolved))
    \<lparr>sq_blueprint = [], sq_spells = [], sq_bus = event_bus_new, sq_keys = node_key_manager sample_start sample_resolved fs,
     sq_particle_ttl = nc_max_spell_particle_ttl (rc_node sample_resolved), sq_executed = [], sq_calls = 0\<rparr> fs'"
  obtain b where "connect_sorcerer sample_start [] (nc_max_spell_particle_ttl (rc_node sample_resolved))
      (node_key_manager sample_start sample_resolved fs) ?b0 = Some b"
    using sample_sorcerer_connects sc(2) sample_builtins_heap by metis
  with sc(1) show ?thesis by (simp add: node_new_def Let_def dir)
qed


theorem new_node_is_sound_witness:
  "\<exists>n :: (nat, nat, nat, nat, nat) fluence_node. \<exists>fs'. node_new sample_start sample_resolved (vm_config_of sample_start sample_resolved) sample_fs =
     Some (n, fs') \<and> km_host_peer_id (nd_key_manager n) = 1005 \<and> net_inv (nd_net n) \<and>
     builtins_management_peer_id (bi_services (node_builtins n)) = bd_startup_peer_id (nd_builtins_deployer n)"
proof -
  obtain n :: "(nat, nat, nat, nat, nat) fluence_node" and fs' where
    n: "node_new sample_start sample_resolved (vm_config_of sample_start sample_resolved) sample_fs = Some (n, fs')"
    using sample_node_new [OF disjI1 [OF refl]] by blast
  have "st_to_peer_id sample_start (nc_root_key_pair (rc_node sample_resolved)) = 1005"
    by (simp add: sample_start_def sample_resolved_def node_config_default_def)
  with new_node_is_sound [OF n] n show ?thesis by (auto simp: Let_def)
qed



text \<open>A constructed node always gets through its start when fewer than 65535 retries are configured.\<close>

lemma node_start_returns:
  assumes "node_new E config vm fs = Some (n :: ('app, 'kp, 'rt, 'f, 'k) fluence_node, fs')"
    and "unat (nc_autodeploy_retry_attempts (rc_node config)) < 65535"
  shows "\<exists>r. node_start E D list n s = Some r"
proof -
  let ?D = "deployer_env_of E (nd_builtins_deployer n) D"
  have "bd_retry_attempts (nd_builtins_deployer n) = nc_autodeploy_retry_attempts (rc_node config)"
    using assms(1) by (auto simp: node_new_def node_with_def Let_def split: prod.splits sum.splits)
  then have "unat (de_retry_attempts ?D) < 65535" using assms(2) by (simp add: deployer_env_of_def)
  from wait_loop_returns [OF this, of 0 s] obtain w where "wait_for_vm_pool ?D s = Some w" by (auto simp: wait_for_vm_pool_def)
  then have "deploy_builtin_services ?D entries s \<noteq> None" for entries
    by (auto simp: deploy_builtin_services_def split: sum.splits prod.splits)
  then show ?thesis unfolding node_start_def by simp metis
qed

definition sample_config_codec :: "nat config_codec" where
  "sample_config_codec = \<lparr>cc_from_slice = (\<lambda>_. Some []), cc_deserialize = (\<lambda>_ fs.
     (Inr (\<lparr>ud_base = (True, [''d'']), ud_services = Some (True, [''d'']), ud_builtins = Some (True, [''d'']), ud_avm = Some (True, [''d'']),
       ud_air_interpreter = None, ud_spell = Some (True, [''d'']), ud_keypairs = Some (True, [''d''])\<rparr>, node_config_default 2 5 6 7), fs))\<rparr>"

lemma sample_loaded: "load_config sample_os ''0'' sample_config_codec no_arguments sample_fs = Some (Inr sample_resolved, sample_fs)"
proof -
  have "insert_args_to_config no_arguments [] =
      Some (Inr [(''websocket_port'', TInteger 9999), (''tcp_port'', TInteger 7777), (''metrics_port'', TInteger 18080)])"
    by (simp add: insert_args_to_config_def ARGS_def no_arguments_def insert_arg_def port_args parse_ports resolve_key_source_def)
  moreover have "am_values_of no_arguments ''config_file'' = None" "\<not> am_is_present no_arguments ''local''"
    by (simp_all add: no_arguments_def)
  moreover have "path_node sample_os (path_join default_base_dir (False, [''Config.toml''])) sample_fs = None"
    by (simp add: path_node_def path_target_def path_join_def default_base_dir_def sample_os_def sample_fs_def)
  ultimately show ?thesis
    by (simp add: load_config_def Let_def resolve_config_def sample_config_codec_def try_then_def dirs_resolve_def to_abs_path_abs or_below_def
        air_interpreter_path_def path_join_def create_dir_def canonicalize_def path_target_def sample_os_def sample_fs_def sample_resolved_def)
qed


end
