(* ===== verification/Spec2Isabelle.thy ===== *)
theory Spec2Isabelle
  imports Waiting_Queues Client Startup
begin

text \<open>
  \<^bold>\<open>A model of the Fluence peer (rust-peer).\<close>

  The node executes \<^emph>\<open>particles\<close>: signed packets that carry an AIR script, its data and a deadline. A particle
  arrives from another peer through the connection pool, is checked for expiry, and goes to the \<^emph>\<open>plumber\<close>, which keeps one
  actor per particle id and security scope. An actor runs the script in one of the pooled AVM runtimes; the
  interpreter answers with new data, peers to send the particle to, and calls to host functions (built-ins and services);
  the results of those calls go into the next run of the same actor. Around this core the node keeps key pairs
  of scopes, discovers peers with Kademlia, triggers spells by timers and connection events, runs scripts on a
  schedule, and stores Wasm modules and blueprints.

  \<^bold>\<open>Theories and the code they model\<close>
    \<^item> \<open>Prelude\<close>: shared types (words, bytes, peer ids), collections of facts, and lemmas on lists,
      association lists, multisets and results.
    \<^item> \<open>Particle\<close>: \<^verbatim>\<open>particle-protocol/src/{particle,contact}.rs\<close>, its \<^verbatim>\<open>libp2p_protocol/message.rs\<close>,
      \<^verbatim>\<open>particle-execution/src/particle_params.rs\<close> and \<^verbatim>\<open>aquamarine/src/deadline.rs\<close>. Timestamps and times to live
      are words of the width the code uses.
    \<^item> \<open>Wire\<close>: \<^verbatim>\<open>particle-protocol/src/libp2p_protocol/upgrade.rs\<close>, the serde representation of messages,
      \<^verbatim>\<open>crates/libp2p/src/serde.rs\<close> and \<^verbatim>\<open>crates/json-utils/src/base64_serde.rs\<close>.
    \<^item> \<open>Waiting_Queues\<close>: \<^verbatim>\<open>crates/waiting-queues\<close>.
    \<^item> \<open>Vm_Pool\<close>: \<^verbatim>\<open>aquamarine/src/vm_pool.rs\<close>; a slice index out of bounds is \<open>None\<close>.
    \<^item> \<open>Call_Args\<close>: \<^verbatim>\<open>crates/particle-args\<close>, \<^verbatim>\<open>particle-execution/src/function_outcome.rs\<close> and the wrappers of
      \<^verbatim>\<open>particle-builtins/src/{func,outcome}.rs\<close>.
    \<^item> \<open>Execution\<close>: \<^verbatim>\<open>aquamarine/src/{aqua_runtime,invoke,particle_executor,particle_effects}.rs\<close>.
    \<^item> \<open>Functions\<close>: \<^verbatim>\<open>aquamarine/src/particle_functions.rs\<close>.
    \<^item> \<open>Actor\<close>: \<^verbatim>\<open>aquamarine/src/actor.rs\<close>.
    \<^item> \<open>Key_Manager\<close>: \<^verbatim>\<open>crates/key-manager\<close>.
    \<^item> \<open>Plumber\<close>: \<^verbatim>\<open>aquamarine/src/{plumber,aquamarine,command,error}.rs\<close>.
    \<^item> \<open>Connection_Pool\<close>: \<^verbatim>\<open>connection-pool/src/{behaviour,api,connection_pool}.rs\<close>.
    \<^item> \<open>Kad_Behaviour\<close>: \<^verbatim>\<open>crates/kademlia/src/{behaviour,api,error}.rs\<close>, with its settings of
      \<^verbatim>\<open>crates/server-config/src/kademlia_config.rs\<close>.
    \<^item> \<open>Event_Bus\<close>: \<^verbatim>\<open>crates/spell-event-bus/src/{bus,api,config}.rs\<close>.
    \<^item> \<open>Script_Storage\<close>: \<^verbatim>\<open>script-storage/src/{script_storage,config}.rs\<close>.
    \<^item> \<open>Module_Repository\<close>: \<^verbatim>\<open>particle-modules/src/{modules,files,error}.rs\<close> and \<^verbatim>\<open>crates/service-modules\<close>.
    \<^item> \<open>File_Store\<close>: the locale \<open>named_files\<close>, a directory of files named after the key of what they hold; interpreted
      for blueprints and for persisted services.
    \<^item> \<open>App_Services\<close>: \<^verbatim>\<open>particle-services/src/{app_services,app_service,persistence,error}.rs\<close>.
    \<^item> \<open>Spells\<close>: \<^verbatim>\<open>sorcerer/src/{sorcerer,spells,script_executor,utils}.rs\<close>, \<^verbatim>\<open>spell-storage/src/storage.rs\<close> and the
      sending side of \<^verbatim>\<open>crates/spell-event-bus/src/api.rs\<close>.
    \<^item> \<open>Data_Store\<close>: paths of \<^verbatim>\<open>std::path\<close>, a file system without links, \<^verbatim>\<open>particle-execution/src/particle_vault.rs\<close>,
      \<^verbatim>\<open>aquamarine/src/particle_data_store.rs\<close> and operations of \<^verbatim>\<open>crates/fs-utils\<close>.
    \<^item> \<open>Math_Ops\<close>, \<open>Builtin_Ops\<close>, \<open>Builtins\<close>: \<^verbatim>\<open>particle-builtins/src/{math,json,builtins,particle_function,identify}.rs\<close>, with the
      calls they make to modules and scripts.
    \<^item> \<open>Connectivity\<close>: \<^verbatim>\<open>particle-node/src/{connectivity,effectors,dispatcher}.rs\<close> and the client sides of the connection
      pool, of Kademlia and of Aquamarine, composed with the models of the pool and of Kademlia into one system
      (\<open>net_step\<close>). The locale \<open>channel_server\<close> states what its clients rely on and is interpreted for both.
    \<^item> \<open>Node\<close>: bootstrapping and reconnection of \<^verbatim>\<open>connectivity.rs\<close>, \<^verbatim>\<open>behaviour/identify.rs\<close>, \<^verbatim>\<open>tasks.rs\<close> and the loop of
      \<^verbatim>\<open>node.rs\<close>.
    \<^item> \<open>Service_Metrics\<close>: \<^verbatim>\<open>crates/peer-metrics/src/services_metrics\<close>.
    \<^item> \<open>Deployer\<close>: \<^verbatim>\<open>crates/builtins-deployer\<close> and the client side of particles in \<^verbatim>\<open>crates/local-vm\<close>.
    \<^item> \<open>Config\<close>: \<^verbatim>\<open>crates/server-config/src/{args,resolved_config,node_config,keys,dir_config,defaults}.rs\<close>.
    \<^item> \<open>Startup\<close>: \<^verbatim>\<open>particle-node/src/main.rs\<close>, \<^verbatim>\<open>Node::new\<close>, \<^verbatim>\<open>Sorcerer::new\<close>, \<^verbatim>\<open>behaviour/network.rs\<close>,
      \<^verbatim>\<open>crates/server-config/src/{services_config,network_config}.rs\<close>, \<^verbatim>\<open>crates/config-utils\<close> and \<^verbatim>\<open>aquamarine/src/config.rs\<close>:
      the models of the components put together.
    \<^item> \<open>Client\<close>: \<^verbatim>\<open>crates/connected-client\<close>, the making and reading of particles in \<^verbatim>\<open>crates/local-vm\<close>, and
      \<^verbatim>\<open>crates/toy-vms\<close>: the other end of a connection.

  \<^bold>\<open>How state and operations correspond to the code\<close>
    \<^item> A struct is a record and an enum a datatype, with the names of the code; fields have a short prefix where a name is used
      more than once. Hash maps and the tables of actors are association lists (\<^verbatim>\<open>HashMap::insert\<close> is
      \<open>AList.update\<close>, \<^verbatim>\<open>remove\<close> is \<open>AList.delete\<close>); a property never depends on their order unless it says so.
    \<^item> A method with \<^verbatim>\<open>&mut self\<close> is a function to the new state; a \<^verbatim>\<open>Result\<close> is a sum with the error on the left; a panic is
      \<open>None\<close>.
    \<^item> A \<^verbatim>\<open>poll\<close> takes what the futures it polls would answer as an argument: the completed creation futures of the
      pool, the completed host calls and interpretations of the actors (\<open>env\<close>), the commands waiting in the inlets, the
      clock. The theorems quantify over it, so they hold for every scheduling of the futures.
    \<^item> Answers to oneshot channels and messages to unbounded channels are appended to a log in the state
      (\<open>cp_replies\<close>, \<open>kd_replies\<close>, \<open>ss_replies\<close>, \<open>eb_sent\<close>), so that a property can count them.
    \<^item> Code outside the repository is a parameter: signing and base58 (\<open>crypto\<close>), the AVM (\<open>avm_runtime\<close>), the libp2p
      Kademlia behaviour, toml, hashing and Marine (\<open>module_api\<close>), key encoding (\<open>keypair_api\<close>). What a theorem needs of
      them is a named assumption, and its witness gives concrete functions that satisfy it.

  \<^bold>\<open>What the theorems show\<close>
    \<^item> Particles: the 64-bit and the 128-bit expiry check agree and do not wrap around; signatures verify; what the signed
      bytes determine, and that they do not determine everything; what is sent over the wire is what arrives, up to the
      size the receiver accepts, and no input from the wire makes the pool panic.
    \<^item> Runtime pool, through the locale \<open>vm_store\<close>, which states what its clients rely on: taking and returning runtimes,
      absence of panics, and the runtimes that are lost at start-up.
    \<^item> Execution: what effects an interpretation yields, when an actor starts one, that host calls are answered once, that
      built-ins have precedence, that the backend never panics, that runtimes are neither lost nor duplicated in
      execution, that live actors are kept, where ingested particles and effects go, and that the backend's loop ends.
    \<^item> Connectivity: every promise of the connection pool and of peer discovery is accounted for, failed contacts are
      released, waiters time out, queues are first-in first-out; and the cases in which a caller is told the wrong
      thing or nothing.
    \<^item> Spells and scripts: triggers, schedules, validation and permissions.
    \<^item> Keys and modules: scopes, modules and blueprints survive a restart; blueprints resolve; the heap limit that is not
      enforced.
    \<^item> Services: they refine an abstract registry (id to owner, blueprint and aliases) step by step and survive a restart;
      who may remove them, what a call does; the alias that outlives its service.
    \<^item> Spells as services: what an installation creates, that a removed spell stays silent, that its particles verify;
      the removal that disables a spell although it is refused, and the installation that is not rolled back.
    \<^item> Data of particles: particles with plain names as ids are kept apart; what an id that is a path can do.
    \<^item> Built-in functions: exact arithmetic with its overflows, well-formed values, slices in bounds, neighborhoods merged by
      distance, what is signed, who may remove a script, and that custom services cannot replace a built-in function.
    \<^item> Sending particles: through any interleaving of sends, pool and Kademlia every target is settled once and reported
      once, no send waits on a channel nobody holds, and a send ends after at most four answers; the dispatcher keeps its
      limit; when bootstrap runs and how reconnection backs off; when the main loop ends.
    \<^item> Metrics: statistics are those of the reported calls, totals agree with functions, the average is exact in exact
      arithmetic; the memory of removed services that stays counted.
    \<^item> Deployment: it returns, an unchanged builtin is only started, the list of services is read back as the node resolves
      aliases, blueprint ids on disk and on the node agree; the retry count with which it hangs, and the clash of
      variable names.
    \<^item> Configuration: what the command line overrides, that a key pair has one source and that a generated one is found
      again, that configured directories exist; the settings of the file and the arguments that have no effect.
    \<^item> Construction: a new node satisfies the invariants of its parts, which act under one identity and share one vault;
      the functions of spells are reachable through the built-in functions; the interpreter is in place.
    \<^item> Clients: particles and events are passed on in order and without loss, requests return within a bound, the right
      answer is found; the receive that never returns, and the addresses that are not dialled again.
    \<^item> This theory: how a change of connections reaches the spells that subscribed to it.

  \<^bold>\<open>Bounds and fuel\<close>: no definition has fuel. The loops of the code that may go on for as long as the environment has
  something ready (\<^verbatim>\<open>AquamarineBackend::poll\<close>, the poll of the connection pool, the reconnection to bootstrap nodes) recurse
  over the finite list of what the environment provides; \<open>backend_poll_ends\<close> shows that nothing else keeps the first of
  them going. The loops of the power, the logarithm and the substitution of variables end by a measure. Waiting
  for the runtime pool is a partial function: that it returns is a theorem (\<open>deployment_returns\<close>), with the one setting
  excluded for which it does not. The loops of a client that run its interpreter, its ping or its inlet are partial functions
  too; they return for an interpreter and a ping that make progress and while its task lives (\<open>client_requests_return\<close>). The capacity of \<^verbatim>\<open>u64\<close>, \<^verbatim>\<open>u32\<close> and \<^verbatim>\<open>u16\<close> fields is kept where the code computes with them.

  \<^bold>\<open>Not modelled\<close>: transports, the registration of metrics, logging, the parsing of
  configuration files and command lines, and the crates that start nodes for tests. They are input and output or third-party glue.
\<close>

section \<open>From the connection pool to the event bus\<close>

text \<open>The node subscribes the bus to the pool's events with an outlet \<open>out\<close> and feeds it what arrives
  (\<^verbatim>\<open>particle-node/src/node.rs\<close>).\<close>

definition events_of :: "outlet \<Rightarrow> conn_pool \<Rightarrow> lifecycle_event list" where
  "events_of out st = map snd (filter (\<lambda>(o', _). o' = out) (cp_notified st))"

definition feed_bus :: "lifecycle_event list \<Rightarrow> event_bus \<Rightarrow> event_bus" where
  "feed_bus evs bus = fold (\<lambda>e. bus_step True (PeerEventInput (peer_event_from e))) evs bus"

definition new_events :: "outlet \<Rightarrow> conn_pool \<Rightarrow> conn_pool \<Rightarrow> lifecycle_event list" where
  "new_events out st st' = drop (length (events_of out st)) (events_of out st')"

lemma filter_outlet:
  "distinct subs \<Longrightarrow> out \<in> set subs \<Longrightarrow> filter (\<lambda>(o', _). o' = out) (map (\<lambda>o'. (o', ev)) subs) = [(out, ev)]"
  by (induction subs) (auto simp: filter_empty_conv)

lemma new_events_lifecycle:
  assumes "distinct (cp_subscribers st)" and "out \<in> set (cp_subscribers st)" and "alive out"
    and "cp_notified st' = cp_notified st @ map (\<lambda>o'. (o', ev)) (filter alive (cp_subscribers st))"
  shows "new_events out st st' = [ev]"
  using assms filter_outlet [of "filter alive (cp_subscribers st)" out ev] by (simp add: new_events_def events_of_def)

lemma add_connected_address_frame [simp]:
  "cp_notified (add_connected_address p maddr st) = cp_notified st"
  "cp_subscribers (add_connected_address p maddr st) = cp_subscribers st"
  by (simp_all add: add_connected_address_def reply_all_def Let_def split: option.splits)

lemma established_notifies:
  "cp_notified (inject_connection_established alive p maddr None st) =
     cp_notified st @ map (\<lambda>o'. (o', Connected (contact_new p [maddr]))) (filter alive (cp_subscribers st))"
  by (simp add: inject_connection_established_def cp_lifecycle_event_def)

lemma notify_failed_dial_notified [simp]: "cp_notified (notify_failed_dial addr st) = cp_notified st"
  by (simp add: notify_failed_dial_def reply_all_def split: option.splits)

lemma closed_notifies:
  assumes "map_of (cp_contacts st) p = Some c"
  shows "cp_notified (inject_connection_closed alive p maddr 0 st) =
     cp_notified st @ map (\<lambda>o'. (o', Disconnected (contact_new p (peer_addresses c)))) (filter alive (cp_subscribers st))"
proof -
  have "map_of (cp_contacts (remove_contact alive p st)) p = None"
    using assms by (simp add: remove_contact_def reply_all_def cp_lifecycle_event_def delete_conv')
  then show ?thesis
    using assms
    by (simp add: inject_connection_closed_def fail_address_def Let_def remove_contact_def reply_all_def cp_lifecycle_event_def)
qed



end
